(* ===== verification/Prelude.thy ===== *)
theory Prelude
  imports Main "HOL-Library.Word" "HOL-Library.Multiset" "HOL-Library.Product_Lexorder"
begin

text \<open>
  What every component shares: the Rust \<open>Result\<close> and its \<open>?\<close> operator, \<open>str\<close> as a list of
  UTF-8 bytes with the library operations the sources call (\<open>len\<close>, \<open>trim\<close>, \<open>split\<close>,
  \<open>starts_with\<close>, ASCII case folding), machine integers of a given width, and SQL tables as
  lists of rows with the four statement forms (select, update, delete, insert) used by the
  store.  The collections \<open>result_simps\<close>, \<open>table_simps\<close> carry the component proofs.
\<close>

named_theorems result_simps \<open>evaluation of the result combinators\<close>
named_theorems table_simps \<open>rows of a table after an update or a delete\<close>

section \<open>Result\<close>

text \<open>Rust's \<open>Result<T, E>\<close> is the sum \<open>'e + 'a\<close>: \<open>Err\<close> on the left, \<open>Ok\<close> on the right.\<close>

type_synonym ('a, 'e) result = "'e + 'a"

abbreviation Ok :: "'a \<Rightarrow> 'e + 'a" where "Ok \<equiv> Inr"
abbreviation Err :: "'e \<Rightarrow> 'e + 'a" where "Err \<equiv> Inl"

text \<open>The \<open>?\<close> operator and the \<open>Result\<close>/\<open>Option\<close> adapters the sources use.\<close>

fun and_then :: "'e + 'a \<Rightarrow> ('a \<Rightarrow> 'e + 'b) \<Rightarrow> 'e + 'b" where
  "and_then (Inl e) f = Inl e"
| "and_then (Inr a) f = f a"

fun map_err :: "('e \<Rightarrow> 'f) \<Rightarrow> 'e + 'a \<Rightarrow> 'f + 'a" where
  "map_err g (Inl e) = Inl (g e)"
| "map_err g (Inr a) = Inr a"

fun map_ok :: "('a \<Rightarrow> 'b) \<Rightarrow> 'e + 'a \<Rightarrow> 'e + 'b" where
  "map_ok g (Inl e) = Inl e"
| "map_ok g (Inr a) = Inr (g a)"

fun ok_or :: "'a option \<Rightarrow> 'e \<Rightarrow> 'e + 'a" where
  "ok_or None e = Inl e"
| "ok_or (Some a) e = Inr a"

fun is_ok :: "'e + 'a \<Rightarrow> bool" where
  "is_ok (Inl e) = False"
| "is_ok (Inr a) = True"

text \<open>Collecting an iterator of results: the first error wins.\<close>

fun collect_ok :: "('e + 'a) list \<Rightarrow> 'e + 'a list" where
  "collect_ok [] = Inr []"
| "collect_ok (r # rs) = and_then r (\<lambda>a. map_ok (Cons a) (collect_ok rs))"

text \<open>\<open>guard_err c e\<close> is the early return \<open>if c { return Err(e) }\<close>.\<close>

definition guard_err :: "bool \<Rightarrow> 'e \<Rightarrow> 'e + unit" where
  "guard_err c e = (if c then Inl e else Inr ())"

lemma and_then_eq_Ok [result_simps]:
  "and_then r f = Inr b \<longleftrightarrow> (\<exists>a. r = Inr a \<and> f a = Inr b)"
  by (cases r) auto

lemma and_then_eq_Err [result_simps]:
  "and_then r f = Inl e \<longleftrightarrow> r = Inl e \<or> (\<exists>a. r = Inr a \<and> f a = Inl e)"
  by (cases r) auto

lemma map_err_eq_Ok [result_simps]: "map_err g r = Inr a \<longleftrightarrow> r = Inr a"
  by (cases r) auto

lemma map_err_eq_Err [result_simps]: "map_err g r = Inl f \<longleftrightarrow> (\<exists>e. r = Inl e \<and> f = g e)"
  by (cases r) auto

lemma map_ok_eq_Ok [result_simps]: "map_ok g r = Inr b \<longleftrightarrow> (\<exists>a. r = Inr a \<and> b = g a)"
  by (cases r) auto

lemma map_ok_eq_Err [result_simps]: "map_ok g r = Inl e \<longleftrightarrow> r = Inl e"
  by (cases r) auto

lemma collect_ok_map: "(\<And>x. x \<in> set xs \<Longrightarrow> f x = Inr (g x)) \<Longrightarrow> collect_ok (map f xs) = Inr (map g xs)"
  by (induction xs) auto

lemma ok_or_eq_Ok [result_simps]: "ok_or x e = Inr a \<longleftrightarrow> x = Some a"
  by (cases x) auto

lemma ok_or_eq_Err [result_simps]: "ok_or x e = Inl f \<longleftrightarrow> x = None \<and> f = e"
  by (cases x) auto

lemma guard_err_eq_Ok [result_simps]: "guard_err c e = Inr u \<longleftrightarrow> \<not> c"
  by (simp add: guard_err_def)

lemma guard_err_eq_Err [result_simps]: "guard_err c e = Inl f \<longleftrightarrow> c \<and> f = e"
  by (auto simp: guard_err_def)

lemma is_ok_iff [result_simps]: "is_ok r \<longleftrightarrow> (\<exists>a. r = Inr a)"
  by (cases r) auto

section \<open>Machine integers\<close>

text \<open>
  Signed integers are \<open>int\<close>s in their range with the two's complement wrap-around written out;
  unsigned counters are machine words.
\<close>

definition wrap_i32 :: "int \<Rightarrow> int" where
  "wrap_i32 x = (x + 2 ^ 31) mod 2 ^ 32 - 2 ^ 31"

definition in_i32 :: "int \<Rightarrow> bool" where
  "in_i32 x \<longleftrightarrow> - (2 ^ 31) \<le> x \<and> x < 2 ^ 31"

definition in_i64 :: "int \<Rightarrow> bool" where
  "in_i64 x \<longleftrightarrow> - (2 ^ 63) \<le> x \<and> x < 2 ^ 63"

definition in_u32 :: "int \<Rightarrow> bool" where
  "in_u32 x \<longleftrightarrow> 0 \<le> x \<and> x < 2 ^ 32"

definition in_u64 :: "int \<Rightarrow> bool" where
  "in_u64 x \<longleftrightarrow> 0 \<le> x \<and> x < 2 ^ 64"

text \<open>\<open>i64::saturating_add\<close>.\<close>

definition saturating_add_i64 :: "int \<Rightarrow> int \<Rightarrow> int" where
  "saturating_add_i64 a b = max (- (2 ^ 63)) (min (2 ^ 63 - 1) (a + b))"

lemma wrap_i32_in_range: "in_i32 (wrap_i32 x)"
proof -
  have "0 \<le> (x + 2 ^ 31) mod 2 ^ 32" "(x + 2 ^ 31) mod 2 ^ 32 < (2::int) ^ 32"
    by (rule pos_mod_sign pos_mod_bound; simp)+
  then show ?thesis by (simp add: in_i32_def wrap_i32_def)
qed

lemma wrap_i32_id: "in_i32 x \<Longrightarrow> wrap_i32 x = x"
  by (simp add: in_i32_def wrap_i32_def)


section \<open>Strings\<close>

text \<open>
  A Rust \<open>str\<close> is its UTF-8 bytes: \<open>str::len\<close> counts them, and equality, prefixes and
  comparisons are bytewise.  PostgreSQL's \<open>char_length\<close> counts characters, that is the bytes that
  do not continue a character.
\<close>

definition byte :: "char \<Rightarrow> nat" where
  "byte c = of_char c"

definition continuation :: "char \<Rightarrow> bool" where
  "continuation c \<longleftrightarrow> 128 \<le> byte c \<and> byte c < 192"

definition char_length :: "string \<Rightarrow> nat" where
  "char_length s = length (filter (\<lambda>c. \<not> continuation c) s)"

text \<open>
  Length in bytes of the well-formed character at the head of \<open>s\<close>: Table 3-7 of the Unicode
  standard, which is what \<open>str::from_utf8\<close> accepts.
\<close>

fun utf8_head_len :: "string \<Rightarrow> nat option" where
  "utf8_head_len [] = None"
| "utf8_head_len (a # s) =
     (let x = byte a; b1 = (case s of [] \<Rightarrow> 0 | b # _ \<Rightarrow> byte b)
      in if x < 128 then Some 1
         else if x < 194 then None
         else if x < 224 then (if list_all continuation (take 1 s) \<and> 1 \<le> length s then Some 2 else None)
         else if x < 240 then
           (if list_all continuation (take 2 s) \<and> 2 \<le> length s
               \<and> (x = 224 \<longrightarrow> 160 \<le> b1) \<and> (x = 237 \<longrightarrow> b1 < 160) then Some 3 else None)
         else if x < 245 then
           (if list_all continuation (take 3 s) \<and> 3 \<le> length s
               \<and> (x = 240 \<longrightarrow> 144 \<le> b1) \<and> (x = 244 \<longrightarrow> b1 < 144) then Some 4 else None)
         else None)"

lemma utf8_head_len_pos: "utf8_head_len s = Some n \<Longrightarrow> 0 < n"
  by (cases s) (auto simp: Let_def split: if_splits)

function valid_utf8 :: "string \<Rightarrow> bool" where
  "valid_utf8 s =
     (if s = [] then True
      else case utf8_head_len s of None \<Rightarrow> False | Some n \<Rightarrow> valid_utf8 (drop n s))"
  by pat_completeness auto
termination
  by (relation "measure length") (auto dest: utf8_head_len_pos)

declare valid_utf8.simps [simp del]

lemma valid_utf8_Nil [simp]: "valid_utf8 []"
  by (simp add: valid_utf8.simps)

text \<open>The first byte of a well-formed string starts a character.\<close>

lemma valid_utf8_head: "valid_utf8 (a # s) \<Longrightarrow> \<not> continuation a"
  by (subst (asm) valid_utf8.simps)
     (auto simp: Let_def continuation_def split: if_splits option.splits)

lemma ascii_char_length:
  assumes "list_all (\<lambda>c. byte c < 128) s"
  shows "char_length s = length s"
  using assms by (induction s) (auto simp: char_length_def continuation_def)

lemma char_length_le: "char_length s \<le> length s"
  by (simp add: char_length_def)

lemma char_length_pos: "valid_utf8 s \<Longrightarrow> s \<noteq> [] \<Longrightarrow> 0 < char_length s"
  by (cases s) (auto simp: char_length_def dest: valid_utf8_head)

text \<open>
  White space: the UTF-8 encodings of the characters with the Unicode property
  \<open>White_Space\<close>, which is what \<open>char::is_whitespace\<close> tests.
\<close>

definition ws_seqs :: "string list" where
  "ws_seqs =
     [[CHR 0x09], [CHR 0x0A], [CHR 0x0B], [CHR 0x0C], [CHR 0x0D], [CHR 0x20],
      [CHR 0xC2, CHR 0x85], [CHR 0xC2, CHR 0xA0], [CHR 0xE1, CHR 0x9A, CHR 0x80]]
     @ map (\<lambda>c. [CHR 0xE2, CHR 0x80, c])
         [CHR 0x80, CHR 0x81, CHR 0x82, CHR 0x83, CHR 0x84, CHR 0x85, CHR 0x86, CHR 0x87,
          CHR 0x88, CHR 0x89, CHR 0x8A, CHR 0xA8, CHR 0xA9, CHR 0xAF]
     @ [[CHR 0xE2, CHR 0x81, CHR 0x9F], [CHR 0xE3, CHR 0x80, CHR 0x80]]"

fun strip_prefix :: "string \<Rightarrow> string \<Rightarrow> string option" where
  "strip_prefix [] s = Some s"
| "strip_prefix (p # ps) [] = None"
| "strip_prefix (p # ps) (c # s) = (if p = c then strip_prefix ps s else None)"

definition starts_with :: "string \<Rightarrow> string \<Rightarrow> bool" where
  "starts_with s p \<longleftrightarrow> strip_prefix p s \<noteq> None"

fun strip_one :: "string list \<Rightarrow> string \<Rightarrow> string option" where
  "strip_one [] s = None"
| "strip_one (w # ws) s =
     (case strip_prefix w s of Some t \<Rightarrow> Some t | None \<Rightarrow> strip_one ws s)"

lemma strip_prefix_Some: "strip_prefix p s = Some t \<longleftrightarrow> s = p @ t"
  by (induction p s rule: strip_prefix.induct) auto

lemma strip_prefix_append [simp]: "strip_prefix p (p @ t) = Some t"
  by (simp add: strip_prefix_Some)

lemma starts_with_iff: "starts_with s p \<longleftrightarrow> (\<exists>t. s = p @ t)"
  by (auto simp: starts_with_def strip_prefix_Some)

lemma strip_one_Some: "strip_one ws s = Some t \<Longrightarrow> \<exists>w\<in>set ws. s = w @ t"
  by (induction ws) (auto simp: strip_prefix_Some split: option.splits)

lemma strip_one_None: "strip_one ws s = None \<longleftrightarrow> (\<forall>w\<in>set ws. \<forall>t. s \<noteq> w @ t)"
  by (induction ws) (auto simp: strip_prefix_Some split: option.splits)

text \<open>
  Trimming removes encodings of white space while one matches.  The lead byte of a character fixes
  its length, so on a well-formed string a match is a whole character, from either end.
\<close>

function strip_seqs :: "string list \<Rightarrow> string \<Rightarrow> string" where
  "strip_seqs ws s =
     (case strip_one ws s of
        None \<Rightarrow> s
      | Some t \<Rightarrow> if length t < length s then strip_seqs ws t else s)"
  by pat_completeness auto
termination
  by (relation "measure (\<lambda>(ws, s). length s)") auto

declare strip_seqs.simps [simp del]

definition trim_start :: "string \<Rightarrow> string" where
  "trim_start s = strip_seqs ws_seqs s"

definition trim_end :: "string \<Rightarrow> string" where
  "trim_end s = rev (strip_seqs (map rev ws_seqs) (rev s))"

definition trim :: "string \<Rightarrow> string" where
  "trim s = trim_end (trim_start s)"

definition blank :: "string \<Rightarrow> bool" where
  "blank s \<longleftrightarrow> trim s = []"

lemma strip_seqs_Nil [simp]: "strip_seqs ws [] = []"
  by (subst strip_seqs.simps) (auto split: option.splits)

lemma blank_Nil [simp]: "blank []"
  by (simp add: blank_def trim_def trim_start_def trim_end_def)

lemma not_blank_nonempty: "\<not> blank s \<Longrightarrow> s \<noteq> []"
  by auto

text \<open>Trimming keeps every byte that is part of no white space.\<close>

lemma strip_seqs_keeps:
  "c \<in> set s \<Longrightarrow> \<forall>w\<in>set ws. c \<notin> set w \<Longrightarrow> c \<in> set (strip_seqs ws s)"
proof (induction ws s rule: strip_seqs.induct)
  case (1 ws s)
  show ?case
  proof (cases "strip_one ws s")
    case None
    with 1 show ?thesis by (simp add: strip_seqs.simps)
  next
    case (Some t)
    with strip_one_Some [OF this] 1 have "c \<in> set t" by auto
    with Some 1 show ?thesis by (simp add: strip_seqs.simps [of ws s])
  qed
qed

lemma visible_not_blank:
  assumes "c \<in> set s" "\<forall>w\<in>set ws_seqs. c \<notin> set w"
  shows "\<not> blank s"
proof -
  have "c \<in> set (trim s)"
    using assms by (auto simp: trim_def trim_start_def trim_end_def intro!: strip_seqs_keeps)
  then show ?thesis by (auto simp: blank_def)
qed

text \<open>ASCII case folding, splitting at a separator, decimal and hexadecimal rendering.\<close>

definition ascii_lower :: "char \<Rightarrow> char" where
  "ascii_lower c = (if 65 \<le> byte c \<and> byte c \<le> 90 then char_of (byte c + 32) else c)"

definition to_ascii_lowercase :: "string \<Rightarrow> string" where
  "to_ascii_lowercase s = map ascii_lower s"

definition eq_ignore_ascii_case :: "string \<Rightarrow> string \<Rightarrow> bool" where
  "eq_ignore_ascii_case a b \<longleftrightarrow> to_ascii_lowercase a = to_ascii_lowercase b"

fun split_char :: "char \<Rightarrow> string \<Rightarrow> string list" where
  "split_char d [] = [[]]"
| "split_char d (c # s) =
     (if c = d then [] # split_char d s
      else case split_char d s of [] \<Rightarrow> [[c]] | w # ws \<Rightarrow> (c # w) # ws)"

fun split_once :: "string \<Rightarrow> string \<Rightarrow> (string \<times> string) option" where
  "split_once p [] = (case strip_prefix p [] of Some t \<Rightarrow> Some ([], t) | None \<Rightarrow> None)"
| "split_once p (c # s) =
     (case strip_prefix p (c # s) of
        Some t \<Rightarrow> Some ([], t)
      | None \<Rightarrow> map_option (\<lambda>(a, b). (c # a, b)) (split_once p s))"

fun show_nat :: "nat \<Rightarrow> string" where
  "show_nat n = (if n < 10 then [char_of (48 + n)] else show_nat (n div 10) @ [char_of (48 + n mod 10)])"

declare show_nat.simps [simp del]

definition show_int :: "int \<Rightarrow> string" where
  "show_int i = (if i < 0 then CHR 0x2D # show_nat (nat (- i)) else show_nat (nat i))"

text \<open>A text in single quotes, as the \<open>format!\<close> templates write it.\<close>

definition quoted :: "string \<Rightarrow> string" where
  "quoted s = CHR 0x27 # s @ [CHR 0x27]"

lemma split_once_Some: "split_once p s = Some (a, b) \<Longrightarrow> s = a @ p @ b"
  by (induction p s arbitrary: a rule: split_once.induct)
     (auto simp: strip_prefix_Some split: option.splits)


section \<open>Tables\<close>

text \<open>
  A SQL table is the list of its rows.  The four statement forms; the count of an
  \<open>UPDATE\<close>/\<open>DELETE\<close> is the number of rows its \<open>WHERE\<close> selects.
\<close>

definition fetch_optional :: "('r \<Rightarrow> bool) \<Rightarrow> 'r list \<Rightarrow> 'r option" where
  "fetch_optional P rs = find P rs"

definition row_exists :: "('r \<Rightarrow> bool) \<Rightarrow> 'r list \<Rightarrow> bool" where
  "row_exists P rs = list_ex P rs"

definition update_where :: "('r \<Rightarrow> bool) \<Rightarrow> ('r \<Rightarrow> 'r) \<Rightarrow> 'r list \<Rightarrow> 'r list" where
  "update_where P f rs = map (\<lambda>r. if P r then f r else r) rs"

definition delete_where :: "('r \<Rightarrow> bool) \<Rightarrow> 'r list \<Rightarrow> 'r list" where
  "delete_where P rs = filter (\<lambda>r. \<not> P r) rs"

definition rows_affected :: "('r \<Rightarrow> bool) \<Rightarrow> 'r list \<Rightarrow> nat" where
  "rows_affected P rs = length (filter P rs)"

definition unique_key :: "('r \<Rightarrow> 'k) \<Rightarrow> 'r list \<Rightarrow> bool" where
  "unique_key k rs \<longleftrightarrow> distinct (map k rs)"

lemma fetch_optional_None: "fetch_optional P rs = None \<longleftrightarrow> (\<forall>r\<in>set rs. \<not> P r)"
  by (auto simp: fetch_optional_def find_None_iff)

lemma fetch_optional_SomeD: "fetch_optional P rs = Some r \<Longrightarrow> r \<in> set rs \<and> P r"
  by (auto simp: fetch_optional_def find_Some_iff)

lemma fetch_optional_append [table_simps]:
  "fetch_optional P (xs @ ys) =
     (case fetch_optional P xs of None \<Rightarrow> fetch_optional P ys | Some x \<Rightarrow> Some x)"
  by (induction xs) (auto simp: fetch_optional_def)

lemma fetch_optional_single [simp]: "fetch_optional P [x] = (if P x then Some x else None)"
  by (simp add: fetch_optional_def)

lemma row_exists_iff [table_simps]: "row_exists P rs \<longleftrightarrow> (\<exists>r\<in>set rs. P r)"
  by (simp add: row_exists_def list_ex_iff)

lemma row_exists_append [table_simps]:
  "row_exists P (xs @ ys) \<longleftrightarrow> row_exists P xs \<or> row_exists P ys"
  by (simp add: row_exists_def)

lemma row_exists_single [simp]: "row_exists P [x] \<longleftrightarrow> P x"
  by (simp add: row_exists_def)

lemma row_exists_disj: "row_exists (\<lambda>x. P x \<or> Q x) rs \<longleftrightarrow> row_exists P rs \<or> row_exists Q rs"
  by (auto simp: row_exists_iff)

lemma fetch_optional_None_exists: "fetch_optional P rs = None \<longleftrightarrow> \<not> row_exists P rs"
  by (auto simp: fetch_optional_None row_exists_iff)

lemma set_update_where [table_simps]:
  "set (update_where P f rs) = f ` {r \<in> set rs. P r} \<union> {r \<in> set rs. \<not> P r}"
  by (auto simp: update_where_def)

lemma update_where_id [simp]: "update_where P (\<lambda>x. x) rs = rs"
  by (simp add: update_where_def)

lemma set_delete_where [table_simps]: "set (delete_where P rs) = {r \<in> set rs. \<not> P r}"
  by (auto simp: delete_where_def)

lemma length_update_where [table_simps]: "length (update_where P f rs) = length rs"
  by (simp add: update_where_def)

lemma length_delete_where: "length (delete_where P rs) + rows_affected P rs = length rs"
  by (simp add: delete_where_def rows_affected_def sum_length_filter_compl add.commute)

lemma update_where_keys:
  assumes "\<And>r. r \<in> set rs \<Longrightarrow> P r \<Longrightarrow> k (f r) = k r"
  shows "map k (update_where P f rs) = map k rs"
  using assms by (simp add: update_where_def)

lemma unique_key_update_where:
  assumes "unique_key k rs" "\<And>r. r \<in> set rs \<Longrightarrow> P r \<Longrightarrow> k (f r) = k r"
  shows "unique_key k (update_where P f rs)"
  using assms by (simp add: unique_key_def update_where_keys)

lemma unique_key_delete_where: "unique_key k rs \<Longrightarrow> unique_key k (delete_where P rs)"
  by (simp add: unique_key_def delete_where_def distinct_map_filter)

lemma unique_key_insert:
  "unique_key k rs \<Longrightarrow> \<not> row_exists (\<lambda>r. k r = k x) rs \<Longrightarrow> unique_key k (rs @ [x])"
  by (auto simp: unique_key_def row_exists_iff)

lemma unique_keyD:
  "unique_key k rs \<Longrightarrow> x \<in> set rs \<Longrightarrow> y \<in> set rs \<Longrightarrow> k x = k y \<Longrightarrow> x = y"
  by (simp add: unique_key_def distinct_map inj_on_def)

lemma fetch_optional_unique:
  assumes "unique_key k rs" "x \<in> set rs" "P x" "\<And>y. y \<in> set rs \<Longrightarrow> P y \<Longrightarrow> k y = k x"
  shows "fetch_optional P rs = Some x"
proof (cases "fetch_optional P rs")
  case None
  with assms show ?thesis by (auto simp: fetch_optional_None)
next
  case (Some y)
  then have "y \<in> set rs" "P y" by (auto dest: fetch_optional_SomeD)
  with assms have "y = x" by (metis unique_keyD)
  with Some show ?thesis by simp
qed

text \<open>An update or a delete leaves the rows it does not select as they are.\<close>

lemma filter_update_where_other:
  assumes "\<And>r. r \<in> set rs \<Longrightarrow> P r \<Longrightarrow> \<not> Q r \<and> \<not> Q (f r)"
  shows "filter Q (update_where P f rs) = filter Q rs"
  using assms by (induction rs) (auto simp: update_where_def)

lemma filter_delete_where_other:
  assumes "\<And>r. r \<in> set rs \<Longrightarrow> P r \<Longrightarrow> \<not> Q r"
  shows "filter Q (delete_where P rs) = filter Q rs"
  using assms by (induction rs) (auto simp: delete_where_def)

lemma rows_affected_unique:
  assumes "unique_key k rs" "x \<in> set rs" "\<And>y. y \<in> set rs \<Longrightarrow> P y \<longleftrightarrow> k y = k x"
  shows "rows_affected P rs = 1"
proof -
  have "distinct rs" using assms(1) by (simp add: unique_key_def distinct_map)
  moreover have "set (filter P rs) = {x}"
    using assms by (auto dest: unique_keyD)
  ultimately show ?thesis
    unfolding rows_affected_def by (metis distinct_card distinct_filter is_singletonI is_singleton_altdef)
qed

lemma update_where_cong:
  "(\<And>r. r \<in> set rs \<Longrightarrow> P r = Q r) \<Longrightarrow> (\<And>r. r \<in> set rs \<Longrightarrow> Q r \<Longrightarrow> f r = g r) \<Longrightarrow>
     update_where P f rs = update_where Q g rs"
  by (simp add: update_where_def)

lemma update_where_none: "(\<And>r. r \<in> set rs \<Longrightarrow> \<not> P r) \<Longrightarrow> update_where P f rs = rs"
  by (induction rs) (auto simp: update_where_def)

lemma rows_affected_zero: "rows_affected P rs = 0 \<longleftrightarrow> (\<forall>r\<in>set rs. \<not> P r)"
  by (simp add: rows_affected_def filter_empty_conv)

end
