(* ===== verification/Specs.thy ===== *)
theory Specs
  imports Prelude
begin

text \<open>
  The four small crates that check a request before it enters the system: dependency graphs
  (\<open>dandori-graph\<close>), workflows (\<open>dandori-workflow\<close>), orchestration requests
  (\<open>dandori-orchestrator\<close>) and sync envelopes (\<open>dandori-sync-github\<close>).  Each \<open>validate\<close> stops at
  the first violated rule; each is proved equivalent to the declarative description of a
  well-formed value.  \<open>CrateError::Validation(message)\<close> is its message.
\<close>

section \<open>Graphs\<close>

type_synonym entity_id = "128 word"

record graph_edge =
  edge_from :: entity_id
  edge_to :: entity_id

record graph_spec =
  graph_nodes :: "entity_id list"
  graph_edges :: "graph_edge list"

fun validate_edges ::
  "entity_id set \<Rightarrow> (entity_id \<times> entity_id) set \<Rightarrow> graph_edge list \<Rightarrow> string + unit" where
  "validate_edges node_set seen_edges [] = Ok ()"
| "validate_edges node_set seen_edges (edge # edges) =
     (if edge_from edge = edge_to edge then Err ''self-loop edges are not allowed''
      else if edge_from edge \<notin> node_set \<or> edge_to edge \<notin> node_set then
        Err ''edges must reference known nodes''
      else if (edge_from edge, edge_to edge) \<in> seen_edges then
        Err ''duplicate directed edges are not allowed''
      else validate_edges node_set (insert (edge_from edge, edge_to edge) seen_edges) edges)"

definition GraphSpec_validate :: "graph_spec \<Rightarrow> string + unit" where
  "GraphSpec_validate self =
     (if graph_nodes self = [] then Err ''graph must contain at least one node''
      else validate_edges (set (graph_nodes self)) {} (graph_edges self))"

definition edge_pair :: "graph_edge \<Rightarrow> entity_id \<times> entity_id" where
  "edge_pair e = (edge_from e, edge_to e)"

lemma validate_edges_Ok:
  "validate_edges ns seen es = Ok () \<longleftrightarrow>
     (\<forall>e\<in>set es. edge_from e \<noteq> edge_to e \<and> edge_from e \<in> ns \<and> edge_to e \<in> ns)
     \<and> distinct (map edge_pair es) \<and> edge_pair ` set es \<inter> seen = {}"
proof (induction es arbitrary: seen)
  case Nil
  then show ?case by simp
next
  case (Cons e es)
  then show ?case
    by (auto simp: edge_pair_def)
qed

text \<open>
  Graph validation accepts exactly the simple directed graphs over the declared nodes: at
  least one node, no self loop, every endpoint declared, no edge twice.
\<close>

theorem graph_validate_exact:
  "GraphSpec_validate g = Ok () \<longleftrightarrow>
     graph_nodes g \<noteq> []
     \<and> distinct (map edge_pair (graph_edges g))
     \<and> edge_pair ` set (graph_edges g)
         \<subseteq> {(a, b). a \<noteq> b \<and> a \<in> set (graph_nodes g) \<and> b \<in> set (graph_nodes g)}"
  by (auto simp: GraphSpec_validate_def validate_edges_Ok edge_pair_def)

section \<open>Workflows\<close>

record transition =
  tr_from :: string
  tr_to :: string
  tr_action :: string

record workflow_spec =
  wf_name :: string
  wf_initial_state :: string
  wf_states :: "string list"
  wf_transitions :: "transition list"

fun validate_transitions :: "string set \<Rightarrow> transition list \<Rightarrow> string + unit" where
  "validate_transitions state_set [] = Ok ()"
| "validate_transitions state_set (t # ts) =
     (if blank (tr_action t) then Err ''transition action must not be empty''
      else if tr_from t \<notin> state_set \<or> tr_to t \<notin> state_set then
        Err ''transition endpoints must reference known states''
      else validate_transitions state_set ts)"

definition WorkflowSpec_validate :: "workflow_spec \<Rightarrow> string + unit" where
  "WorkflowSpec_validate self =
     (if blank (wf_name self) then Err ''workflow name must not be empty''
      else if wf_states self = [] then Err ''workflow must contain at least one state''
      else if wf_initial_state self \<notin> set (wf_states self) then
        Err ''initial state must be part of the declared state set''
      else validate_transitions (set (wf_states self)) (wf_transitions self))"

lemma validate_transitions_Ok:
  "validate_transitions ss ts = Ok () \<longleftrightarrow>
     (\<forall>t\<in>set ts. \<not> blank (tr_action t) \<and> tr_from t \<in> ss \<and> tr_to t \<in> ss)"
  by (induction ts) auto

lemma WorkflowSpec_validate_Ok:
  "WorkflowSpec_validate w = Ok () \<longleftrightarrow>
     \<not> blank (wf_name w) \<and> wf_initial_state w \<in> set (wf_states w)
     \<and> (\<forall>t\<in>set (wf_transitions w).
          \<not> blank (tr_action t) \<and> tr_from t \<in> set (wf_states w) \<and> tr_to t \<in> set (wf_states w))"
  by (auto simp: WorkflowSpec_validate_def validate_transitions_Ok)

text \<open>
  Runs of a workflow: the states an issue can take, from the initial one along transitions.
\<close>

inductive workflow_reaches :: "workflow_spec \<Rightarrow> string \<Rightarrow> bool" for w where
  initial: "workflow_reaches w (wf_initial_state w)"
| move: "workflow_reaches w s \<Longrightarrow> t \<in> set (wf_transitions w) \<Longrightarrow> tr_from t = s \<Longrightarrow>
     workflow_reaches w (tr_to t)"

text \<open>
  In a workflow that passes validation every state an issue can reach is a declared one.
\<close>

theorem validated_workflow_stays_declared:
  assumes "WorkflowSpec_validate w = Ok ()" "workflow_reaches w s"
  shows "s \<in> set (wf_states w)"
  using assms(2,1) by (induction rule: workflow_reaches.induct) (auto simp: WorkflowSpec_validate_Ok)

theorem validated_workflow_stays_declared_witness:
  "''done'' \<in> set [''open'', ''done'']"
proof -
  let ?w = "\<lparr>wf_name = ''w'', wf_initial_state = ''open'', wf_states = [''open'', ''done''],
     wf_transitions = [\<lparr>tr_from = ''open'', tr_to = ''done'', tr_action = ''close''\<rparr>]\<rparr>"
  have ok: "WorkflowSpec_validate ?w = Ok ()"
    by (simp add: WorkflowSpec_validate_Ok blank_def trim_def trim_start_def trim_end_def
        strip_seqs.simps ws_seqs_def)
  have "workflow_reaches ?w ''done''"
    using workflow_reaches.move [OF workflow_reaches.initial, of _ ?w] by fastforce
  from validated_workflow_stays_declared [OF ok this] show ?thesis by simp
qed

section \<open>Orchestration requests\<close>

record orchestration_request =
  orch_workspace_id :: entity_id
  orch_correlation_id :: entity_id
  orch_steps :: "string list"

datatype orchestration_status = Accepted | Rejected

definition OrchestrationRequest_validate :: "orchestration_request \<Rightarrow> string + unit" where
  "OrchestrationRequest_validate self =
     (if orch_steps self = [] then Err ''orchestration requires at least one step''
      else if list_ex blank (orch_steps self) then Err ''orchestration steps must be non-empty''
      else Ok ())"

definition ValidationOnly_submit :: "orchestration_request \<Rightarrow> string + orchestration_status" where
  "ValidationOnly_submit request =
     and_then (OrchestrationRequest_validate request) (\<lambda>_. Ok Accepted)"

section \<open>Sync envelopes\<close>

record sync_envelope =
  sync_workspace_id :: entity_id
  sync_external_id :: string
  sync_etag :: string

definition SyncEnvelope_validate :: "sync_envelope \<Rightarrow> string + unit" where
  "SyncEnvelope_validate self =
     (if blank (sync_external_id self) then Err ''external_id must not be empty''
      else if blank (sync_etag self) then Err ''etag must not be empty''
      else Ok ())"

definition NoopSyncGateway_upsert :: "sync_envelope \<Rightarrow> string + unit" where
  "NoopSyncGateway_upsert envelope = SyncEnvelope_validate envelope"

text \<open>
  The request gates share one contract: a handler that runs \<open>validate\<close> first lets through exactly
  the values \<open>validate\<close> accepts, and repeats its error otherwise.
\<close>

locale gated_handler =
  fixes validate :: "'r \<Rightarrow> string + unit"
    and handle :: "'r \<Rightarrow> string + 'a"
  assumes rejects: "validate r = Inl e \<Longrightarrow> handle r = Inl e"
    and accepts: "validate r = Inr () \<Longrightarrow> \<exists>a. handle r = Inr a"
begin

lemma handled_iff_valid: "(\<exists>a. handle r = Inr a) \<longleftrightarrow> validate r = Inr ()"
proof (cases "validate r")
  case (Inl e)
  with rejects show ?thesis by auto
next
  case (Inr u)
  with accepts show ?thesis by auto
qed

lemma handler_error: "handle r = Inl e \<longleftrightarrow> validate r = Inl e"
proof (cases "validate r")
  case (Inl e')
  with rejects show ?thesis by auto
next
  case (Inr u)
  with accepts [of r] show ?thesis by auto
qed

end

interpretation orchestrator: gated_handler OrchestrationRequest_validate ValidationOnly_submit
  by unfold_locales (auto simp: ValidationOnly_submit_def)

interpretation sync_gateway: gated_handler SyncEnvelope_validate NoopSyncGateway_upsert
  by unfold_locales (auto simp: NoopSyncGateway_upsert_def)

text \<open>
  The orchestrator accepts a request exactly when it has a step and no step is blank, and it
  never answers \<open>Rejected\<close>.
\<close>

theorem orchestrator_accepts_exact:
  "ValidationOnly_submit r =
     (if orch_steps r \<noteq> [] \<and> list_all (\<lambda>s. \<not> blank s) (orch_steps r) then Ok Accepted
      else Err (if orch_steps r = [] then ''orchestration requires at least one step''
                else ''orchestration steps must be non-empty''))"
  by (auto simp: ValidationOnly_submit_def OrchestrationRequest_validate_def list_ex_iff list_all_iff)

end
