(* ===== verification/Json.thy ===== *)
theory Json
  imports Prelude
begin

text \<open>
  UUIDs, timestamps and JSON values, and what serde's derived implementations do with the
  structs of the sources: a struct is an object with one member per field, \<open>None\<close> is \<open>null\<close>, a
  unit variant is its \<open>snake_case\<close> name.  Reading is more liberal than writing: a struct is also
  read from an array of its fields in order, a missing member is \<open>None\<close> for an optional field, a
  unit variant is also read from an object with the single member \<open>name: null\<close>, and unknown
  members are ignored.
\<close>

section \<open>UUIDs, timestamps, JSON\<close>

type_synonym uuid = "128 word"
type_synonym timestamp = int

text \<open>\<open>chrono::Duration\<close>s, in microseconds.\<close>

definition duration_milliseconds :: "int \<Rightarrow> int" where "duration_milliseconds n = n * 1000"
definition duration_seconds :: "int \<Rightarrow> int" where "duration_seconds n = n * 1000000"
definition duration_hours :: "int \<Rightarrow> int" where "duration_hours n = n * 3600000000"
definition duration_days :: "int \<Rightarrow> int" where "duration_days n = n * 86400000000"

text \<open>
  \<open>serde_json::Value\<close>.  A number is an integer or not; the text of a number that is not an integer
  is kept, since the sources never look into it.
\<close>

datatype json =
    JNull
  | JBool bool
  | JInt int
  | JFloat string
  | JStr string
  | JArr "json list"
  | JObj "(string \<times> json) list"

fun json_get :: "json \<Rightarrow> string \<Rightarrow> json option" where
  "json_get (JObj members) key = map_of members key"
| "json_get _ key = None"

fun as_str :: "json \<Rightarrow> string option" where
  "as_str (JStr s) = Some s"
| "as_str _ = None"

fun as_u64 :: "json \<Rightarrow> int option" where
  "as_u64 (JInt i) = (if in_u64 i then Some i else None)"
| "as_u64 _ = None"

text \<open>
  The text forms of a UUID and of a timestamp, and the text of a serde error, belong to the
  crates \<open>uuid\<close>, \<open>chrono\<close> and \<open>serde_json\<close>: they are a parameter of the model.  \<open>leaf_ok\<close> is the
  documented round trip of the first two.
\<close>

record leaf =
  uuid_str :: "uuid \<Rightarrow> string"
  uuid_parse :: "string \<Rightarrow> string + uuid"
  uuid_de :: "json \<Rightarrow> uuid option"
  time_str :: "timestamp \<Rightarrow> string"
  time_de :: "json \<Rightarrow> timestamp option"
  serde_err :: "json \<Rightarrow> string"

definition leaf_ok :: "leaf \<Rightarrow> bool" where
  "leaf_ok L \<longleftrightarrow>
     (\<forall>u. uuid_parse L (uuid_str L u) = Inr u)
     \<and> (\<forall>u. uuid_de L (JStr (uuid_str L u)) = Some u)
     \<and> (\<forall>t. time_de L (JStr (time_str L t)) = Some t)"

lemma leaf_uuid_parse: "leaf_ok L \<Longrightarrow> uuid_parse L (uuid_str L u) = Inr u"
  and leaf_uuid_de: "leaf_ok L \<Longrightarrow> uuid_de L (JStr (uuid_str L u)) = Some u"
  and leaf_time_de: "leaf_ok L \<Longrightarrow> time_de L (JStr (time_str L t)) = Some t"
  by (simp_all add: leaf_ok_def)

lemma leaf_uuid_inj: "leaf_ok L \<Longrightarrow> uuid_str L u = uuid_str L v \<longleftrightarrow> u = v"
  by (metis leaf_uuid_parse sum.inject(2))

section \<open>Derived serialization\<close>

definition ser_uuid :: "leaf \<Rightarrow> uuid \<Rightarrow> json" where
  "ser_uuid L u = JStr (uuid_str L u)"

definition ser_time :: "leaf \<Rightarrow> timestamp \<Rightarrow> json" where
  "ser_time L t = JStr (time_str L t)"

fun ser_option :: "('a \<Rightarrow> json) \<Rightarrow> 'a option \<Rightarrow> json" where
  "ser_option f None = JNull"
| "ser_option f (Some a) = f a"

text \<open>The fields of a struct, from an object or from an array.\<close>

fun de_fields :: "string list \<Rightarrow> json \<Rightarrow> json option list option" where
  "de_fields names (JObj members) = Some (map (map_of members) names)"
| "de_fields names (JArr vs) = (if length vs = length names then Some (map Some vs) else None)"
| "de_fields names _ = None"

fun de_required :: "(json \<Rightarrow> 'a option) \<Rightarrow> json option \<Rightarrow> 'a option" where
  "de_required f None = None"
| "de_required f (Some v) = f v"

fun de_optional :: "(json \<Rightarrow> 'a option) \<Rightarrow> json option \<Rightarrow> 'a option option" where
  "de_optional f None = Some None"
| "de_optional f (Some v) = (if v = JNull then Some None else map_option Some (f v))"

fun de_string :: "json \<Rightarrow> string option" where
  "de_string (JStr s) = Some s"
| "de_string _ = None"

fun de_bool :: "json \<Rightarrow> bool option" where
  "de_bool (JBool b) = Some b"
| "de_bool _ = None"

fun de_i64 :: "json \<Rightarrow> int option" where
  "de_i64 (JInt i) = (if in_i64 i then Some i else None)"
| "de_i64 _ = None"

fun de_variant :: "(string \<Rightarrow> 'a option) \<Rightarrow> json \<Rightarrow> 'a option" where
  "de_variant parse (JStr s) = parse s"
| "de_variant parse (JObj [(k, JNull)]) = parse k"
| "de_variant parse _ = None"

lemma de_optional_ser_option:
  assumes "f (g a) = Some a" "g a \<noteq> JNull"
  shows "de_optional f (Some (ser_option g (Some a))) = Some (Some a)"
  using assms by simp

lemma de_optional_ser_string:
  "de_optional de_string (Some (ser_option JStr x)) = Some x"
  by (cases x) auto

lemma de_optional_ser_uuid:
  "leaf_ok L \<Longrightarrow> de_optional (uuid_de L) (Some (ser_option (ser_uuid L) x)) = Some x"
  by (cases x) (auto simp: ser_uuid_def leaf_uuid_de)

lemma de_optional_ser_time:
  "leaf_ok L \<Longrightarrow> de_optional (time_de L) (Some (ser_option (ser_time L) x)) = Some x"
  by (cases x) (auto simp: ser_time_def leaf_time_de)

lemmas serde_simps = de_optional_ser_string de_optional_ser_uuid de_optional_ser_time
  ser_uuid_def ser_time_def leaf_uuid_de leaf_time_de

section \<open>An instance of the parameter\<close>

text \<open>
  A UUID written as its 128 bits and a timestamp in decimal: a parameter that satisfies
  \<open>leaf_ok\<close>, on which the theorems are applied to concrete runs.
\<close>

definition read_nat :: "string \<Rightarrow> nat" where
  "read_nat s = foldl (\<lambda>n c. 10 * n + (byte c - 48)) 0 s"

lemma byte_char_of [simp]: "n < 256 \<Longrightarrow> byte (char_of n) = n"
  by (simp add: byte_def)

lemma read_show_nat: "read_nat (show_nat n) = n"
proof (induction n rule: show_nat.induct)
  case (1 n)
  then show ?case
    by (subst show_nat.simps) (auto simp: read_nat_def)
qed

lemma show_nat_not_Nil [simp]: "show_nat n \<noteq> []"
  by (subst show_nat.simps) simp

lemma show_nat_no_sign: "s = CHR 0x2D # t \<Longrightarrow> show_nat n \<noteq> s"
proof (induction n arbitrary: s t rule: show_nat.induct)
  case (1 n)
  have "CHR 0x2D \<noteq> char_of (48 + n)" if "n < 10"
  proof
    assume "CHR 0x2D = char_of (48 + n)"
    then have "byte (CHR 0x2D) = 48 + n" using that by simp
    then show False by (simp add: byte_def)
  qed
  then show ?case
    using 1 by (subst show_nat.simps) (auto simp: append_eq_Cons_conv)
qed

definition uuid_bits :: "uuid \<Rightarrow> string" where
  "uuid_bits u = map (\<lambda>n. if bit u n then CHR 0x31 else CHR 0x30) [0..<128]"

definition bits_uuid :: "string \<Rightarrow> string + uuid" where
  "bits_uuid s =
     (if length s = 128 \<and> list_all (\<lambda>c. c = CHR 0x30 \<or> c = CHR 0x31) s
      then Ok (horner_sum of_bool 2 (map (\<lambda>c. c = CHR 0x31) s))
      else Err ''invalid uuid'')"

fun decimal_time :: "string \<Rightarrow> timestamp" where
  "decimal_time (c # s) = (if c = CHR 0x2D then - int (read_nat s) else int (read_nat (c # s)))"
| "decimal_time [] = 0"

definition bits_leaf :: leaf where
  "bits_leaf =
     \<lparr>uuid_str = uuid_bits, uuid_parse = bits_uuid,
      uuid_de = (\<lambda>j. case as_str j of None \<Rightarrow> None
                     | Some s \<Rightarrow> (case bits_uuid s of Inl e \<Rightarrow> None | Inr u \<Rightarrow> Some u)),
      time_str = show_int, time_de = (\<lambda>j. map_option decimal_time (as_str j)),
      serde_err = (\<lambda>j. ''invalid value'')\<rparr>"

lemma bits_uuid_bits: "bits_uuid (uuid_bits u) = Inr u"
proof -
  have "map (\<lambda>c. c = CHR 0x31) (uuid_bits u) = map (bit u) [0..<128]"
    by (simp add: uuid_bits_def)
  then show ?thesis
    using take_bit_length_eq [of u]
    by (simp add: bits_uuid_def horner_sum_bit_eq_take_bit)
       (auto simp: uuid_bits_def list_all_iff)
qed

lemma decimal_time_show: "decimal_time (show_int t) = t"
proof (cases "t < 0")
  case True
  then show ?thesis by (simp add: show_int_def read_show_nat)
next
  case False
  obtain c s where cs: "show_nat (nat t) = c # s"
    by (cases "show_nat (nat t)") auto
  then have "c \<noteq> CHR 0x2D" using show_nat_no_sign [of _ s "nat t"] by auto
  with cs False show ?thesis
    using read_show_nat [of "nat t"] by (simp add: show_int_def)
qed

lemma bits_leaf_ok: "leaf_ok bits_leaf"
  by (simp add: leaf_ok_def bits_leaf_def bits_uuid_bits decimal_time_show)

end
