(* ===== verification/Domain.thy ===== *)
theory Domain
  imports Json
begin

text \<open>
  The crate \<open>dandori-domain\<close>: identifiers, the error taxonomy, idempotency keys, the tenant
  context, commands with their validation, events and the aggregates.  An identifier newtype
  (\<open>WorkspaceId(Uuid)\<close>, \<open>IssueId(Uuid)\<close>, ...) is transparent over \<open>Uuid\<close>, 128 bits; a
  \<open>DateTime<Utc>\<close> is the number of microseconds since the epoch, the resolution the store keeps.
\<close>

section \<open>Identifiers\<close>

type_synonym workspace_id = uuid
type_synonym project_id = uuid
type_synonym milestone_id = uuid
type_synonym issue_id = uuid
type_synonym activity_id = uuid
type_synonym outbox_id = uuid
type_synonym command_id = uuid

section \<open>Errors\<close>

text \<open>Each variant carries the \<open>code\<close> and the \<open>message\<close> of its error struct.\<close>

datatype domain_error =
    Validation string string
  | Precondition string string
  | Conflict string string
  | Authz string string
  | TenantBoundary string string
  | Infrastructure string string

definition validation :: "string \<Rightarrow> string \<Rightarrow> domain_error" where
  "validation code message = Validation code message"

definition authz :: "string \<Rightarrow> string \<Rightarrow> domain_error" where
  "authz code message = Authz code message"

definition infrastructure :: "string \<Rightarrow> string \<Rightarrow> domain_error" where
  "infrastructure code message = Infrastructure code message"

fun error_code :: "domain_error \<Rightarrow> string" where
  "error_code (Validation c m) = c"
| "error_code (Precondition c m) = c"
| "error_code (Conflict c m) = c"
| "error_code (Authz c m) = c"
| "error_code (TenantBoundary c m) = c"
| "error_code (Infrastructure c m) = c"

text \<open>The \<open>Display\<close> of an error, from the \<open>#[error(...)]\<close> attributes.\<close>

fun domain_error_display :: "domain_error \<Rightarrow> string" where
  "domain_error_display (Validation c m) = ''validation error ('' @ c @ ''): '' @ m"
| "domain_error_display (Precondition c m) = ''precondition failed ('' @ c @ ''): '' @ m"
| "domain_error_display (Conflict c m) = ''conflict ('' @ c @ ''): '' @ m"
| "domain_error_display (Authz c m) = ''authorization denied ('' @ c @ ''): '' @ m"
| "domain_error_display (TenantBoundary c m) = ''tenant boundary violation ('' @ c @ ''): '' @ m"
| "domain_error_display (Infrastructure c m) = ''infrastructure failure ('' @ c @ ''): '' @ m"

section \<open>Wire enumerations\<close>

text \<open>
  A closed enumeration with a text form.  The contract every \<open>as_str\<close>/\<open>parse\<close> pair promises: what is
  printed is read back, and nothing else is read.
\<close>

locale wire_enum =
  fixes as_str :: "'a \<Rightarrow> string"
    and parse :: "string \<Rightarrow> 'a option"
  assumes parse_as_str: "parse (as_str x) = Some x"
    and parse_sound: "parse s = Some x \<Longrightarrow> s = as_str x"
begin

lemma as_str_inject: "as_str x = as_str y \<longleftrightarrow> x = y"
  by (metis parse_as_str option.inject)

lemma parse_Some_iff: "parse s = Some x \<longleftrightarrow> s = as_str x"
  using parse_as_str parse_sound by blast

lemma parse_None_iff: "parse s = None \<longleftrightarrow> s \<notin> range as_str"
  by (metis option.exhaust parse_Some_iff rangeE rangeI option.distinct(1))

end

datatype command_name = IssueCreateV1 | WorkspaceCreateV1 | ProjectCreateV1

fun command_name_as_str :: "command_name \<Rightarrow> string" where
  "command_name_as_str IssueCreateV1 = ''issue.create.v1''"
| "command_name_as_str WorkspaceCreateV1 = ''workspace.create.v1''"
| "command_name_as_str ProjectCreateV1 = ''project.create.v1''"

definition command_name_parse :: "string \<Rightarrow> command_name option" where
  "command_name_parse value =
     (if value = ''issue.create.v1'' then Some IssueCreateV1
      else if value = ''workspace.create.v1'' then Some WorkspaceCreateV1
      else if value = ''project.create.v1'' then Some ProjectCreateV1
      else None)"

datatype event_type = IssueCreatedV1 | ProjectCreatedV1 | WorkspaceCreatedV1

fun event_type_as_str :: "event_type \<Rightarrow> string" where
  "event_type_as_str IssueCreatedV1 = ''issue.created.v1''"
| "event_type_as_str ProjectCreatedV1 = ''project.created.v1''"
| "event_type_as_str WorkspaceCreatedV1 = ''workspace.created.v1''"

definition event_type_parse :: "string \<Rightarrow> event_type option" where
  "event_type_parse value =
     (if value = ''issue.created.v1'' then Some IssueCreatedV1
      else if value = ''project.created.v1'' then Some ProjectCreatedV1
      else if value = ''workspace.created.v1'' then Some WorkspaceCreatedV1
      else None)"

interpretation cmd_name: wire_enum command_name_as_str command_name_parse
proof unfold_locales
  show "command_name_parse (command_name_as_str x) = Some x" for x
    by (cases x) (simp_all add: command_name_parse_def)
  show "command_name_parse s = Some x \<Longrightarrow> s = command_name_as_str x" for s x
    by (auto simp: command_name_parse_def split: if_splits)
qed

interpretation ev_type: wire_enum event_type_as_str event_type_parse
proof unfold_locales
  show "event_type_parse (event_type_as_str x) = Some x" for x
    by (cases x) (simp_all add: event_type_parse_def)
  show "event_type_parse s = Some x \<Longrightarrow> s = event_type_as_str x" for s x
    by (auto simp: event_type_parse_def split: if_splits)
qed

section \<open>Idempotency keys\<close>

definition MIN_LEN :: nat where "MIN_LEN = 1"
definition MAX_LEN :: nat where "MAX_LEN = 128"

definition is_ascii_graphic :: "char \<Rightarrow> bool" where
  "is_ascii_graphic c \<longleftrightarrow> 33 \<le> byte c \<and> byte c \<le> 126"

definition key_char :: "char \<Rightarrow> bool" where
  "key_char c \<longleftrightarrow> is_ascii_graphic c \<or> c = CHR 0x20 \<or> c = CHR 0x2D \<or> c = CHR 0x5F"

definition IdempotencyKey_validate :: "string \<Rightarrow> domain_error + unit" where
  "IdempotencyKey_validate value =
     (if length value < MIN_LEN \<or> MAX_LEN < length value then
        Err (validation ''idempotency_key_length''
          (''idempotency_key length must be between '' @ show_nat MIN_LEN @ '' and ''
           @ show_nat MAX_LEN @ '' bytes (got '' @ show_nat (length value) @ '')''))
      else if \<not> list_all key_char value then
        Err (validation ''idempotency_key_charset''
          ''idempotency_key must only contain printable ASCII (graphic, space, dash, underscore)'')
      else Ok ())"

text \<open>The constructor, and the deserializer that routes through it.\<close>

definition IdempotencyKey_new :: "string \<Rightarrow> domain_error + string" where
  "IdempotencyKey_new raw = and_then (IdempotencyKey_validate raw) (\<lambda>_. Ok raw)"

definition IdempotencyKey_deserialize :: "string \<Rightarrow> string + string" where
  "IdempotencyKey_deserialize raw = map_err domain_error_display (IdempotencyKey_new raw)"

lemma IdempotencyKey_new_Ok:
  "IdempotencyKey_new raw = Inr k \<longleftrightarrow>
     k = raw \<and> 1 \<le> length raw \<and> length raw \<le> 128 \<and> list_all key_char raw"
  by (auto simp: IdempotencyKey_new_def IdempotencyKey_validate_def MIN_LEN_def MAX_LEN_def
      result_simps Suc_le_eq)

lemma key_char_ascii: "key_char c \<Longrightarrow> 32 \<le> byte c \<and> byte c \<le> 126"
  by (auto simp: key_char_def is_ascii_graphic_def byte_def)

section \<open>Tenant context\<close>

record auth_context =
  auth_workspace_id :: workspace_id
  auth_actor_id :: uuid

definition enforce_workspace :: "auth_context \<Rightarrow> workspace_id \<Rightarrow> domain_error + unit" where
  "enforce_workspace self workspace_id =
     (if auth_workspace_id self \<noteq> workspace_id then
        Err (Precondition ''workspace_mismatch''
          ''workspace in command does not match authenticated workspace'')
      else Ok ())"

section \<open>Aggregates\<close>

datatype issue_state_category = Open | Active | Done | Cancelled
datatype issue_priority = Low | Medium | High | Urgent

record workflow_version_ref =
  wfr_workflow_version_id :: uuid
  wfr_name :: string
  wfr_version :: int
  wfr_checksum :: string

record workspace =
  ws_id :: workspace_id
  ws_name :: string
  ws_row_version :: int
  ws_created_at :: timestamp
  ws_updated_at :: timestamp

record project =
  prj_id :: project_id
  prj_workspace_id :: workspace_id
  prj_name :: string
  prj_workflow_version_id :: uuid
  prj_row_version :: int
  prj_created_at :: timestamp
  prj_updated_at :: timestamp

record milestone =
  ms_id :: milestone_id
  ms_workspace_id :: workspace_id
  ms_project_id :: project_id
  ms_title :: string
  ms_due_at :: "timestamp option"
  ms_row_version :: int
  ms_created_at :: timestamp
  ms_updated_at :: timestamp

record issue =
  iss_id :: issue_id
  iss_workspace_id :: workspace_id
  iss_project_id :: project_id
  iss_milestone_id :: "milestone_id option"
  iss_title :: string
  iss_description :: "string option"
  iss_state_category :: issue_state_category
  iss_priority :: issue_priority
  iss_archived_at :: "timestamp option"
  iss_row_version :: int
  iss_created_at :: timestamp
  iss_updated_at :: timestamp

section \<open>Serialization\<close>

text \<open>\<open>#[serde(rename_all = "snake_case")]\<close> on the two enumerations of an issue.\<close>

fun issue_state_category_ser :: "issue_state_category \<Rightarrow> string" where
  "issue_state_category_ser Open = ''open''"
| "issue_state_category_ser Active = ''active''"
| "issue_state_category_ser Done = ''done''"
| "issue_state_category_ser Cancelled = ''cancelled''"

definition issue_state_category_de :: "string \<Rightarrow> issue_state_category option" where
  "issue_state_category_de s =
     (if s = ''open'' then Some Open else if s = ''active'' then Some Active
      else if s = ''done'' then Some Done else if s = ''cancelled'' then Some Cancelled else None)"

fun issue_priority_ser :: "issue_priority \<Rightarrow> string" where
  "issue_priority_ser Low = ''low''"
| "issue_priority_ser Medium = ''medium''"
| "issue_priority_ser High = ''high''"
| "issue_priority_ser Urgent = ''urgent''"

definition issue_priority_de :: "string \<Rightarrow> issue_priority option" where
  "issue_priority_de s =
     (if s = ''low'' then Some Low else if s = ''medium'' then Some Medium
      else if s = ''high'' then Some High else if s = ''urgent'' then Some Urgent else None)"

interpretation state_text: wire_enum issue_state_category_ser issue_state_category_de
proof unfold_locales
  show "issue_state_category_de (issue_state_category_ser x) = Some x" for x
    by (cases x) (simp_all add: issue_state_category_de_def)
  show "issue_state_category_de s = Some x \<Longrightarrow> s = issue_state_category_ser x" for s x
    by (auto simp: issue_state_category_de_def split: if_splits)
qed

interpretation priority_text: wire_enum issue_priority_ser issue_priority_de
proof unfold_locales
  show "issue_priority_de (issue_priority_ser x) = Some x" for x
    by (cases x) (simp_all add: issue_priority_de_def)
  show "issue_priority_de s = Some x \<Longrightarrow> s = issue_priority_ser x" for s x
    by (auto simp: issue_priority_de_def split: if_splits)
qed

definition issue_fields :: "string list" where
  "issue_fields =
     [''id'', ''workspace_id'', ''project_id'', ''milestone_id'', ''title'', ''description'',
      ''state_category'', ''priority'', ''archived_at'', ''row_version'', ''created_at'',
      ''updated_at'']"

definition issue_ser :: "leaf \<Rightarrow> issue \<Rightarrow> json" where
  "issue_ser L i = JObj
     [(''id'', ser_uuid L (iss_id i)),
      (''workspace_id'', ser_uuid L (iss_workspace_id i)),
      (''project_id'', ser_uuid L (iss_project_id i)),
      (''milestone_id'', ser_option (ser_uuid L) (iss_milestone_id i)),
      (''title'', JStr (iss_title i)),
      (''description'', ser_option JStr (iss_description i)),
      (''state_category'', JStr (issue_state_category_ser (iss_state_category i))),
      (''priority'', JStr (issue_priority_ser (iss_priority i))),
      (''archived_at'', ser_option (ser_time L) (iss_archived_at i)),
      (''row_version'', JInt (iss_row_version i)),
      (''created_at'', ser_time L (iss_created_at i)),
      (''updated_at'', ser_time L (iss_updated_at i))]"

definition issue_de :: "leaf \<Rightarrow> json \<Rightarrow> issue option" where
  "issue_de L j =
     (case de_fields issue_fields j of
        Some [v1, v2, v3, v4, v5, v6, v7, v8, v9, v10, v11, v12] \<Rightarrow>
          Option.bind (de_required (uuid_de L) v1) (\<lambda>x1.
          Option.bind (de_required (uuid_de L) v2) (\<lambda>x2.
          Option.bind (de_required (uuid_de L) v3) (\<lambda>x3.
          Option.bind (de_optional (uuid_de L) v4) (\<lambda>x4.
          Option.bind (de_required de_string v5) (\<lambda>x5.
          Option.bind (de_optional de_string v6) (\<lambda>x6.
          Option.bind (de_required (de_variant issue_state_category_de) v7) (\<lambda>x7.
          Option.bind (de_required (de_variant issue_priority_de) v8) (\<lambda>x8.
          Option.bind (de_optional (time_de L) v9) (\<lambda>x9.
          Option.bind (de_required de_i64 v10) (\<lambda>x10.
          Option.bind (de_required (time_de L) v11) (\<lambda>x11.
          Option.bind (de_required (time_de L) v12) (\<lambda>x12.
          Some \<lparr>iss_id = x1, iss_workspace_id = x2, iss_project_id = x3, iss_milestone_id = x4,
                iss_title = x5, iss_description = x6, iss_state_category = x7, iss_priority = x8,
                iss_archived_at = x9, iss_row_version = x10, iss_created_at = x11,
                iss_updated_at = x12\<rparr>))))))))))))
      | _ \<Rightarrow> None)"

lemma issue_de_ser:
  assumes "leaf_ok L" "in_i64 (iss_row_version i)"
  shows "issue_de L (issue_ser L i) = Some i"
  using assms
  by (simp add: issue_de_def issue_ser_def issue_fields_def serde_simps
      state_text.parse_as_str priority_text.parse_as_str del: de_optional.simps)

end
