(* ===== verification/Commands.thy ===== *)
theory Commands
  imports Domain
begin

text \<open>
  The commands of \<open>dandori-domain/src/command.rs\<close> with their validation, and the events of
  \<open>event.rs\<close>.  The \<open>row_text\<close> predicates are the \<open>CHECK\<close> constraints of the schema; the lemmas
  show that a command that passes validation satisfies them.
\<close>

section \<open>Commands\<close>

definition MAX_NAME_LENGTH :: nat where "MAX_NAME_LENGTH = 200"
definition MAX_IDEMPOTENCY_KEY_LENGTH :: nat where "MAX_IDEMPOTENCY_KEY_LENGTH = 128"
definition MAX_REQUEST_FINGERPRINT_LENGTH :: nat where "MAX_REQUEST_FINGERPRINT_LENGTH = 128"
definition MAX_ISSUE_DESCRIPTION_LENGTH :: nat where "MAX_ISSUE_DESCRIPTION_LENGTH = 4000"

lemmas max_lengths = MAX_NAME_LENGTH_def MAX_IDEMPOTENCY_KEY_LENGTH_def
  MAX_REQUEST_FINGERPRINT_LENGTH_def MAX_ISSUE_DESCRIPTION_LENGTH_def

record create_workspace_command =
  cw_command_id :: command_id
  cw_workspace_id :: workspace_id
  cw_name :: string
  cw_actor_id :: uuid

definition CreateWorkspace_validate :: "create_workspace_command \<Rightarrow> domain_error + unit" where
  "CreateWorkspace_validate self =
     (if blank (cw_name self) then
        Err (Validation ''workspace_name_required'' ''workspace name must not be empty'')
      else if MAX_NAME_LENGTH < length (cw_name self) then
        Err (Validation ''workspace_name_too_long'' ''workspace name exceeds 200 characters'')
      else Ok ())"

record create_project_command =
  cp_command_id :: command_id
  cp_workspace_id :: workspace_id
  cp_project_id :: project_id
  cp_workflow_version_id :: uuid
  cp_name :: string
  cp_actor_id :: uuid

definition CreateProject_validate :: "create_project_command \<Rightarrow> domain_error + unit" where
  "CreateProject_validate self =
     (if blank (cp_name self) then
        Err (Validation ''project_name_required'' ''project name must not be empty'')
      else if MAX_NAME_LENGTH < length (cp_name self) then
        Err (Validation ''project_name_too_long'' ''project name exceeds 200 characters'')
      else Ok ())"

record create_issue_command =
  ci_command_id :: command_id
  ci_idempotency_key :: string
  ci_request_fingerprint :: string
  ci_issue_id :: issue_id
  ci_workspace_id :: workspace_id
  ci_project_id :: project_id
  ci_milestone_id :: "milestone_id option"
  ci_title :: string
  ci_description :: "string option"
  ci_priority :: issue_priority
  ci_actor_id :: uuid

definition CreateIssue_validate :: "create_issue_command \<Rightarrow> domain_error + unit" where
  "CreateIssue_validate self =
     (if blank (ci_title self) then
        Err (Validation ''title_required'' ''issue title must not be empty'')
      else if MAX_NAME_LENGTH < length (ci_title self) then
        Err (Validation ''title_too_long'' ''issue title exceeds 200 characters'')
      else if blank (ci_idempotency_key self) then
        Err (Validation ''idempotency_key_required'' ''idempotency key must not be empty'')
      else if MAX_IDEMPOTENCY_KEY_LENGTH < length (ci_idempotency_key self) then
        Err (Validation ''idempotency_key_too_long'' ''idempotency key exceeds 128 characters'')
      else if blank (ci_request_fingerprint self) then
        Err (Validation ''request_fingerprint_required'' ''request fingerprint must not be empty'')
      else if MAX_REQUEST_FINGERPRINT_LENGTH < length (ci_request_fingerprint self) then
        Err (Validation ''request_fingerprint_too_long''
          ''request fingerprint exceeds 128 characters'')
      else if (case ci_description self of
                 None \<Rightarrow> False
               | Some description \<Rightarrow> MAX_ISSUE_DESCRIPTION_LENGTH < length description) then
        Err (Validation ''description_too_long'' ''issue description exceeds 4000 characters'')
      else Ok ())"

definition map_duplicate_conflict :: "create_issue_command \<Rightarrow> domain_error" where
  "map_duplicate_conflict self =
     Conflict ''duplicate_issue_command''
       (''issue command with idempotency key '' @ quoted (ci_idempotency_key self)
        @ '' already exists with a different payload'')"

definition map_missing_project_precondition :: "leaf \<Rightarrow> create_issue_command \<Rightarrow> domain_error" where
  "map_missing_project_precondition L self =
     Precondition ''project_not_found''
       (''project '' @ quoted (uuid_str L (ci_project_id self)) @ '' not found in workspace'')"

text \<open>The versioned command enumerations and the name each variant is stored under.\<close>

datatype issue_command = CreateIssue create_issue_command
datatype workspace_command = CreateWorkspace create_workspace_command
datatype project_command = CreateProject create_project_command

fun IssueCommand_name :: "issue_command \<Rightarrow> command_name" where
  "IssueCommand_name (CreateIssue c) = IssueCreateV1"

fun WorkspaceCommand_name :: "workspace_command \<Rightarrow> command_name" where
  "WorkspaceCommand_name (CreateWorkspace c) = WorkspaceCreateV1"

fun ProjectCommand_name :: "project_command \<Rightarrow> command_name" where
  "ProjectCommand_name (CreateProject c) = ProjectCreateV1"

definition IssueCommand_command_name :: "issue_command \<Rightarrow> string" where
  "IssueCommand_command_name c = command_name_as_str (IssueCommand_name c)"

definition WorkspaceCommand_command_name :: "workspace_command \<Rightarrow> string" where
  "WorkspaceCommand_command_name c = command_name_as_str (WorkspaceCommand_name c)"

definition ProjectCommand_command_name :: "project_command \<Rightarrow> string" where
  "ProjectCommand_command_name c = command_name_as_str (ProjectCommand_name c)"

section \<open>Events\<close>

record workspace_created_event =
  wce_event_id :: uuid
  wce_workspace_id :: workspace_id
  wce_actor_id :: uuid
  wce_occurred_at :: timestamp
  wce_name :: string

record project_created_event =
  pce_event_id :: uuid
  pce_workspace_id :: workspace_id
  pce_project_id :: project_id
  pce_workflow_version_id :: uuid
  pce_actor_id :: uuid
  pce_occurred_at :: timestamp
  pce_name :: string

record issue_created_event =
  ice_event_id :: uuid
  ice_issue_id :: issue_id
  ice_workspace_id :: workspace_id
  ice_project_id :: project_id
  ice_milestone_id :: "milestone_id option"
  ice_actor_id :: uuid
  ice_occurred_at :: timestamp
  ice_title :: string
  ice_description :: "string option"
  ice_priority :: issue_priority

datatype issue_event = IssueCreated issue_created_event
datatype workspace_event = WorkspaceCreated workspace_created_event
datatype project_event = ProjectCreated project_created_event

fun IssueEvent_event_type :: "issue_event \<Rightarrow> event_type" where
  "IssueEvent_event_type (IssueCreated e) = IssueCreatedV1"

fun WorkspaceEvent_event_type :: "workspace_event \<Rightarrow> event_type" where
  "WorkspaceEvent_event_type (WorkspaceCreated e) = WorkspaceCreatedV1"

fun ProjectEvent_event_type :: "project_event \<Rightarrow> event_type" where
  "ProjectEvent_event_type (ProjectCreated e) = ProjectCreatedV1"

text \<open>The stored payload of an issue event and its reading by the worker.\<close>

definition issue_created_fields :: "string list" where
  "issue_created_fields =
     [''event_id'', ''issue_id'', ''workspace_id'', ''project_id'', ''milestone_id'', ''actor_id'',
      ''occurred_at'', ''title'', ''description'', ''priority'']"

definition issue_created_ser :: "leaf \<Rightarrow> issue_created_event \<Rightarrow> json" where
  "issue_created_ser L e = JObj
     [(''event_id'', ser_uuid L (ice_event_id e)),
      (''issue_id'', ser_uuid L (ice_issue_id e)),
      (''workspace_id'', ser_uuid L (ice_workspace_id e)),
      (''project_id'', ser_uuid L (ice_project_id e)),
      (''milestone_id'', ser_option (ser_uuid L) (ice_milestone_id e)),
      (''actor_id'', ser_uuid L (ice_actor_id e)),
      (''occurred_at'', ser_time L (ice_occurred_at e)),
      (''title'', JStr (ice_title e)),
      (''description'', ser_option JStr (ice_description e)),
      (''priority'', JStr (issue_priority_ser (ice_priority e)))]"

definition issue_created_de :: "leaf \<Rightarrow> json \<Rightarrow> issue_created_event option" where
  "issue_created_de L j =
     (case de_fields issue_created_fields j of
        Some [v1, v2, v3, v4, v5, v6, v7, v8, v9, v10] \<Rightarrow>
          Option.bind (de_required (uuid_de L) v1) (\<lambda>x1.
          Option.bind (de_required (uuid_de L) v2) (\<lambda>x2.
          Option.bind (de_required (uuid_de L) v3) (\<lambda>x3.
          Option.bind (de_required (uuid_de L) v4) (\<lambda>x4.
          Option.bind (de_optional (uuid_de L) v5) (\<lambda>x5.
          Option.bind (de_required (uuid_de L) v6) (\<lambda>x6.
          Option.bind (de_required (time_de L) v7) (\<lambda>x7.
          Option.bind (de_required de_string v8) (\<lambda>x8.
          Option.bind (de_optional de_string v9) (\<lambda>x9.
          Option.bind (de_required (de_variant issue_priority_de) v10) (\<lambda>x10.
          Some \<lparr>ice_event_id = x1, ice_issue_id = x2, ice_workspace_id = x3, ice_project_id = x4,
                ice_milestone_id = x5, ice_actor_id = x6, ice_occurred_at = x7, ice_title = x8,
                ice_description = x9, ice_priority = x10\<rparr>))))))))))
      | _ \<Rightarrow> None)"

lemma issue_created_de_ser:
  assumes "leaf_ok L"
  shows "issue_created_de L (issue_created_ser L e) = Some e"
  using assms
  by (simp add: issue_created_de_def issue_created_ser_def issue_created_fields_def serde_simps
      priority_text.parse_as_str del: de_optional.simps)

lemma issue_created_no_schema_version:
  "json_get (issue_created_ser L e) ''schema_version'' = None"
  by (simp add: issue_created_ser_def)

section \<open>Validation and the schema\<close>

text \<open>
  A column of type \<open>text\<close> with \<open>CHECK (char_length(t) BETWEEN lo AND hi)\<close>, or with an upper bound
  only.  PostgreSQL stores no NUL character in a text.
\<close>

definition storable :: "string \<Rightarrow> bool" where
  "storable s \<longleftrightarrow> list_all (\<lambda>c. c \<noteq> CHR 0x00) s"

lemma storable_simps [simp]: "storable []" "storable (c # s) \<longleftrightarrow> c \<noteq> CHR 0x00 \<and> storable s"
  by (simp_all add: storable_def)

definition text_between :: "nat \<Rightarrow> nat \<Rightarrow> string \<Rightarrow> bool" where
  "text_between lo hi s \<longleftrightarrow> storable s \<and> lo \<le> char_length s \<and> char_length s \<le> hi"

definition text_at_most :: "nat \<Rightarrow> string \<Rightarrow> bool" where
  "text_at_most hi s \<longleftrightarrow> storable s \<and> char_length s \<le> hi"

lemma text_betweenI:
  "valid_utf8 s \<Longrightarrow> storable s \<Longrightarrow> s \<noteq> [] \<Longrightarrow> length s \<le> hi \<Longrightarrow> lo \<le> 1 \<Longrightarrow> text_between lo hi s"
  using char_length_le [of s] char_length_pos [of s] by (simp add: text_between_def)

lemma CreateIssue_validate_Ok:
  "CreateIssue_validate c = Inr () \<longleftrightarrow>
     \<not> blank (ci_title c) \<and> length (ci_title c) \<le> 200
     \<and> \<not> blank (ci_idempotency_key c) \<and> length (ci_idempotency_key c) \<le> 128
     \<and> \<not> blank (ci_request_fingerprint c) \<and> length (ci_request_fingerprint c) \<le> 128
     \<and> (\<forall>d. ci_description c = Some d \<longrightarrow> length d \<le> 4000)"
  by (auto simp: CreateIssue_validate_def max_lengths split: option.splits)

lemma CreateIssue_validate_code:
  assumes "CreateIssue_validate c = Inl e"
  shows "\<exists>code m. e = Validation code m"
  using assms by (auto simp: CreateIssue_validate_def split: if_splits)

text \<open>The texts of a command are Rust strings, here without NUL characters.\<close>

definition command_texts_utf8 :: "create_issue_command \<Rightarrow> bool" where
  "command_texts_utf8 c \<longleftrightarrow>
     valid_utf8 (ci_title c) \<and> storable (ci_title c)
     \<and> valid_utf8 (ci_idempotency_key c) \<and> storable (ci_idempotency_key c)
     \<and> valid_utf8 (ci_request_fingerprint c) \<and> storable (ci_request_fingerprint c)
     \<and> (\<forall>d. ci_description c = Some d \<longrightarrow> storable d)"

definition command_row_checks :: "create_issue_command \<Rightarrow> bool" where
  "command_row_checks c \<longleftrightarrow>
     text_between 1 200 (ci_title c)
     \<and> (\<forall>d. ci_description c = Some d \<longrightarrow> text_at_most 4000 d)
     \<and> text_between 1 128 (ci_idempotency_key c)
     \<and> text_between 1 128 (ci_request_fingerprint c)"

lemma validated_command_row_checks:
  assumes "CreateIssue_validate c = Inr ()" "command_texts_utf8 c"
  shows "command_row_checks c"
proof -
  have "text_at_most 4000 d" if "ci_description c = Some d" for d
    using assms that char_length_le [of d]
    by (auto simp: CreateIssue_validate_Ok command_texts_utf8_def text_at_most_def)
  then show ?thesis
    using assms unfolding command_row_checks_def command_texts_utf8_def CreateIssue_validate_Ok
    by (auto intro!: text_betweenI dest: not_blank_nonempty)
qed

text \<open>
  The limits count bytes, the messages and the columns characters: a name of 101 accented letters is
  refused as longer than 200 characters.  And a NUL character passes the validation, not the column.
\<close>

lemma accented_name_refused:
  "CreateWorkspace_validate (c\<lparr>cw_name := concat (replicate 101 [CHR 0xC3, CHR 0xA9])\<rparr>)
     = Err (Validation ''workspace_name_too_long'' ''workspace name exceeds 200 characters'')"
  "text_between 1 200 (concat (replicate 101 [CHR 0xC3, CHR 0xA9]))"
proof -
  have "\<not> blank (concat (replicate 101 [CHR 0xC3, CHR 0xA9]))" by code_simp
  moreover have "length (concat (replicate 101 [CHR 0xC3, CHR 0xA9])) = 202" by code_simp
  ultimately show "CreateWorkspace_validate (c\<lparr>cw_name := concat (replicate 101 [CHR 0xC3, CHR 0xA9])\<rparr>)
     = Err (Validation ''workspace_name_too_long'' ''workspace name exceeds 200 characters'')"
    by (simp add: CreateWorkspace_validate_def max_lengths del: length_concat)
  show "text_between 1 200 (concat (replicate 101 [CHR 0xC3, CHR 0xA9]))" by code_simp
qed

lemma nul_title_validated:
  assumes "CreateIssue_validate c = Ok ()"
  shows "CreateIssue_validate (c\<lparr>ci_title := [CHR 0x61, CHR 0x00]\<rparr>) = Ok ()"
    "\<not> command_row_checks (c\<lparr>ci_title := [CHR 0x61, CHR 0x00]\<rparr>)"
proof -
  have "\<not> blank [CHR 0x61, CHR 0x00]" by code_simp
  then show "CreateIssue_validate (c\<lparr>ci_title := [CHR 0x61, CHR 0x00]\<rparr>) = Ok ()"
    using assms by (simp add: CreateIssue_validate_Ok)
  show "\<not> command_row_checks (c\<lparr>ci_title := [CHR 0x61, CHR 0x00]\<rparr>)"
    by (simp add: command_row_checks_def text_between_def)
qed

end
