(* ===== verification/Schema.thy ===== *)
theory Schema
  imports Commands
begin

text \<open>
  The database: the tables of \<open>migration_sql.rs\<close> with the rows of \<open>entities.rs\<close>, the
  constraints of the schema (primary keys, unique columns, foreign keys, \<open>CHECK\<close>s, column types)
  and the row level security policies.  An \<open>INSERT\<close> is the row appended after its constraints
  were checked, or the violation.  Row level security is in force for every session (the roles of
  the services are not \<open>BYPASSRLS\<close>, and the tables are \<open>FORCE ROW LEVEL SECURITY\<close>, see
  \<open>Row_Security\<close>); the
  constraint checks themselves are not subject to it.
\<close>

section \<open>Rows\<close>

record workspace_row =
  w_id :: uuid
  w_name :: string
  w_shard_bucket :: int
  w_row_version :: int
  w_created_at :: timestamp
  w_updated_at :: timestamp

record workflow_version_row =
  wv_id :: uuid
  wv_workspace_id :: uuid
  wv_name :: string
  wv_version :: int
  wv_checksum :: string
  wv_states :: json
  wv_transitions :: json
  wv_created_at :: timestamp

record project_row =
  p_id :: uuid
  p_workspace_id :: uuid
  p_name :: string
  p_workflow_version_id :: uuid
  p_row_version :: int
  p_created_at :: timestamp
  p_updated_at :: timestamp

record milestone_row =
  m_id :: uuid
  m_workspace_id :: uuid
  m_project_id :: uuid
  m_title :: string
  m_due_at :: "timestamp option"
  m_row_version :: int
  m_created_at :: timestamp
  m_updated_at :: timestamp

record issue_row =
  i_id :: uuid
  i_workspace_id :: uuid
  i_project_id :: uuid
  i_milestone_id :: "uuid option"
  i_title :: string
  i_description :: "string option"
  i_state_category :: string
  i_priority :: string
  i_archived_at :: "timestamp option"
  i_row_version :: int
  i_created_at :: timestamp
  i_updated_at :: timestamp

record activity_row =
  a_id :: uuid
  a_workspace_id :: uuid
  a_project_id :: uuid
  a_issue_id :: "uuid option"
  a_command_id :: uuid
  a_actor_id :: uuid
  a_event_type :: string
  a_event_payload :: json
  a_created_at :: timestamp

text \<open>The labels of the type \<open>outbox_status\<close>.\<close>

datatype outbox_status = Pending | Leased | Delivered | Failed | DeadLetter

record outbox_row =
  o_id :: uuid
  o_workspace_id :: uuid
  o_event_id :: uuid
  o_event_type :: string
  o_aggregate_type :: string
  o_aggregate_id :: uuid
  o_occurred_at :: timestamp
  o_correlation_id :: uuid
  o_payload :: json
  o_attempts :: int
  o_available_at :: timestamp
  o_status :: outbox_status
  o_leased_at :: "timestamp option"
  o_leased_until :: "timestamp option"
  o_lease_token :: "uuid option"
  o_lease_owner :: "uuid option"
  o_published_at :: "timestamp option"
  o_last_error :: "string option"
  o_created_at :: timestamp
  o_updated_at :: timestamp

record idempotency_row =
  k_workspace_id :: uuid
  k_command_name :: string
  k_idempotency_key :: string
  k_request_fingerprint :: string
  k_response_payload :: json
  k_expires_at :: timestamp
  k_created_at :: timestamp

record partition_lease_row =
  l_workspace_id :: uuid
  l_shard_bucket :: int
  l_lease_owner :: uuid
  l_leased_at :: timestamp
  l_leased_until :: timestamp
  l_updated_at :: timestamp

record db =
  workspaces :: "workspace_row list"
  workflow_versions :: "workflow_version_row list"
  projects :: "project_row list"
  milestones :: "milestone_row list"
  issues :: "issue_row list"
  activities :: "activity_row list"
  outbox :: "outbox_row list"
  idempotency :: "idempotency_row list"
  partition_leases :: "partition_lease_row list"

definition empty_db :: db where
  "empty_db = \<lparr>workspaces = [], workflow_versions = [], projects = [], milestones = [], issues = [],
     activities = [], outbox = [], idempotency = [], partition_leases = []\<rparr>"

text \<open>\<open>status::text\<close>.\<close>

fun outbox_status_text :: "outbox_status \<Rightarrow> string" where
  "outbox_status_text Pending = ''pending''"
| "outbox_status_text Leased = ''leased''"
| "outbox_status_text Delivered = ''delivered''"
| "outbox_status_text Failed = ''failed''"
| "outbox_status_text DeadLetter = ''dead_letter''"

lemma outbox_status_text_inject: "outbox_status_text a = outbox_status_text b \<longleftrightarrow> a = b"
  by (cases a; cases b) simp_all

section \<open>Constraints\<close>

text \<open>
  What the server reports when a statement fails; \<open>CheckViolation\<close> also stands for a text it cannot
  store.
\<close>

datatype db_error =
    ConnectionFault
  | UniqueViolation
  | ForeignKeyViolation
  | CheckViolation
  | RlsViolation
  | InvalidEnumLabel
  | RowNotFound
  | UnexpectedNull
  | InvalidLimit

definition k_key :: "idempotency_row \<Rightarrow> uuid \<times> string \<times> string" where
  "k_key r = (k_workspace_id r, k_command_name r, k_idempotency_key r)"

definition workspace_exists :: "db \<Rightarrow> uuid \<Rightarrow> bool" where
  "workspace_exists d w \<longleftrightarrow> row_exists (\<lambda>r. w_id r = w) (workspaces d)"

definition workflow_version_exists :: "db \<Rightarrow> uuid \<Rightarrow> uuid \<Rightarrow> bool" where
  "workflow_version_exists d w v \<longleftrightarrow>
     row_exists (\<lambda>r. wv_workspace_id r = w \<and> wv_id r = v) (workflow_versions d)"

definition project_exists :: "db \<Rightarrow> uuid \<Rightarrow> uuid \<Rightarrow> bool" where
  "project_exists d w p \<longleftrightarrow> row_exists (\<lambda>r. p_workspace_id r = w \<and> p_id r = p) (projects d)"

definition milestone_exists :: "db \<Rightarrow> uuid \<Rightarrow> uuid \<Rightarrow> bool" where
  "milestone_exists d w m \<longleftrightarrow> row_exists (\<lambda>r. m_workspace_id r = w \<and> m_id r = m) (milestones d)"

definition issue_exists :: "db \<Rightarrow> uuid \<Rightarrow> uuid \<Rightarrow> bool" where
  "issue_exists d w i \<longleftrightarrow> row_exists (\<lambda>r. i_workspace_id r = w \<and> i_id r = i) (issues d)"

lemmas exists_defs = workspace_exists_def workflow_version_exists_def project_exists_def
  milestone_exists_def issue_exists_def

definition workspace_checks :: "workspace_row \<Rightarrow> bool" where
  "workspace_checks r \<longleftrightarrow>
     text_between 1 200 (w_name r) \<and> 0 \<le> w_shard_bucket r \<and> w_shard_bucket r \<le> 1023"

definition project_checks :: "project_row \<Rightarrow> bool" where
  "project_checks r \<longleftrightarrow> text_between 1 200 (p_name r)"

definition issue_checks :: "issue_row \<Rightarrow> bool" where
  "issue_checks r \<longleftrightarrow>
     text_between 1 200 (i_title r)
     \<and> (case i_description r of None \<Rightarrow> True | Some t \<Rightarrow> text_at_most 4000 t)"

definition activity_checks :: "activity_row \<Rightarrow> bool" where
  "activity_checks r \<longleftrightarrow> text_between 1 128 (a_event_type r)"

definition outbox_checks :: "outbox_row \<Rightarrow> bool" where
  "outbox_checks r \<longleftrightarrow>
     text_between 1 128 (o_event_type r) \<and> text_between 1 64 (o_aggregate_type r)
     \<and> (case o_last_error r of None \<Rightarrow> True | Some t \<Rightarrow> text_at_most 4000 t)"

definition idempotency_checks :: "idempotency_row \<Rightarrow> bool" where
  "idempotency_checks r \<longleftrightarrow>
     text_between 1 128 (k_command_name r) \<and> text_between 1 128 (k_idempotency_key r)
     \<and> text_between 1 128 (k_request_fingerprint r)"

definition partition_lease_checks :: "partition_lease_row \<Rightarrow> bool" where
  "partition_lease_checks r \<longleftrightarrow> 0 \<le> l_shard_bucket r \<and> l_shard_bucket r \<le> 1023"

lemmas checks_defs = workspace_checks_def project_checks_def issue_checks_def activity_checks_def
  outbox_checks_def idempotency_checks_def partition_lease_checks_def

text \<open>The casts \<open>::issue_state_category\<close> and \<open>::issue_priority\<close> of a text.\<close>

definition issue_state_category_label :: "string \<Rightarrow> bool" where
  "issue_state_category_label s \<longleftrightarrow> s \<in> set [''open'', ''active'', ''done'', ''cancelled'']"

definition issue_priority_label :: "string \<Rightarrow> bool" where
  "issue_priority_label s \<longleftrightarrow> s \<in> set [''low'', ''medium'', ''high'', ''urgent'']"

section \<open>Row level security\<close>

text \<open>
  A policy's \<open>USING\<close> and \<open>WITH CHECK\<close> compare the row's workspace with the setting
  \<open>app.workspace_id\<close>, both in the canonical text form of a UUID; an unset setting is \<open>NULL\<close> and
  satisfies neither.
\<close>

definition tenant_visible :: "uuid option \<Rightarrow> uuid \<Rightarrow> bool" where
  "tenant_visible setting w \<longleftrightarrow> setting = Some w"

section \<open>Inserts\<close>

definition insert_workspace_row :: "uuid option \<Rightarrow> workspace_row \<Rightarrow> db \<Rightarrow> db_error + db" where
  "insert_workspace_row setting r d =
     (if \<not> tenant_visible setting (w_id r) then Err RlsViolation
      else if \<not> workspace_checks r then Err CheckViolation
      else if row_exists (\<lambda>x. w_id x = w_id r) (workspaces d) then Err UniqueViolation
      else Ok (d\<lparr>workspaces := workspaces d @ [r]\<rparr>))"

definition insert_project_row :: "uuid option \<Rightarrow> project_row \<Rightarrow> db \<Rightarrow> db_error + db" where
  "insert_project_row setting r d =
     (if \<not> tenant_visible setting (p_workspace_id r) then Err RlsViolation
      else if \<not> project_checks r then Err CheckViolation
      else if row_exists (\<lambda>x. p_id x = p_id r) (projects d) then Err UniqueViolation
      else if \<not> workspace_exists d (p_workspace_id r)
              \<or> \<not> workflow_version_exists d (p_workspace_id r) (p_workflow_version_id r)
      then Err ForeignKeyViolation
      else Ok (d\<lparr>projects := projects d @ [r]\<rparr>))"

definition insert_issue_row :: "uuid option \<Rightarrow> issue_row \<Rightarrow> db \<Rightarrow> db_error + db" where
  "insert_issue_row setting r d =
     (if \<not> issue_state_category_label (i_state_category r) \<or> \<not> issue_priority_label (i_priority r)
      then Err InvalidEnumLabel
      else if \<not> tenant_visible setting (i_workspace_id r) then Err RlsViolation
      else if \<not> issue_checks r then Err CheckViolation
      else if row_exists (\<lambda>x. i_id x = i_id r) (issues d) then Err UniqueViolation
      else if \<not> workspace_exists d (i_workspace_id r)
              \<or> \<not> project_exists d (i_workspace_id r) (i_project_id r)
              \<or> (case i_milestone_id r of None \<Rightarrow> False
                 | Some m \<Rightarrow> \<not> milestone_exists d (i_workspace_id r) m)
      then Err ForeignKeyViolation
      else Ok (d\<lparr>issues := issues d @ [r]\<rparr>))"

definition insert_activity_row :: "uuid option \<Rightarrow> activity_row \<Rightarrow> db \<Rightarrow> db_error + db" where
  "insert_activity_row setting r d =
     (if \<not> tenant_visible setting (a_workspace_id r) then Err RlsViolation
      else if \<not> activity_checks r then Err CheckViolation
      else if row_exists (\<lambda>x. a_id x = a_id r) (activities d) then Err UniqueViolation
      else if \<not> workspace_exists d (a_workspace_id r)
              \<or> \<not> project_exists d (a_workspace_id r) (a_project_id r)
              \<or> (case a_issue_id r of None \<Rightarrow> False
                 | Some i \<Rightarrow> \<not> issue_exists d (a_workspace_id r) i)
      then Err ForeignKeyViolation
      else Ok (d\<lparr>activities := activities d @ [r]\<rparr>))"

definition insert_outbox_row :: "uuid option \<Rightarrow> outbox_row \<Rightarrow> db \<Rightarrow> db_error + db" where
  "insert_outbox_row setting r d =
     (if \<not> tenant_visible setting (o_workspace_id r) then Err RlsViolation
      else if \<not> outbox_checks r then Err CheckViolation
      else if row_exists (\<lambda>x. o_id x = o_id r \<or> o_event_id x = o_event_id r) (outbox d)
      then Err UniqueViolation
      else if \<not> workspace_exists d (o_workspace_id r) then Err ForeignKeyViolation
      else Ok (d\<lparr>outbox := outbox d @ [r]\<rparr>))"

text \<open>
  \<open>INSERT \<dots> ON CONFLICT (workspace_id, command_name, idempotency_key) DO UPDATE SET expires_at =
  idempotency_record.expires_at RETURNING (xmax = 0), \<dots>\<close>: the flag says whether the row is new,
  and the row returned is the stored one, which the assignment of its own value leaves as it is.
\<close>

definition upsert_idempotency_row ::
  "uuid option \<Rightarrow> idempotency_row \<Rightarrow> db \<Rightarrow> db_error + (db \<times> (bool \<times> idempotency_row))" where
  "upsert_idempotency_row setting r d =
     (if \<not> tenant_visible setting (k_workspace_id r) then Err RlsViolation
      else if \<not> idempotency_checks r then Err CheckViolation
      else case fetch_optional (\<lambda>x. k_key x = k_key r) (idempotency d) of
             Some stored \<Rightarrow>
               Ok (d\<lparr>idempotency :=
                      update_where (\<lambda>x. k_key x = k_key r) (\<lambda>x. x\<lparr>k_expires_at := k_expires_at x\<rparr>)
                        (idempotency d)\<rparr>, (False, stored))
           | None \<Rightarrow>
               if \<not> workspace_exists d (k_workspace_id r) then Err ForeignKeyViolation
               else Ok (d\<lparr>idempotency := idempotency d @ [r]\<rparr>, (True, r)))"

section \<open>Updates\<close>

text \<open>
  \<open>UPDATE outbox SET \<dots> WHERE \<dots>\<close>: the rows the policy shows and the condition selects are changed;
  a changed row that violates a \<open>CHECK\<close> fails the statement.  The result is the number of rows.
\<close>

definition update_outbox ::
  "uuid option \<Rightarrow> (outbox_row \<Rightarrow> bool) \<Rightarrow> (outbox_row \<Rightarrow> outbox_row) \<Rightarrow> db \<Rightarrow> db_error + (db \<times> nat)" where
  "update_outbox setting P f d =
     (let Q = (\<lambda>r. tenant_visible setting (o_workspace_id r) \<and> P r) in
      if list_ex (\<lambda>r. Q r \<and> \<not> outbox_checks (f r)) (outbox d) then Err CheckViolation
      else Ok (d\<lparr>outbox := update_where Q f (outbox d)\<rparr>, rows_affected Q (outbox d)))"

section \<open>Databases that satisfy the schema\<close>

definition workspaces_ok :: "db \<Rightarrow> bool" where
  "workspaces_ok d \<longleftrightarrow> unique_key w_id (workspaces d) \<and> (\<forall>r\<in>set (workspaces d). workspace_checks r)"

definition projects_ok :: "db \<Rightarrow> bool" where
  "projects_ok d \<longleftrightarrow>
     unique_key p_id (projects d)
     \<and> (\<forall>r\<in>set (projects d). project_checks r \<and> workspace_exists d (p_workspace_id r)
          \<and> workflow_version_exists d (p_workspace_id r) (p_workflow_version_id r))"

definition issue_row_ok :: "db \<Rightarrow> issue_row \<Rightarrow> bool" where
  "issue_row_ok d r \<longleftrightarrow>
     issue_state_category_label (i_state_category r) \<and> issue_priority_label (i_priority r)
     \<and> issue_checks r \<and> workspace_exists d (i_workspace_id r)
     \<and> project_exists d (i_workspace_id r) (i_project_id r)
     \<and> (\<forall>m. i_milestone_id r = Some m \<longrightarrow> milestone_exists d (i_workspace_id r) m)"

definition issues_ok :: "db \<Rightarrow> bool" where
  "issues_ok d \<longleftrightarrow> unique_key i_id (issues d) \<and> (\<forall>r\<in>set (issues d). issue_row_ok d r)"

definition activity_row_ok :: "db \<Rightarrow> activity_row \<Rightarrow> bool" where
  "activity_row_ok d r \<longleftrightarrow>
     activity_checks r \<and> workspace_exists d (a_workspace_id r)
     \<and> project_exists d (a_workspace_id r) (a_project_id r)
     \<and> (\<forall>i. a_issue_id r = Some i \<longrightarrow> issue_exists d (a_workspace_id r) i)"

definition activities_ok :: "db \<Rightarrow> bool" where
  "activities_ok d \<longleftrightarrow>
     unique_key a_id (activities d) \<and> (\<forall>r\<in>set (activities d). activity_row_ok d r)"

definition outbox_row_ok :: "db \<Rightarrow> outbox_row \<Rightarrow> bool" where
  "outbox_row_ok d r \<longleftrightarrow> outbox_checks r \<and> workspace_exists d (o_workspace_id r)"

definition outbox_ok :: "db \<Rightarrow> bool" where
  "outbox_ok d \<longleftrightarrow>
     unique_key o_id (outbox d) \<and> unique_key o_event_id (outbox d)
     \<and> (\<forall>r\<in>set (outbox d). outbox_row_ok d r)"

definition idempotency_ok :: "db \<Rightarrow> bool" where
  "idempotency_ok d \<longleftrightarrow>
     unique_key k_key (idempotency d)
     \<and> (\<forall>r\<in>set (idempotency d). idempotency_checks r \<and> workspace_exists d (k_workspace_id r))"

definition partition_leases_ok :: "db \<Rightarrow> bool" where
  "partition_leases_ok d \<longleftrightarrow>
     unique_key l_workspace_id (partition_leases d)
     \<and> (\<forall>r\<in>set (partition_leases d). partition_lease_checks r \<and> workspace_exists d (l_workspace_id r))"

definition schema_ok :: "db \<Rightarrow> bool" where
  "schema_ok d \<longleftrightarrow>
     workspaces_ok d \<and> projects_ok d \<and> issues_ok d \<and> activities_ok d \<and> outbox_ok d
     \<and> idempotency_ok d \<and> partition_leases_ok d"

lemmas table_ok_defs = workspaces_ok_def projects_ok_def issues_ok_def activities_ok_def
  outbox_ok_def idempotency_ok_def partition_leases_ok_def issue_row_ok_def activity_row_ok_def
  outbox_row_ok_def

lemma schema_ok_empty: "schema_ok empty_db"
  by (simp add: schema_ok_def table_ok_defs empty_db_def unique_key_def)

text \<open>Each insert keeps the schema: the new row was checked, the other tables are untouched.\<close>

lemma insert_workspace_row_Ok:
  "insert_workspace_row s r d = Inr d' \<longleftrightarrow>
     s = Some (w_id r) \<and> workspace_checks r \<and> \<not> row_exists (\<lambda>x. w_id x = w_id r) (workspaces d)
     \<and> d' = d\<lparr>workspaces := workspaces d @ [r]\<rparr>"
  by (auto simp: insert_workspace_row_def tenant_visible_def)

lemma insert_project_row_Ok:
  "insert_project_row s r d = Inr d' \<longleftrightarrow>
     s = Some (p_workspace_id r) \<and> project_checks r
     \<and> \<not> row_exists (\<lambda>x. p_id x = p_id r) (projects d)
     \<and> workspace_exists d (p_workspace_id r)
     \<and> workflow_version_exists d (p_workspace_id r) (p_workflow_version_id r)
     \<and> d' = d\<lparr>projects := projects d @ [r]\<rparr>"
  by (auto simp: insert_project_row_def tenant_visible_def)

lemma insert_issue_row_Ok:
  "insert_issue_row s r d = Inr d' \<longleftrightarrow>
     s = Some (i_workspace_id r) \<and> \<not> row_exists (\<lambda>x. i_id x = i_id r) (issues d)
     \<and> issue_row_ok d r \<and> d' = d\<lparr>issues := issues d @ [r]\<rparr>"
  by (auto simp: insert_issue_row_def tenant_visible_def issue_row_ok_def split: option.splits)

lemma insert_activity_row_Ok:
  "insert_activity_row s r d = Inr d' \<longleftrightarrow>
     s = Some (a_workspace_id r) \<and> \<not> row_exists (\<lambda>x. a_id x = a_id r) (activities d)
     \<and> activity_row_ok d r \<and> d' = d\<lparr>activities := activities d @ [r]\<rparr>"
  by (auto simp: insert_activity_row_def tenant_visible_def activity_row_ok_def split: option.splits)

lemma insert_outbox_row_Ok:
  "insert_outbox_row s r d = Inr d' \<longleftrightarrow>
     s = Some (o_workspace_id r) \<and> \<not> row_exists (\<lambda>x. o_id x = o_id r) (outbox d)
     \<and> \<not> row_exists (\<lambda>x. o_event_id x = o_event_id r) (outbox d)
     \<and> outbox_row_ok d r \<and> d' = d\<lparr>outbox := outbox d @ [r]\<rparr>"
  by (auto simp: insert_outbox_row_def tenant_visible_def outbox_row_ok_def row_exists_disj)

lemma upsert_idempotency_row_Ok:
  "upsert_idempotency_row s r d = Inr (d', ins, stored) \<longleftrightarrow>
     s = Some (k_workspace_id r) \<and> idempotency_checks r
     \<and> (case fetch_optional (\<lambda>x. k_key x = k_key r) (idempotency d) of
          Some x \<Rightarrow> d' = d \<and> \<not> ins \<and> stored = x
        | None \<Rightarrow> workspace_exists d (k_workspace_id r) \<and> ins \<and> stored = r
                 \<and> d' = d\<lparr>idempotency := idempotency d @ [r]\<rparr>)"
  by (auto simp: upsert_idempotency_row_def tenant_visible_def split: option.splits)

lemma insert_workspace_row_schema:
  assumes "schema_ok d" "insert_workspace_row s r d = Inr d'"
  shows "schema_ok d'"
proof -
  have d': "d' = d\<lparr>workspaces := workspaces d @ [r]\<rparr>"
    using assms(2) by (simp add: insert_workspace_row_Ok)
  have "workspaces_ok d'"
    using assms unfolding schema_ok_def workspaces_ok_def insert_workspace_row_Ok
    by (auto intro!: unique_key_insert)
  then show ?thesis
    using assms(1) unfolding d' schema_ok_def table_ok_defs exists_defs
    by (simp add: row_exists_append)
qed

lemma insert_project_row_schema:
  assumes "schema_ok d" "insert_project_row s r d = Inr d'"
  shows "schema_ok d'"
proof -
  have d': "d' = d\<lparr>projects := projects d @ [r]\<rparr>"
    using assms(2) by (simp add: insert_project_row_Ok)
  have "projects_ok d'"
    using assms unfolding schema_ok_def projects_ok_def insert_project_row_Ok
    by (auto simp: exists_defs intro!: unique_key_insert)
  then show ?thesis
    using assms(1) unfolding d' schema_ok_def table_ok_defs exists_defs
    by (simp add: row_exists_append)
qed

lemma insert_issue_row_schema:
  assumes "schema_ok d" "insert_issue_row s r d = Inr d'"
  shows "schema_ok d'"
proof -
  have d': "d' = d\<lparr>issues := issues d @ [r]\<rparr>"
    using assms(2) by (simp add: insert_issue_row_Ok)
  have "issues_ok d'"
    using assms unfolding schema_ok_def issues_ok_def insert_issue_row_Ok issue_row_ok_def
    by (auto simp: exists_defs intro!: unique_key_insert)
  then show ?thesis
    using assms(1) unfolding d' schema_ok_def table_ok_defs exists_defs
    by (simp add: row_exists_append)
qed

lemma insert_activity_row_schema:
  assumes "schema_ok d" "insert_activity_row s r d = Inr d'"
  shows "schema_ok d'"
proof -
  have d': "d' = d\<lparr>activities := activities d @ [r]\<rparr>"
    using assms(2) by (simp add: insert_activity_row_Ok)
  have "activities_ok d'"
    using assms unfolding schema_ok_def activities_ok_def insert_activity_row_Ok activity_row_ok_def
    by (auto simp: exists_defs intro!: unique_key_insert)
  then show ?thesis
    using assms(1) unfolding d' schema_ok_def table_ok_defs exists_defs
    by (simp add: row_exists_append)
qed

lemma insert_outbox_row_schema:
  assumes "schema_ok d" "insert_outbox_row s r d = Inr d'"
  shows "schema_ok d'"
proof -
  have d': "d' = d\<lparr>outbox := outbox d @ [r]\<rparr>"
    using assms(2) by (simp add: insert_outbox_row_Ok)
  have "outbox_ok d'"
    using assms unfolding schema_ok_def outbox_ok_def insert_outbox_row_Ok outbox_row_ok_def
    by (auto simp: exists_defs intro!: unique_key_insert)
  then show ?thesis
    using assms(1) unfolding d' schema_ok_def table_ok_defs exists_defs
    by (simp add: row_exists_append)
qed

lemma insert_idempotency_row_schema:
  assumes "schema_ok d" "\<not> row_exists (\<lambda>x. k_key x = k_key r) (idempotency d)"
    "idempotency_checks r" "workspace_exists d (k_workspace_id r)"
  shows "schema_ok (d\<lparr>idempotency := idempotency d @ [r]\<rparr>)" (is "schema_ok ?d")
proof -
  have "idempotency_ok ?d"
    using assms unfolding schema_ok_def idempotency_ok_def
    by (auto simp: exists_defs intro!: unique_key_insert)
  then show ?thesis
    using assms(1) unfolding schema_ok_def table_ok_defs exists_defs
    by (simp add: row_exists_append)
qed

lemma upsert_idempotency_row_schema:
  assumes "schema_ok d" "upsert_idempotency_row s r d = Inr (d', out)"
  shows "schema_ok d'"
  using assms
  by (cases out) (auto simp: upsert_idempotency_row_Ok fetch_optional_None_exists
      split: option.splits intro: insert_idempotency_row_schema)

end
