(* ===== verification/Pg.thy ===== *)
theory Pg
  imports Schema
begin

text \<open>
  Sessions and transactions.  A store operation runs statements on a session: the committed
  database, the working copy of the running transaction, the setting \<open>app.workspace_id\<close> (local to
  the transaction) and a schedule of round trips to the server: a request may be lost before the
  server sees it, or be executed with its answer lost; both look the same to the client.  Past the
  end of the schedule every request is answered.  Dropping a transaction without \<open>commit\<close> rolls it
  back, so an operation that returns early leaves the committed database alone, and only a
  \<open>COMMIT\<close> whose answer is lost reports an error after its effect.

  Operations are atomic against each other: the statements that decide a race hold locks until the
  transaction ends (the upsert on the idempotency key, \<open>FOR UPDATE\<close>), so the model serializes
  whole operations, in any order.

  The locale \<open>store_operation\<close> is the contract of an operation with its callers: on any schedule it
  does what an atomic specification on the committed database says, or reports a connection fault
  with either nothing or the whole effect committed.
\<close>

section \<open>Errors of the store\<close>

datatype store_error =
    Sqlx db_error
  | SeaOrm db_error
  | Serde string
  | ProjectNotFound
  | WorkflowVersionNotFound
  | MilestoneNotFound
  | MilestoneProjectMismatch
  | IdempotencyConflict
  | IdempotencyReplayMissingIssue
  | InvalidState string
  | InvalidPriority string
  | OutboxUpdateNotSingleRow uuid uuid nat
  | OutboxLeaseMissing uuid uuid
  | OutboxNotLeased uuid uuid string
  | OutboxLeaseExpired uuid uuid timestamp timestamp
  | OutboxLeaseOwnerMismatch uuid uuid uuid uuid
  | OutboxLeaseTokenMismatch uuid uuid uuid uuid
  | DomainViolation domain_error
  | InvalidInput string

section \<open>Sessions\<close>

datatype trip = Answered | RequestLost | AnswerLost

record session =
  committed :: db
  working :: db
  app_workspace_id :: "uuid option"
  faults :: "trip list"

type_synonym 'a tx = "session \<Rightarrow> (store_error + 'a) \<times> session"

definition tx_return :: "'a \<Rightarrow> 'a tx" where
  "tx_return x = (\<lambda>s. (Inr x, s))"

definition tx_lift :: "store_error + 'a \<Rightarrow> 'a tx" where
  "tx_lift r = (\<lambda>s. (r, s))"

definition tx_bind :: "'a tx \<Rightarrow> ('a \<Rightarrow> 'b tx) \<Rightarrow> 'b tx" where
  "tx_bind m f = (\<lambda>s. case m s of (Inl e, s') \<Rightarrow> (Inl e, s') | (Inr x, s') \<Rightarrow> f x s')"

definition server_does ::
  "(db_error \<Rightarrow> store_error) \<Rightarrow> 'a tx \<Rightarrow> 'a tx" where
  "server_does E act = (\<lambda>s. case faults s of
       [] \<Rightarrow> act s
     | t # ts \<Rightarrow> (case t of
           Answered \<Rightarrow> act (s\<lparr>faults := ts\<rparr>)
         | RequestLost \<Rightarrow> (Inl (E ConnectionFault), s\<lparr>faults := ts\<rparr>)
         | AnswerLost \<Rightarrow> (Inl (E ConnectionFault), snd (act (s\<lparr>faults := ts\<rparr>)))))"

definition pg_begin :: "(db_error \<Rightarrow> store_error) \<Rightarrow> unit tx" where
  "pg_begin E = server_does E
     (\<lambda>s. (Inr (), s\<lparr>working := committed s, app_workspace_id := None\<rparr>))"

text \<open>\<open>SELECT set_config('app.workspace_id', $1, true)\<close>.\<close>

definition set_workspace_context :: "(db_error \<Rightarrow> store_error) \<Rightarrow> uuid \<Rightarrow> unit tx" where
  "set_workspace_context E workspace_id = server_does E
     (\<lambda>s. (Inr (), s\<lparr>app_workspace_id := Some workspace_id\<rparr>))"

definition pg_query ::
  "(db_error \<Rightarrow> store_error) \<Rightarrow> (uuid option \<Rightarrow> db \<Rightarrow> db_error + (db \<times> 'a)) \<Rightarrow> 'a tx" where
  "pg_query E f = server_does E
     (\<lambda>s. case f (app_workspace_id s) (working s) of
            Inl e \<Rightarrow> (Inl (E e), s)
          | Inr (d, x) \<Rightarrow> (Inr x, s\<lparr>working := d\<rparr>))"

definition pg_select ::
  "(db_error \<Rightarrow> store_error) \<Rightarrow> (uuid option \<Rightarrow> db \<Rightarrow> 'a) \<Rightarrow> 'a tx" where
  "pg_select E f = pg_query E (\<lambda>setting d. Inr (d, f setting d))"

definition pg_execute ::
  "(db_error \<Rightarrow> store_error) \<Rightarrow> (uuid option \<Rightarrow> db \<Rightarrow> db_error + db) \<Rightarrow> unit tx" where
  "pg_execute E f = pg_query E (\<lambda>setting d. map_ok (\<lambda>d'. (d', ())) (f setting d))"

definition pg_commit :: "(db_error \<Rightarrow> store_error) \<Rightarrow> unit tx" where
  "pg_commit E = server_does E (\<lambda>s. (Inr (), s\<lparr>committed := working s\<rparr>))"

text \<open>A statement sent to the pool is its own transaction, with no tenant setting.\<close>

definition pg_autocommit ::
  "(db_error \<Rightarrow> store_error) \<Rightarrow> (db \<Rightarrow> db_error + (db \<times> 'a)) \<Rightarrow> 'a tx" where
  "pg_autocommit E f = server_does E
     (\<lambda>s. case f (committed s) of
            Inl e \<Rightarrow> (Inl (E e), s)
          | Inr (d, x) \<Rightarrow> (Inr x, s\<lparr>committed := d\<rparr>))"

text \<open>Running a script on a concrete session, one round trip at a time.\<close>

lemma tx_bind_run: "tx_bind m f s = (case m s of (Inl e, s') \<Rightarrow> (Inl e, s') | (Inr x, s') \<Rightarrow> f x s')"
  and tx_return_run: "tx_return x s = (Inr x, s)"
  and tx_lift_run: "tx_lift r s = (r, s)"
  by (simp_all add: tx_bind_def tx_return_def tx_lift_def)

lemma server_does_run:
  "faults s = [] \<Longrightarrow> server_does E act s = act s"
  "faults s = Answered # ts \<Longrightarrow> server_does E act s = act (s\<lparr>faults := ts\<rparr>)"
  "faults s = RequestLost # ts \<Longrightarrow> server_does E act s = (Inl (E ConnectionFault), s\<lparr>faults := ts\<rparr>)"
  "faults s = AnswerLost # ts \<Longrightarrow>
     server_does E act s = (Inl (E ConnectionFault), snd (act (s\<lparr>faults := ts\<rparr>)))"
  by (simp_all add: server_does_def)

lemmas tx_run = tx_bind_run tx_return_run tx_lift_run server_does_run

section \<open>Statements inside a transaction\<close>

text \<open>
  \<open>runs E m g\<close>: inside a transaction \<open>m\<close> does what \<open>g\<close> says on the working copy, or reports a
  fault; it never touches the committed database.
\<close>

definition runs ::
  "(db_error \<Rightarrow> store_error) \<Rightarrow> 'a tx \<Rightarrow> (uuid option \<Rightarrow> db \<Rightarrow> store_error + (db \<times> 'a)) \<Rightarrow> bool" where
  "runs E m g \<longleftrightarrow> (\<forall>s.
     committed (snd (m s)) = committed s \<and> app_workspace_id (snd (m s)) = app_workspace_id s
     \<and> (faults s = [] \<longrightarrow> faults (snd (m s)) = [])
     \<and> (case g (app_workspace_id s) (working s) of
          Inl e \<Rightarrow> fst (m s) = Inl e
        | Inr (d, x) \<Rightarrow> fst (m s) = Inr x \<and> working (snd (m s)) = d)
       \<or> committed (snd (m s)) = committed s \<and> faults s \<noteq> [] \<and> fst (m s) = Inl (E ConnectionFault))"

text \<open>
  \<open>finishes E m h\<close>: from inside a transaction to the end of the operation; \<open>h\<close> gives the result
  and the database left committed, from the setting, the committed and the working database.
\<close>

definition finishes ::
  "(db_error \<Rightarrow> store_error) \<Rightarrow> 'a tx
    \<Rightarrow> (uuid option \<Rightarrow> db \<Rightarrow> db \<Rightarrow> (store_error + 'a) \<times> db) \<Rightarrow> bool" where
  "finishes E m h \<longleftrightarrow> (\<forall>s.
     (faults s = [] \<longrightarrow> faults (snd (m s)) = [])
     \<and> (fst (m s), committed (snd (m s))) = h (app_workspace_id s) (committed s) (working s)
       \<or> faults s \<noteq> [] \<and> fst (m s) = Inl (E ConnectionFault)
         \<and> committed (snd (m s))
             \<in> {committed s, snd (h (app_workspace_id s) (committed s) (working s))})"

named_theorems tx_rules \<open>what the statements and their compositions do\<close>

lemma runs_return [tx_rules]: "runs E (tx_return x) (\<lambda>w d. Inr (d, x))"
  by (simp add: runs_def tx_return_def)

lemma runs_lift [tx_rules]: "runs E (tx_lift r) (\<lambda>w d. map_ok (Pair d) r)"
  by (cases r) (simp_all add: runs_def tx_lift_def)

lemma runs_query [tx_rules]: "runs E (pg_query E f) (\<lambda>w d. map_err E (f w d))"
  by (auto simp: runs_def pg_query_def server_does_def split: list.splits trip.splits sum.splits)

lemma runs_select [tx_rules]: "runs E (pg_select E f) (\<lambda>w d. Inr (d, f w d))"
  using runs_query [of E "\<lambda>w d. Inr (d, f w d)"] by (simp add: pg_select_def)

lemma runs_execute [tx_rules]:
  "runs E (pg_execute E f) (\<lambda>w d. map_ok (\<lambda>d'. (d', ())) (map_err E (f w d)))"
proof -
  have "map_err E (map_ok (\<lambda>d'. (d', ())) r) = map_ok (\<lambda>d'. (d', ())) (map_err E r)"
    for r :: "db_error + db"
    by (cases r) simp_all
  then show ?thesis
    using runs_query [of E "\<lambda>w d. map_ok (\<lambda>d'. (d', ())) (f w d)"] by (simp add: pg_execute_def)
qed

lemma runs_bind [tx_rules]:
  assumes "runs E m g" "\<And>x. runs E (f x) (h x)"
  shows "runs E (tx_bind m f) (\<lambda>w d. and_then (g w d) (\<lambda>p. h (snd p) w (fst p)))"
  unfolding runs_def
proof
  fix s
  obtain r s' where m: "m s = (r, s')" by (cases "m s")
  show "committed (snd (tx_bind m f s)) = committed s
       \<and> app_workspace_id (snd (tx_bind m f s)) = app_workspace_id s
       \<and> (faults s = [] \<longrightarrow> faults (snd (tx_bind m f s)) = [])
       \<and> (case and_then (g (app_workspace_id s) (working s))
             (\<lambda>p. h (snd p) (app_workspace_id s) (fst p)) of
            Inl e \<Rightarrow> fst (tx_bind m f s) = Inl e
          | Inr (d, x) \<Rightarrow> fst (tx_bind m f s) = Inr x \<and> working (snd (tx_bind m f s)) = d)
       \<or> committed (snd (tx_bind m f s)) = committed s \<and> faults s \<noteq> []
         \<and> fst (tx_bind m f s) = Inl (E ConnectionFault)"
    (is "?good \<or> ?fault")
  proof (cases r)
    case (Inl e)
    with m have b: "tx_bind m f s = (Inl e, s')" by (simp add: tx_bind_def)
    from assms(1)[unfolded runs_def, rule_format, of s] m Inl show ?thesis
      unfolding b by (auto split: sum.splits)
  next
    case (Inr x)
    with m have b: "tx_bind m f s = f x s'" by (simp add: tx_bind_def)
    from assms(1)[unfolded runs_def, rule_format, of s] m Inr
    obtain d where s': "committed s' = committed s" "app_workspace_id s' = app_workspace_id s"
      "faults s = [] \<longrightarrow> faults s' = []" "g (app_workspace_id s) (working s) = Inr (d, x)"
      "working s' = d"
      by (auto split: sum.splits)
    from assms(2)[of x, unfolded runs_def, rule_format, of s'] s' show ?thesis
      unfolding b by auto
  qed
qed

lemma finishes_bind [tx_rules]:
  assumes "runs E m g" "\<And>x. finishes E (f x) (h x)"
  shows "finishes E (tx_bind m f)
    (\<lambda>w c d. case g w d of Inl e \<Rightarrow> (Inl e, c) | Inr (d', x) \<Rightarrow> h x w c d')"
  unfolding finishes_def
proof
  fix s
  obtain r s' where m: "m s = (r, s')" by (cases "m s")
  show "(faults s = [] \<longrightarrow> faults (snd (tx_bind m f s)) = [])
       \<and> (fst (tx_bind m f s), committed (snd (tx_bind m f s)))
         = (case g (app_workspace_id s) (working s) of
              Inl e \<Rightarrow> (Inl e, committed s)
            | Inr (d', x) \<Rightarrow> h x (app_workspace_id s) (committed s) d')
       \<or> faults s \<noteq> [] \<and> fst (tx_bind m f s) = Inl (E ConnectionFault)
         \<and> committed (snd (tx_bind m f s)) \<in> {committed s,
             snd (case g (app_workspace_id s) (working s) of
              Inl e \<Rightarrow> (Inl e, committed s)
            | Inr (d', x) \<Rightarrow> h x (app_workspace_id s) (committed s) d')}"
  proof (cases r)
    case (Inl e)
    with m have b: "tx_bind m f s = (Inl e, s')" by (simp add: tx_bind_def)
    from assms(1)[unfolded runs_def, rule_format, of s] m Inl show ?thesis
      unfolding b by (auto split: sum.splits)
  next
    case (Inr x)
    with m have b: "tx_bind m f s = f x s'" by (simp add: tx_bind_def)
    from assms(1)[unfolded runs_def, rule_format, of s] m Inr
    obtain d where s': "committed s' = committed s" "app_workspace_id s' = app_workspace_id s"
      "faults s = [] \<longrightarrow> faults s' = []" "g (app_workspace_id s) (working s) = Inr (d, x)"
      "working s' = d"
      by (auto split: sum.splits)
    from assms(2)[of x, unfolded finishes_def, rule_format, of s'] s' show ?thesis
      unfolding b by auto
  qed
qed

lemma finishes_commit [tx_rules]:
  "finishes E (tx_bind (pg_commit E) (\<lambda>_. tx_lift r)) (\<lambda>w c d. (r, d))"
  by (auto simp: finishes_def pg_commit_def tx_bind_def server_does_def tx_lift_def
      split: list.splits trip.splits sum.splits)

lemma finishes_commit_return [tx_rules]:
  "finishes E (tx_bind (pg_commit E) (\<lambda>_. tx_return x)) (\<lambda>w c d. (Inr x, d))"
  using finishes_commit [of E "Inr x"] by (simp add: tx_return_def tx_lift_def)

text \<open>An early return: the transaction is dropped.\<close>

lemma finishes_early [tx_rules]: "finishes E (tx_lift (Inl e)) (\<lambda>w c d. (Inl e, c))"
  by (simp add: finishes_def tx_lift_def)

lemma finishes_if [tx_rules]:
  assumes "b \<Longrightarrow> finishes E m h" "\<not> b \<Longrightarrow> finishes E m' h'"
  shows "finishes E (if b then m else m') (\<lambda>w c d. if b then h w c d else h' w c d)"
  using assms by simp

lemma runs_if [tx_rules]:
  assumes "b \<Longrightarrow> runs E m g" "\<not> b \<Longrightarrow> runs E m' g'"
  shows "runs E (if b then m else m') (\<lambda>w d. if b then g w d else g' w d)"
  using assms by simp

lemma runs_option [tx_rules]:
  assumes "x = None \<Longrightarrow> runs E m g" "\<And>y. x = Some y \<Longrightarrow> runs E (m' y) (g' y)"
  shows "runs E (case x of None \<Rightarrow> m | Some y \<Rightarrow> m' y)
    (\<lambda>w d. case x of None \<Rightarrow> g w d | Some y \<Rightarrow> g' y w d)"
  using assms by (cases x) simp_all

lemma runs_prod [tx_rules]:
  assumes "\<And>a b. x = (a, b) \<Longrightarrow> runs E (m a b) (g a b)"
  shows "runs E (case x of (a, b) \<Rightarrow> m a b) (\<lambda>w d. case x of (a, b) \<Rightarrow> g a b w d)"
  using assms by (cases x) simp_all

lemma runs_cong: "runs E m g \<Longrightarrow> (\<And>w d. g w d = g' w d) \<Longrightarrow> runs E m g'"
  by (simp add: runs_def)

section \<open>The contract of a store operation\<close>

locale store_operation =
  fixes E :: "db_error \<Rightarrow> store_error"
    and op :: "'a tx"
    and spec :: "db \<Rightarrow> (store_error + 'a) \<times> db"
  assumes outcome:
    "(faults s = [] \<longrightarrow> faults (snd (op s)) = [])
       \<and> (fst (op s), committed (snd (op s))) = spec (committed s)
     \<or> faults s \<noteq> [] \<and> fst (op s) = Inl (E ConnectionFault)
       \<and> committed (snd (op s)) \<in> {committed s, snd (spec (committed s))}"
begin

lemma fault_free:
  assumes "faults s = []"
  shows "fst (op s) = fst (spec (committed s))" "committed (snd (op s)) = snd (spec (committed s))"
    "faults (snd (op s)) = []"
  using outcome [of s] assms by (auto simp: prod_eq_iff)

lemma answered_or_lost:
  obtains (answered) "fst (op s) = fst (spec (committed s))"
      "committed (snd (op s)) = snd (spec (committed s))"
  | (nothing) "fst (op s) = Inl (E ConnectionFault)" "committed (snd (op s)) = committed s"
  | (everything) "fst (op s) = Inl (E ConnectionFault)"
      "committed (snd (op s)) = snd (spec (committed s))"
  using outcome [of s] by (metis fst_conv insert_iff singletonD snd_conv)

lemma all_or_nothing:
  "committed (snd (op s)) = snd (spec (committed s)) \<or> committed (snd (op s)) = committed s"
  using outcome [of s] by (auto simp: prod_eq_iff)

lemma returned:
  assumes "fst (op s) = r" "r \<noteq> Inl (E ConnectionFault)"
  shows "spec (committed s) = (r, committed (snd (op s)))"
  using outcome [of s] assms by auto

lemma keeps_invariant:
  assumes "\<And>d. I d \<Longrightarrow> I (snd (spec d))" "I (committed s)"
  shows "I (committed (snd (op s)))"
  using all_or_nothing [of s] assms by metis

lemma error_changes_nothing:
  assumes "\<And>d e. fst (spec d) = Inl e \<Longrightarrow> snd (spec d) = d"
    "fst (op s) = Inl e" "e \<noteq> E ConnectionFault"
  shows "committed (snd (op s)) = committed s"
  using returned [OF assms(2)] assms(1) [of "committed s"] assms(3) by auto

lemma reads_only:
  assumes "\<And>d. snd (spec d) = d"
  shows "committed (snd (op s)) = committed s"
  using all_or_nothing [of s] assms by metis

end

lemma store_operationI:
  assumes "finishes E m h" "\<And>d. h (Some w) d d = spec d"
  shows "store_operation E
    (tx_bind (pg_begin E) (\<lambda>_. tx_bind (set_workspace_context E w) (\<lambda>_. m))) spec"
proof
  fix s
  let ?op = "tx_bind (pg_begin E) (\<lambda>_. tx_bind (set_workspace_context E w) (\<lambda>_. m))"
  have fin: "(faults s' = [] \<longrightarrow> faults (snd (m s')) = [])
       \<and> (fst (m s'), committed (snd (m s'))) = spec (committed s')
     \<or> faults s' \<noteq> [] \<and> fst (m s') = Inl (E ConnectionFault)
       \<and> committed (snd (m s')) \<in> {committed s', snd (spec (committed s'))}"
    if "app_workspace_id s' = Some w" "working s' = committed s'" for s'
    using assms(1)[unfolded finishes_def, rule_format, of s'] that assms(2) by simp
  show "(faults s = [] \<longrightarrow> faults (snd (?op s)) = [])
       \<and> (fst (?op s), committed (snd (?op s))) = spec (committed s)
     \<or> faults s \<noteq> [] \<and> fst (?op s) = Inl (E ConnectionFault)
       \<and> committed (snd (?op s)) \<in> {committed s, snd (spec (committed s))}"
  proof (cases "faults s")
    case Nil
    then show ?thesis
      using fin [of "s\<lparr>working := committed s, app_workspace_id := Some w\<rparr>"]
      by (simp add: tx_bind_def pg_begin_def set_workspace_context_def server_does_def)
  next
    case (Cons b bs)
    then show ?thesis
      using fin [of "s\<lparr>working := committed s, faults := tl bs, app_workspace_id := Some w\<rparr>"]
        fin [of "s\<lparr>faults := [], working := committed s, app_workspace_id := Some w\<rparr>"]
      by (cases bs)
         (auto simp: tx_bind_def pg_begin_def set_workspace_context_def server_does_def
           split: trip.splits)
  qed
qed

lemma store_operation_autocommit:
  assumes "\<And>d. spec d = (case f d of Inl e \<Rightarrow> (Inl (E e), d) | Inr (d', x) \<Rightarrow> (Inr x, d'))"
  shows "store_operation E (pg_autocommit E f) spec"
  by unfold_locales
     (auto simp: assms pg_autocommit_def server_does_def
       split: list.splits trip.splits sum.splits)

lemma store_operation_return:
  assumes "\<And>d. spec d = (r, d)"
  shows "store_operation E (tx_lift r) spec"
  by unfold_locales (simp add: assms tx_lift_def)

lemma store_operation_if:
  assumes "b \<Longrightarrow> store_operation E op1 spec" "\<not> b \<Longrightarrow> store_operation E op2 spec"
  shows "store_operation E (if b then op1 else op2) spec"
  using assms by simp

end
