(* ===== verification/Issue_Store.thy ===== *)
theory Issue_Store
  imports Pg
begin

text \<open>
  The issue repository, \<open>repositories/issue.rs\<close>: the write path of \<open>issue.create\<close> with its
  atomic idempotency reservation, the read path, the row mapping and the request fingerprints.
  What the code draws from its environment while it runs (clock readings, fresh UUIDs) is the
  argument \<open>create_draws\<close>.
\<close>

section \<open>Rows and issues\<close>

definition parse_state_category :: "string \<Rightarrow> store_error + issue_state_category" where
  "parse_state_category value =
     (if value = ''open'' then Ok Open
      else if value = ''active'' then Ok Active
      else if value = ''done'' then Ok Done
      else if value = ''cancelled'' then Ok Cancelled
      else Err (InvalidState value))"

definition parse_priority :: "string \<Rightarrow> store_error + issue_priority" where
  "parse_priority value =
     (if value = ''low'' then Ok Low
      else if value = ''medium'' then Ok Medium
      else if value = ''high'' then Ok High
      else if value = ''urgent'' then Ok Urgent
      else Err (InvalidPriority value))"

fun priority_as_str :: "issue_priority \<Rightarrow> string" where
  "priority_as_str Low = ''low''"
| "priority_as_str Medium = ''medium''"
| "priority_as_str High = ''high''"
| "priority_as_str Urgent = ''urgent''"

definition map_issue_row :: "issue_row \<Rightarrow> store_error + issue" where
  "map_issue_row row =
     and_then (parse_state_category (i_state_category row)) (\<lambda>state_category.
     and_then (parse_priority (i_priority row)) (\<lambda>priority.
     Ok \<lparr>iss_id = i_id row, iss_workspace_id = i_workspace_id row,
         iss_project_id = i_project_id row, iss_milestone_id = i_milestone_id row,
         iss_title = i_title row, iss_description = i_description row,
         iss_state_category = state_category, iss_priority = priority,
         iss_archived_at = i_archived_at row, iss_row_version = i_row_version row,
         iss_created_at = i_created_at row, iss_updated_at = i_updated_at row\<rparr>))"

text \<open>The text of a column of an enumeration type always parses.\<close>

lemma parse_state_category_label:
  "issue_state_category_label s \<longleftrightarrow> is_ok (parse_state_category s)"
  by (auto simp: issue_state_category_label_def parse_state_category_def)

lemma parse_priority_label: "issue_priority_label s \<longleftrightarrow> is_ok (parse_priority s)"
  by (auto simp: issue_priority_label_def parse_priority_def)

lemma parse_priority_as_str: "parse_priority (priority_as_str p) = Inr p"
  by (cases p) (simp_all add: parse_priority_def)

lemma priority_as_str_label: "issue_priority_label (priority_as_str p)"
  by (simp add: parse_priority_label parse_priority_as_str)

lemma map_issue_row_Ok:
  assumes "issue_row_ok d row"
  obtains i where "map_issue_row row = Inr i"
  using assms
  by (auto simp: issue_row_ok_def parse_state_category_label parse_priority_label map_issue_row_def
      is_ok_iff)

section \<open>Fingerprints\<close>

definition legacy_v1_fingerprint :: "leaf \<Rightarrow> create_issue_command \<Rightarrow> string" where
  "legacy_v1_fingerprint L command =
     ''project_id='' @ uuid_str L (ci_project_id command)
     @ ''|milestone_id='' @ (case ci_milestone_id command of None \<Rightarrow> ''null''
                           | Some milestone_id \<Rightarrow> uuid_str L milestone_id)
     @ ''|title='' @ ci_title command
     @ ''|description='' @ (case ci_description command of None \<Rightarrow> [] | Some d \<Rightarrow> d)
     @ ''|priority='' @ priority_as_str (ci_priority command)"

definition matches_request_fingerprint :: "leaf \<Rightarrow> string \<Rightarrow> create_issue_command \<Rightarrow> bool" where
  "matches_request_fingerprint L existing command =
     (if existing = ci_request_fingerprint command then True
      else \<not> starts_with existing ''v2:'' \<and> existing = legacy_v1_fingerprint L command)"

section \<open>Idempotency\<close>

record create_issue_write_result =
  wr_issue :: issue
  wr_idempotent_replay :: bool

record idempotency_reservation =
  rsv_inserted :: bool
  rsv_stored_fingerprint :: string
  rsv_stored_payload :: json

record create_draws =
  dr_idempotency_now :: timestamp
  dr_expiry_now :: timestamp
  dr_activity_id :: uuid
  dr_outbox_id :: uuid

definition placeholder_payload :: json where
  "placeholder_payload = JObj [(''status'', JStr ''reserving'')]"

text \<open>\<open>IdempotencyResponse { issue }\<close>.\<close>

definition idempotency_response_ser :: "leaf \<Rightarrow> issue \<Rightarrow> json" where
  "idempotency_response_ser L i = JObj [(''issue'', issue_ser L i)]"

definition idempotency_response_de :: "leaf \<Rightarrow> json \<Rightarrow> issue option" where
  "idempotency_response_de L j =
     (case de_fields [''issue''] j of
        Some [v] \<Rightarrow> de_required (issue_de L) v
      | _ \<Rightarrow> None)"

lemma idempotency_response_de_ser:
  "leaf_ok L \<Longrightarrow> in_i64 (iss_row_version i) \<Longrightarrow>
     idempotency_response_de L (idempotency_response_ser L i) = Some i"
  by (simp add: idempotency_response_de_def idempotency_response_ser_def issue_de_ser)

lemma placeholder_not_a_response: "idempotency_response_de L placeholder_payload = None"
  by (simp add: idempotency_response_de_def placeholder_payload_def)

definition idempotency_row_of ::
  "create_issue_command \<Rightarrow> json \<Rightarrow> timestamp \<Rightarrow> timestamp \<Rightarrow> idempotency_row" where
  "idempotency_row_of command response_payload now expires_at =
     \<lparr>k_workspace_id = ci_workspace_id command,
      k_command_name = command_name_as_str IssueCreateV1,
      k_idempotency_key = ci_idempotency_key command,
      k_request_fingerprint = ci_request_fingerprint command,
      k_response_payload = response_payload,
      k_expires_at = expires_at,
      k_created_at = now\<rparr>"

definition reserve_idempotency ::
  "create_issue_command \<Rightarrow> json \<Rightarrow> timestamp \<Rightarrow> timestamp \<Rightarrow> idempotency_reservation tx" where
  "reserve_idempotency command response_payload now expires_at =
     tx_bind
       (pg_query Sqlx
         (\<lambda>setting d. upsert_idempotency_row setting
            (idempotency_row_of command response_payload now expires_at) d))
       (\<lambda>(inserted, row).
         tx_return \<lparr>rsv_inserted = inserted, rsv_stored_fingerprint = k_request_fingerprint row,
           rsv_stored_payload = k_response_payload row\<rparr>)"

definition branch_on_stored_fingerprint ::
  "leaf \<Rightarrow> create_issue_command \<Rightarrow> idempotency_reservation \<Rightarrow> store_error + create_issue_write_result"
where
  "branch_on_stored_fingerprint L command reservation =
     (if \<not> matches_request_fingerprint L (rsv_stored_fingerprint reservation) command
      then Err IdempotencyConflict
      else and_then
        (ok_or (idempotency_response_de L (rsv_stored_payload reservation))
           (Serde (serde_err L (rsv_stored_payload reservation))))
        (\<lambda>replay. Ok \<lparr>wr_issue = replay, wr_idempotent_replay = True\<rparr>))"

definition update_idempotency_payload :: "create_issue_command \<Rightarrow> json \<Rightarrow> unit tx" where
  "update_idempotency_payload command response_payload =
     pg_execute Sqlx (\<lambda>setting d. Ok (d\<lparr>idempotency :=
       update_where
         (\<lambda>r. tenant_visible setting (k_workspace_id r)
            \<and> k_workspace_id r = ci_workspace_id command
            \<and> k_command_name r = command_name_as_str IssueCreateV1
            \<and> k_idempotency_key r = ci_idempotency_key command)
         (\<lambda>r. r\<lparr>k_response_payload := response_payload\<rparr>)
         (idempotency d)\<rparr>))"

section \<open>The write path\<close>

definition ensure_project_exists :: "create_issue_command \<Rightarrow> unit tx" where
  "ensure_project_exists command =
     tx_bind
       (pg_select Sqlx (\<lambda>setting d. row_exists
          (\<lambda>r. tenant_visible setting (p_workspace_id r)
             \<and> p_id r = ci_project_id command \<and> p_workspace_id r = ci_workspace_id command)
          (projects d)))
       (\<lambda>exists. if \<not> exists then tx_lift (Err ProjectNotFound) else tx_return ())"

definition ensure_milestone_belongs_to_project :: "create_issue_command \<Rightarrow> unit tx" where
  "ensure_milestone_belongs_to_project command =
     (case ci_milestone_id command of
        None \<Rightarrow> tx_return ()
      | Some milestone_id \<Rightarrow>
          tx_bind
            (pg_select Sqlx (\<lambda>setting d. fetch_optional
               (\<lambda>r. tenant_visible setting (m_workspace_id r)
                  \<and> m_id r = milestone_id \<and> m_workspace_id r = ci_workspace_id command)
               (milestones d)))
            (\<lambda>row. case row of
               None \<Rightarrow> tx_lift (Err MilestoneNotFound)
             | Some row \<Rightarrow>
                 if m_project_id row \<noteq> ci_project_id command
                 then tx_lift (Err MilestoneProjectMismatch)
                 else tx_return ()))"

definition issue_row_of :: "create_issue_command \<Rightarrow> timestamp \<Rightarrow> issue_row" where
  "issue_row_of command occurred_at =
     \<lparr>i_id = ci_issue_id command, i_workspace_id = ci_workspace_id command,
      i_project_id = ci_project_id command, i_milestone_id = ci_milestone_id command,
      i_title = ci_title command, i_description = ci_description command,
      i_state_category = ''open'', i_priority = priority_as_str (ci_priority command),
      i_archived_at = None, i_row_version = 0,
      i_created_at = occurred_at, i_updated_at = occurred_at\<rparr>"

definition insert_issue_returning :: "create_issue_command \<Rightarrow> timestamp \<Rightarrow> issue tx" where
  "insert_issue_returning command occurred_at =
     tx_bind
       (pg_query Sqlx (\<lambda>setting d.
          map_ok (\<lambda>d'. (d', issue_row_of command occurred_at))
            (insert_issue_row setting (issue_row_of command occurred_at) d)))
       (\<lambda>row. tx_lift (map_issue_row row))"

definition activity_row_of ::
  "leaf \<Rightarrow> uuid \<Rightarrow> create_issue_command \<Rightarrow> issue_created_event \<Rightarrow> timestamp \<Rightarrow> activity_row" where
  "activity_row_of L activity_id command event occurred_at =
     \<lparr>a_id = activity_id, a_workspace_id = ci_workspace_id command,
      a_project_id = ci_project_id command, a_issue_id = Some (ci_issue_id command),
      a_command_id = ci_command_id command, a_actor_id = ci_actor_id command,
      a_event_type = event_type_as_str IssueCreatedV1,
      a_event_payload = issue_created_ser L event, a_created_at = occurred_at\<rparr>"

definition insert_activity ::
  "leaf \<Rightarrow> uuid \<Rightarrow> create_issue_command \<Rightarrow> issue_created_event \<Rightarrow> timestamp \<Rightarrow> unit tx" where
  "insert_activity L activity_id command event occurred_at =
     pg_execute Sqlx (\<lambda>setting d.
       insert_activity_row setting (activity_row_of L activity_id command event occurred_at) d)"

definition outbox_row_of ::
  "leaf \<Rightarrow> uuid \<Rightarrow> create_issue_command \<Rightarrow> issue_created_event \<Rightarrow> timestamp \<Rightarrow> outbox_row" where
  "outbox_row_of L outbox_id command event occurred_at =
     \<lparr>o_id = outbox_id, o_workspace_id = ci_workspace_id command,
      o_event_id = ice_event_id event, o_event_type = event_type_as_str IssueCreatedV1,
      o_aggregate_type = ''issue'', o_aggregate_id = ci_issue_id command,
      o_occurred_at = occurred_at, o_correlation_id = ci_command_id command,
      o_payload = issue_created_ser L event, o_attempts = 0, o_available_at = occurred_at,
      o_status = Pending, o_leased_at = None, o_leased_until = None, o_lease_token = None,
      o_lease_owner = None, o_published_at = None, o_last_error = None,
      o_created_at = occurred_at, o_updated_at = occurred_at\<rparr>"

definition insert_outbox ::
  "leaf \<Rightarrow> uuid \<Rightarrow> create_issue_command \<Rightarrow> issue_created_event \<Rightarrow> timestamp \<Rightarrow> unit tx" where
  "insert_outbox L outbox_id command event occurred_at =
     pg_execute Sqlx (\<lambda>setting d.
       insert_outbox_row setting (outbox_row_of L outbox_id command event occurred_at) d)"

definition create_issue_transactional ::
  "leaf \<Rightarrow> create_draws \<Rightarrow> auth_context \<Rightarrow> create_issue_command \<Rightarrow> issue_created_event
    \<Rightarrow> create_issue_write_result tx" where
  "create_issue_transactional L draws auth command event =
     (let occurred_at = ice_occurred_at event;
          idempotency_now = dr_idempotency_now draws;
          idempotency_expires = dr_expiry_now draws + duration_days 7
      in
      tx_bind (pg_begin Sqlx) (\<lambda>_.
      tx_bind (set_workspace_context Sqlx (auth_workspace_id auth)) (\<lambda>_.
      tx_bind (reserve_idempotency command placeholder_payload idempotency_now idempotency_expires)
        (\<lambda>reservation.
      if \<not> rsv_inserted reservation then
        tx_bind (pg_commit Sqlx) (\<lambda>_.
        tx_lift (branch_on_stored_fingerprint L command reservation))
      else
        tx_bind (ensure_project_exists command) (\<lambda>_.
        tx_bind (ensure_milestone_belongs_to_project command) (\<lambda>_.
        tx_bind (insert_issue_returning command occurred_at) (\<lambda>issue.
        tx_bind (insert_activity L (dr_activity_id draws) command event occurred_at) (\<lambda>_.
        tx_bind (insert_outbox L (dr_outbox_id draws) command event occurred_at) (\<lambda>_.
        tx_bind (update_idempotency_payload command (idempotency_response_ser L issue)) (\<lambda>_.
        tx_bind (pg_commit Sqlx) (\<lambda>_.
        tx_return \<lparr>wr_issue = issue, wr_idempotent_replay = False\<rparr>)))))))))))"

section \<open>The read path\<close>

definition fetch_issue_in_tx :: "issue_id \<Rightarrow> issue option tx" where
  "fetch_issue_in_tx issue_id =
     tx_bind
       (pg_select Sqlx (\<lambda>setting d. fetch_optional
          (\<lambda>r. tenant_visible setting (i_workspace_id r) \<and> i_id r = issue_id) (issues d)))
       (\<lambda>row. case row of
          None \<Rightarrow> tx_return None
        | Some row \<Rightarrow> tx_lift (map_ok Some (map_issue_row row)))"

definition get_issue :: "auth_context \<Rightarrow> issue_id \<Rightarrow> issue option tx" where
  "get_issue auth issue_id =
     tx_bind (pg_begin Sqlx) (\<lambda>_.
     tx_bind (set_workspace_context Sqlx (auth_workspace_id auth)) (\<lambda>_.
     tx_bind (fetch_issue_in_tx issue_id) (\<lambda>issue.
     tx_bind (pg_commit Sqlx) (\<lambda>_.
     tx_return issue))))"

end
