(* ===== verification/Issue_Correct.thy ===== *)
theory Issue_Correct
  imports Issue_Store
begin

text \<open>
  What the issue repository does: the specification of the write path as one function of the
  committed database, the proof that the transaction implements it under every fault schedule,
  and its consequences: the rows a fresh command writes, the replay of a repeated command, the
  rejection of a changed one.
\<close>

section \<open>The write path as a function of the database\<close>

definition check_project :: "uuid option \<Rightarrow> create_issue_command \<Rightarrow> db \<Rightarrow> store_error + unit" where
  "check_project w c d =
     guard_err (\<not> row_exists
       (\<lambda>r. tenant_visible w (p_workspace_id r)
          \<and> p_id r = ci_project_id c \<and> p_workspace_id r = ci_workspace_id c) (projects d))
       ProjectNotFound"

definition check_milestone :: "uuid option \<Rightarrow> create_issue_command \<Rightarrow> db \<Rightarrow> store_error + unit" where
  "check_milestone w c d =
     (case ci_milestone_id c of
        None \<Rightarrow> Ok ()
      | Some m \<Rightarrow>
          (case fetch_optional
             (\<lambda>r. tenant_visible w (m_workspace_id r) \<and> m_id r = m \<and> m_workspace_id r = ci_workspace_id c)
             (milestones d) of
             None \<Rightarrow> Err MilestoneNotFound
           | Some row \<Rightarrow> guard_err (m_project_id row \<noteq> ci_project_id c) MilestoneProjectMismatch))"

definition opened_issue :: "create_issue_command \<Rightarrow> timestamp \<Rightarrow> issue" where
  "opened_issue c t =
     \<lparr>iss_id = ci_issue_id c, iss_workspace_id = ci_workspace_id c, iss_project_id = ci_project_id c,
      iss_milestone_id = ci_milestone_id c, iss_title = ci_title c,
      iss_description = ci_description c, iss_state_category = Open, iss_priority = ci_priority c,
      iss_archived_at = None, iss_row_version = 0, iss_created_at = t, iss_updated_at = t\<rparr>"

definition key_of :: "create_issue_command \<Rightarrow> uuid \<times> string \<times> string" where
  "key_of c = (ci_workspace_id c, command_name_as_str IssueCreateV1, ci_idempotency_key c)"

definition set_payload :: "uuid option \<Rightarrow> create_issue_command \<Rightarrow> json \<Rightarrow> db \<Rightarrow> db" where
  "set_payload w c p d = d\<lparr>idempotency :=
     update_where (\<lambda>r. tenant_visible w (k_workspace_id r) \<and> k_key r = key_of c)
       (\<lambda>r. r\<lparr>k_response_payload := p\<rparr>) (idempotency d)\<rparr>"

definition create_issue_writes ::
  "leaf \<Rightarrow> create_draws \<Rightarrow> uuid option \<Rightarrow> create_issue_command \<Rightarrow> issue_created_event \<Rightarrow> db
    \<Rightarrow> store_error + (db \<times> create_issue_write_result)" where
  "create_issue_writes L draws w c e d =
     (let t = ice_occurred_at e in
      and_then (check_project w c d) (\<lambda>_.
      and_then (check_milestone w c d) (\<lambda>_.
      and_then (map_err Sqlx (insert_issue_row w (issue_row_of c t) d)) (\<lambda>d1.
      and_then (map_err Sqlx (insert_activity_row w (activity_row_of L (dr_activity_id draws) c e t) d1))
        (\<lambda>d2.
      and_then (map_err Sqlx (insert_outbox_row w (outbox_row_of L (dr_outbox_id draws) c e t) d2))
        (\<lambda>d3.
      Ok (set_payload w c (idempotency_response_ser L (opened_issue c t)) d3,
          \<lparr>wr_issue = opened_issue c t, wr_idempotent_replay = False\<rparr>)))))))"

definition create_issue_spec ::
  "leaf \<Rightarrow> create_draws \<Rightarrow> auth_context \<Rightarrow> create_issue_command \<Rightarrow> issue_created_event \<Rightarrow> db
    \<Rightarrow> (store_error + create_issue_write_result) \<times> db" where
  "create_issue_spec L draws auth c e d =
     (let w = Some (auth_workspace_id auth);
          fresh = idempotency_row_of c placeholder_payload (dr_idempotency_now draws)
                    (dr_expiry_now draws + duration_days 7)
      in case upsert_idempotency_row w fresh d of
           Inl er \<Rightarrow> (Err (Sqlx er), d)
         | Inr (d1, inserted, stored) \<Rightarrow>
             if \<not> inserted then
               (branch_on_stored_fingerprint L c
                  \<lparr>rsv_inserted = False, rsv_stored_fingerprint = k_request_fingerprint stored,
                   rsv_stored_payload = k_response_payload stored\<rparr>, d1)
             else case create_issue_writes L draws w c e d1 of
                    Inl er \<Rightarrow> (Err er, d)
                  | Inr (d2, out) \<Rightarrow> (Ok out, d2))"

section \<open>The transaction implements it\<close>

lemma map_opened_row: "map_issue_row (issue_row_of c t) = Inr (opened_issue c t)"
  by (simp add: map_issue_row_def issue_row_of_def opened_issue_def parse_state_category_def
      parse_priority_as_str)

lemma runs_reserve:
  "runs Sqlx (reserve_idempotency c p now ex)
     (\<lambda>w d. case upsert_idempotency_row w (idempotency_row_of c p now ex) d of
        Inl er \<Rightarrow> Inl (Sqlx er)
      | Inr (d', inserted, row) \<Rightarrow>
          Inr (d', \<lparr>rsv_inserted = inserted, rsv_stored_fingerprint = k_request_fingerprint row,
                   rsv_stored_payload = k_response_payload row\<rparr>))"
  unfolding reserve_idempotency_def
  by (rule runs_cong, rule runs_bind, rule runs_query, rule runs_prod, rule runs_return)
     (simp split: sum.splits)

lemma runs_project:
  "runs Sqlx (ensure_project_exists c) (\<lambda>w d. map_ok (Pair d) (check_project w c d))"
  unfolding ensure_project_exists_def
  by (rule runs_cong, rule runs_bind, rule runs_select, rule runs_if, rule runs_lift, rule runs_return)
     (simp add: check_project_def guard_err_def)

lemma runs_milestone:
  "runs Sqlx (ensure_milestone_belongs_to_project c) (\<lambda>w d. map_ok (Pair d) (check_milestone w c d))"
  unfolding ensure_milestone_belongs_to_project_def
  by (rule runs_cong, rule runs_option, rule runs_return, rule runs_bind, rule runs_select,
      rule runs_option, rule runs_lift, rule runs_if, rule runs_lift, rule runs_return)
     (simp add: check_milestone_def guard_err_def split: option.splits)

lemma runs_insert_issue:
  "runs Sqlx (insert_issue_returning c t)
     (\<lambda>w d. map_ok (\<lambda>d'. (d', opened_issue c t)) (map_err Sqlx (insert_issue_row w (issue_row_of c t) d)))"
  unfolding insert_issue_returning_def
  by (rule runs_cong, rule runs_bind, rule runs_query, rule runs_lift)
     (case_tac "insert_issue_row w (issue_row_of c t) d"; simp add: map_opened_row)

lemma runs_payload:
  "runs Sqlx (update_idempotency_payload c p) (\<lambda>w d. Inr (set_payload w c p d, ()))"
  unfolding update_idempotency_payload_def
  by (rule runs_cong, rule runs_execute) (simp add: set_payload_def k_key_def key_of_def conj_ac)

interpretation create_issue_op: store_operation Sqlx
  "create_issue_transactional L draws auth c e" "create_issue_spec L draws auth c e" for L draws auth c e
  unfolding create_issue_transactional_def Let_def insert_activity_def insert_outbox_def
  apply (rule store_operationI)
   apply (rule finishes_commit finishes_commit_return finishes_early runs_reserve runs_project
     runs_milestone runs_insert_issue runs_payload runs_execute finishes_bind finishes_if)+
  apply (auto simp: create_issue_spec_def create_issue_writes_def Let_def result_simps split: sum.splits)
  done

section \<open>The read path\<close>

definition get_issue_spec :: "auth_context \<Rightarrow> issue_id \<Rightarrow> db \<Rightarrow> (store_error + issue option) \<times> db" where
  "get_issue_spec auth issue_id d =
     (case fetch_optional
        (\<lambda>r. tenant_visible (Some (auth_workspace_id auth)) (i_workspace_id r) \<and> i_id r = issue_id)
        (issues d) of
        None \<Rightarrow> Ok None
      | Some row \<Rightarrow> map_ok Some (map_issue_row row), d)"

lemma runs_fetch_issue:
  "runs Sqlx (fetch_issue_in_tx issue_id)
     (\<lambda>w d. map_ok (Pair d) (case fetch_optional
        (\<lambda>r. tenant_visible w (i_workspace_id r) \<and> i_id r = issue_id) (issues d) of
          None \<Rightarrow> Ok None | Some row \<Rightarrow> map_ok Some (map_issue_row row)))"
  unfolding fetch_issue_in_tx_def
  by (rule runs_cong, rule runs_bind, rule runs_select, rule runs_option, rule runs_return,
      rule runs_lift) (simp split: option.splits)

interpretation get_issue_op: store_operation Sqlx
  "get_issue auth issue_id" "get_issue_spec auth issue_id" for auth issue_id
  unfolding get_issue_def
  by (rule store_operationI, rule finishes_bind, rule runs_fetch_issue, rule finishes_commit_return)
     (auto simp: get_issue_spec_def result_simps split: sum.splits option.splits)

section \<open>What the specification does to the tables\<close>

text \<open>A fresh command that succeeds: the rows it leaves.\<close>

definition final_idempotency_row ::
  "leaf \<Rightarrow> create_draws \<Rightarrow> create_issue_command \<Rightarrow> timestamp \<Rightarrow> idempotency_row" where
  "final_idempotency_row L draws c t =
     idempotency_row_of c (idempotency_response_ser L (opened_issue c t))
       (dr_idempotency_now draws) (dr_expiry_now draws + duration_days 7)"

definition with_created_rows ::
  "leaf \<Rightarrow> create_draws \<Rightarrow> create_issue_command \<Rightarrow> issue_created_event \<Rightarrow> db \<Rightarrow> db" where
  "with_created_rows L draws c e d = (let t = ice_occurred_at e in d\<lparr>
     issues := issues d @ [issue_row_of c t],
     activities := activities d @ [activity_row_of L (dr_activity_id draws) c e t],
     outbox := outbox d @ [outbox_row_of L (dr_outbox_id draws) c e t],
     idempotency := idempotency d @ [final_idempotency_row L draws c t]\<rparr>)"

text \<open>When a command with a fresh key is admitted.\<close>

definition milestone_admissible :: "create_issue_command \<Rightarrow> db \<Rightarrow> bool" where
  "milestone_admissible c d \<longleftrightarrow>
     (case ci_milestone_id c of None \<Rightarrow> True
      | Some m \<Rightarrow> (case fetch_optional (\<lambda>r. m_id r = m \<and> m_workspace_id r = ci_workspace_id c)
                     (milestones d) of
                   None \<Rightarrow> False | Some row \<Rightarrow> m_project_id row = ci_project_id c))"

definition create_issue_admissible ::
  "create_draws \<Rightarrow> auth_context \<Rightarrow> create_issue_command \<Rightarrow> issue_created_event \<Rightarrow> db \<Rightarrow> bool" where
  "create_issue_admissible draws auth c e d \<longleftrightarrow>
     ci_workspace_id c = auth_workspace_id auth \<and> command_row_checks c
     \<and> workspace_exists d (ci_workspace_id c)
     \<and> project_exists d (ci_workspace_id c) (ci_project_id c)
     \<and> milestone_admissible c d
     \<and> \<not> row_exists (\<lambda>r. i_id r = ci_issue_id c) (issues d)
     \<and> \<not> row_exists (\<lambda>r. a_id r = dr_activity_id draws) (activities d)
     \<and> \<not> row_exists (\<lambda>r. o_id r = dr_outbox_id draws) (outbox d)
     \<and> \<not> row_exists (\<lambda>r. o_event_id r = ice_event_id e) (outbox d)"

abbreviation stored_record :: "create_issue_command \<Rightarrow> db \<Rightarrow> idempotency_row option" where
  "stored_record c d \<equiv> fetch_optional (\<lambda>r. k_key r = key_of c) (idempotency d)"

lemma k_key_row_of: "k_key (idempotency_row_of c p now ex) = key_of c"
  by (simp add: k_key_def key_of_def idempotency_row_of_def)

lemma final_row_fields [simp]:
  "k_request_fingerprint (final_idempotency_row L draws c t) = ci_request_fingerprint c"
  "k_response_payload (final_idempotency_row L draws c t) = idempotency_response_ser L (opened_issue c t)"
  by (simp_all add: final_idempotency_row_def idempotency_row_of_def)

lemma idempotency_row_checks:
  "idempotency_checks (idempotency_row_of c p now ex)
     \<longleftrightarrow> text_between 1 128 (ci_idempotency_key c) \<and> text_between 1 128 (ci_request_fingerprint c)"
  by (simp add: idempotency_checks_def idempotency_row_of_def text_between_def char_length_def
      continuation_def byte_def)

lemma set_payload_fresh:
  assumes "\<not> row_exists (\<lambda>r. k_key r = key_of c) (idempotency d)" "k_key fresh = key_of c"
  shows "update_where (\<lambda>r. tenant_visible (Some (ci_workspace_id c)) (k_workspace_id r) \<and> k_key r = key_of c)
      (\<lambda>r. r\<lparr>k_response_payload := p\<rparr>) (idempotency d @ [fresh])
    = idempotency d @ [fresh\<lparr>k_response_payload := p\<rparr>]"
  using assms by (auto simp: update_where_def row_exists_iff tenant_visible_def k_key_def key_of_def
      intro!: map_idI)

lemma check_project_Ok:
  "check_project (Some (ci_workspace_id c)) c d = Inr u
     \<longleftrightarrow> project_exists d (ci_workspace_id c) (ci_project_id c)"
  by (auto simp: check_project_def result_simps project_exists_def row_exists_iff tenant_visible_def)

lemma check_milestone_Ok:
  "check_milestone (Some (ci_workspace_id c)) c d = Inr u \<longleftrightarrow> milestone_admissible c d"
proof -
  have *: "(\<lambda>r. tenant_visible (Some (ci_workspace_id c)) (m_workspace_id r) \<and> m_id r = m
             \<and> m_workspace_id r = ci_workspace_id c)
      = (\<lambda>r. m_id r = m \<and> m_workspace_id r = ci_workspace_id c)" for m
    by (auto simp: tenant_visible_def)
  show ?thesis
    unfolding check_milestone_def milestone_admissible_def *
    by (simp add: result_simps split: option.splits)
qed

lemma milestone_admissible_exists:
  "milestone_admissible c d \<Longrightarrow> ci_milestone_id c = Some m \<Longrightarrow>
     milestone_exists d (ci_workspace_id c) m"
  by (auto simp: milestone_admissible_def milestone_exists_def row_exists_iff
      dest: fetch_optional_SomeD split: option.splits)

lemma issue_row_of_ok:
  assumes "milestone_admissible c d"
  shows "issue_row_ok d (issue_row_of c t) \<longleftrightarrow>
     text_between 1 200 (ci_title c)
     \<and> (\<forall>t. ci_description c = Some t \<longrightarrow> text_at_most 4000 t)
     \<and> workspace_exists d (ci_workspace_id c) \<and> project_exists d (ci_workspace_id c) (ci_project_id c)"
  using assms milestone_admissible_exists [of c d]
  by (auto simp: issue_row_ok_def issue_row_of_def issue_checks_def priority_as_str_label
      issue_state_category_label_def split: option.splits)

lemma event_texts:
  "text_between (Suc 0) 128 (event_type_as_str IssueCreatedV1)" "text_between (Suc 0) 64 ''issue''"
  by (simp_all add: text_between_def char_length_def continuation_def byte_def)

lemma activity_row_of_ok:
  "activity_row_ok d (activity_row_of L a c e t) \<longleftrightarrow>
     workspace_exists d (ci_workspace_id c) \<and> project_exists d (ci_workspace_id c) (ci_project_id c)
     \<and> issue_exists d (ci_workspace_id c) (ci_issue_id c)"
  by (simp add: activity_row_ok_def activity_row_of_def activity_checks_def event_texts
      del: event_type_as_str.simps)

lemma outbox_row_of_ok:
  "outbox_row_ok d (outbox_row_of L b c e t) \<longleftrightarrow> workspace_exists d (ci_workspace_id c)"
  by (simp add: outbox_row_ok_def outbox_row_of_def outbox_checks_def event_texts
      del: event_type_as_str.simps)

text \<open>The writes succeed exactly when every statement's condition holds.\<close>

lemma create_issue_writes_Ok:
  "create_issue_writes L draws (Some (ci_workspace_id c)) c e d = Inr (d', out) \<longleftrightarrow>
     (let t = ice_occurred_at e in
     project_exists d (ci_workspace_id c) (ci_project_id c) \<and> milestone_admissible c d
     \<and> \<not> row_exists (\<lambda>r. i_id r = ci_issue_id c) (issues d)
     \<and> issue_row_ok d (issue_row_of c t)
     \<and> \<not> row_exists (\<lambda>r. a_id r = dr_activity_id draws) (activities d)
     \<and> \<not> row_exists (\<lambda>r. o_id r = dr_outbox_id draws) (outbox d)
     \<and> \<not> row_exists (\<lambda>r. o_event_id r = ice_event_id e) (outbox d)
     \<and> d' = set_payload (Some (ci_workspace_id c)) c (idempotency_response_ser L (opened_issue c t))
             (d\<lparr>issues := issues d @ [issue_row_of c t],
                activities := activities d @ [activity_row_of L (dr_activity_id draws) c e t],
                outbox := outbox d @ [outbox_row_of L (dr_outbox_id draws) c e t]\<rparr>)
     \<and> out = \<lparr>wr_issue = opened_issue c t, wr_idempotent_replay = False\<rparr>)"
proof -
  have ids: "i_id (issue_row_of c t) = ci_issue_id c" "i_workspace_id (issue_row_of c t) = ci_workspace_id c"
    "a_id (activity_row_of L a c e t) = a" "a_workspace_id (activity_row_of L a c e t) = ci_workspace_id c"
    "o_id (outbox_row_of L a c e t) = a" "o_event_id (outbox_row_of L a c e t) = ice_event_id e"
    "o_workspace_id (outbox_row_of L a c e t) = ci_workspace_id c" for t a
    by (simp_all add: issue_row_of_def activity_row_of_def outbox_row_of_def)
  show ?thesis
    by (auto simp: create_issue_writes_def Let_def result_simps check_project_Ok check_milestone_Ok
        insert_issue_row_Ok insert_activity_row_Ok insert_outbox_row_Ok ids activity_row_of_ok
        outbox_row_of_ok issue_row_of_ok exists_defs row_exists_append row_exists_disj row_exists_single)
qed

lemma created_rows_of_writes:
  assumes "stored_record c d = None"
  shows "set_payload (Some (ci_workspace_id c)) c (idempotency_response_ser L (opened_issue c t))
      (d\<lparr>idempotency := idempotency d @ [idempotency_row_of c placeholder_payload (dr_idempotency_now draws)
            (dr_expiry_now draws + duration_days 7)],
         issues := issues d @ [issue_row_of c t],
         activities := activities d @ [activity_row_of L (dr_activity_id draws) c e t],
         outbox := outbox d @ [outbox_row_of L (dr_outbox_id draws) c e t]\<rparr>)
    = d\<lparr>issues := issues d @ [issue_row_of c t],
        activities := activities d @ [activity_row_of L (dr_activity_id draws) c e t],
        outbox := outbox d @ [outbox_row_of L (dr_outbox_id draws) c e t],
        idempotency := idempotency d @ [final_idempotency_row L draws c t]\<rparr>"
  using assms
  by (simp add: set_payload_def fetch_optional_None_exists set_payload_fresh k_key_row_of
      final_idempotency_row_def) (simp add: idempotency_row_of_def)

lemma create_issue_spec_fresh:
  assumes "stored_record c d = None"
  shows "create_issue_admissible draws auth c e d \<Longrightarrow>
      create_issue_spec L draws auth c e d =
        (Ok \<lparr>wr_issue = opened_issue c (ice_occurred_at e), wr_idempotent_replay = False\<rparr>,
         with_created_rows L draws c e d)"
    and "\<not> create_issue_admissible draws auth c e d \<Longrightarrow>
      \<exists>er. create_issue_spec L draws auth c e d = (Err er, d)"
proof -
  let ?r = "idempotency_row_of c placeholder_payload (dr_idempotency_now draws)
              (dr_expiry_now draws + duration_days 7)"
  let ?d1 = "d\<lparr>idempotency := idempotency d @ [?r]\<rparr>"
  let ?w = "Some (auth_workspace_id auth)"
  have upsert: "upsert_idempotency_row ?w ?r d = Inr (d1, ins, stored) \<longleftrightarrow>
      ci_workspace_id c = auth_workspace_id auth
      \<and> text_between 1 128 (ci_idempotency_key c) \<and> text_between 1 128 (ci_request_fingerprint c)
      \<and> workspace_exists d (ci_workspace_id c) \<and> ins \<and> stored = ?r \<and> d1 = ?d1" for d1 ins stored
    using assms
    by (auto simp: upsert_idempotency_row_Ok k_key_row_of idempotency_row_checks)
       (auto simp: idempotency_row_of_def)
  have frame: "project_exists ?d1 = project_exists d" "workspace_exists ?d1 = workspace_exists d"
    "milestone_admissible c ?d1 = milestone_admissible c d"
    by (simp_all add: exists_defs milestone_admissible_def fun_eq_iff cong: option.case_cong)
  have adm: "create_issue_admissible draws auth c e d \<longleftrightarrow>
      ci_workspace_id c = auth_workspace_id auth
      \<and> text_between 1 128 (ci_idempotency_key c) \<and> text_between 1 128 (ci_request_fingerprint c)
      \<and> workspace_exists d (ci_workspace_id c)
      \<and> (\<exists>d' out. create_issue_writes L draws (Some (ci_workspace_id c)) c e ?d1 = Inr (d', out))"
    by (auto simp: create_issue_admissible_def create_issue_writes_Ok Let_def issue_row_of_ok frame
        command_row_checks_def)
  { assume a: "create_issue_admissible draws auth c e d"
    then have u: "upsert_idempotency_row ?w ?r d = Inr (?d1, True, ?r)"
      unfolding upsert adm by blast
    from a obtain d' out where
      w: "create_issue_writes L draws (Some (ci_workspace_id c)) c e ?d1 = Inr (d', out)"
      by (auto simp: adm)
    from w have out: "out = \<lparr>wr_issue = opened_issue c (ice_occurred_at e), wr_idempotent_replay = False\<rparr>"
      "d' = with_created_rows L draws c e d"
      by (simp_all add: create_issue_writes_Ok Let_def with_created_rows_def
          created_rows_of_writes assms)
    from a have "ci_workspace_id c = auth_workspace_id auth"
      by (simp add: create_issue_admissible_def)
    with w u out show "create_issue_spec L draws auth c e d =
        (Ok \<lparr>wr_issue = opened_issue c (ice_occurred_at e), wr_idempotent_replay = False\<rparr>,
         with_created_rows L draws c e d)"
      by (simp add: create_issue_spec_def Let_def) }
  { assume a: "\<not> create_issue_admissible draws auth c e d"
    show "\<exists>er. create_issue_spec L draws auth c e d = (Err er, d)"
    proof (cases "upsert_idempotency_row ?w ?r d")
      case (Inl er)
      then show ?thesis by (simp add: create_issue_spec_def Let_def)
    next
      case (Inr p)
      then obtain d1 ins stored where
        u: "upsert_idempotency_row ?w ?r d = Inr (d1, ins, stored)" by (cases p) auto
      with a obtain er where "create_issue_writes L draws ?w c e ?d1 = Inl er"
        unfolding upsert adm
        by (cases "create_issue_writes L draws (Some (ci_workspace_id c)) c e ?d1") auto
      moreover from u have "ins" "d1 = ?d1" unfolding upsert by blast+
      ultimately show ?thesis
        using u by (simp add: create_issue_spec_def Let_def)
    qed }
qed

text \<open>The created rows satisfy the schema.\<close>

lemma with_created_rows_schema:
  assumes "schema_ok d" "stored_record c d = None" "create_issue_admissible draws auth c e d"
  shows "schema_ok (with_created_rows L draws c e d)"
proof -
  let ?t = "ice_occurred_at e"
  let ?w = "Some (ci_workspace_id c)"
  let ?k = "final_idempotency_row L draws c ?t"
  let ?i = "issue_row_of c ?t" and ?a = "activity_row_of L (dr_activity_id draws) c e ?t"
    and ?o = "outbox_row_of L (dr_outbox_id draws) c e ?t"
  note adm = assms(3)[unfolded create_issue_admissible_def command_row_checks_def, THEN conjunct2]
  let ?d1 = "d\<lparr>idempotency := idempotency d @ [?k]\<rparr>"
  let ?d2 = "?d1\<lparr>issues := issues d @ [?i]\<rparr>"
  let ?d3 = "?d2\<lparr>activities := activities d @ [?a]\<rparr>"
  let ?d4 = "?d3\<lparr>outbox := outbox d @ [?o]\<rparr>"
  have keys: "k_key ?k = key_of c" "k_workspace_id ?k = ci_workspace_id c" "idempotency_checks ?k"
    using adm by (simp_all add: final_idempotency_row_def k_key_row_of idempotency_row_checks)
      (simp add: idempotency_row_of_def)
  have s1: "schema_ok ?d1"
    using assms(1,2) adm keys
    by (intro insert_idempotency_row_schema) (auto simp: fetch_optional_None_exists)
  have "milestone_admissible c ?d1 = milestone_admissible c d"
    by (simp add: milestone_admissible_def cong: option.case_cong)
  then have ok: "issue_row_ok ?d1 ?i"
    using adm by (simp add: issue_row_of_ok exists_defs)
  have "insert_issue_row ?w ?i ?d1 = Inr ?d2"
    using adm ok by (simp add: insert_issue_row_Ok) (simp add: issue_row_of_def)
  from insert_issue_row_schema [OF s1 this] have s2: "schema_ok ?d2" .
  have "activity_row_ok ?d2 ?a"
    using adm by (simp add: activity_row_of_ok exists_defs row_exists_append) (simp add: issue_row_of_def)
  then have "insert_activity_row ?w ?a ?d2 = Inr ?d3"
    using adm by (simp add: insert_activity_row_Ok) (simp add: activity_row_of_def)
  from insert_activity_row_schema [OF s2 this] have s3: "schema_ok ?d3" .
  have "outbox_row_ok ?d3 ?o"
    using adm by (simp add: outbox_row_of_ok exists_defs)
  then have "insert_outbox_row ?w ?o ?d3 = Inr ?d4"
    using adm by (simp add: insert_outbox_row_Ok) (simp add: outbox_row_of_def)
  from insert_outbox_row_schema [OF s3 this] have "schema_ok ?d4" .
  moreover have "with_created_rows L draws c e d = ?d4"
    by (rule db.equality) (simp_all add: with_created_rows_def Let_def)
  ultimately show ?thesis by simp
qed

text \<open>What the specification leaves committed: the database as it was, or the created rows.\<close>

lemma create_issue_spec_cases:
  obtains "snd (create_issue_spec L draws auth c e d) = d"
  | "stored_record c d = None" "create_issue_admissible draws auth c e d"
    "snd (create_issue_spec L draws auth c e d) = with_created_rows L draws c e d"
proof (cases "stored_record c d")
  case None
  then show ?thesis
    using create_issue_spec_fresh [OF None, of draws auth e L] that
    by (cases "create_issue_admissible draws auth c e d") auto
next
  case (Some r)
  then have "snd (create_issue_spec L draws auth c e d) = d"
    by (auto simp: create_issue_spec_def Let_def upsert_idempotency_row_def k_key_row_of)
  then show ?thesis by (rule that(1))
qed

lemma create_issue_spec_schema:
  "schema_ok d \<Longrightarrow> schema_ok (snd (create_issue_spec L draws auth c e d))"
  by (rule create_issue_spec_cases [of L draws auth c e d]) (simp_all add: with_created_rows_schema)

end
