(* ===== verification/Demo.thy ===== *)
theory Demo
  imports Issue_Store
begin

text \<open>
  A small database and a request on it, on which the theorems are applied to concrete runs: one
  workspace with a workflow version and a project, its actor, an issue command with its event.
\<close>

section \<open>A small database\<close>

definition demo_db :: db where
  "demo_db = empty_db\<lparr>
     workspaces := [\<lparr>w_id = 1, w_name = ''acme'', w_shard_bucket = 1, w_row_version = 0,
                     w_created_at = 0, w_updated_at = 0\<rparr>],
     workflow_versions := [\<lparr>wv_id = 2, wv_workspace_id = 1, wv_name = ''default'', wv_version = 1,
                     wv_checksum = ''sum'', wv_states = JArr [], wv_transitions = JArr [],
                     wv_created_at = 0\<rparr>],
     projects := [\<lparr>p_id = 3, p_workspace_id = 1, p_name = ''core'', p_workflow_version_id = 2,
                   p_row_version = 0, p_created_at = 0, p_updated_at = 0\<rparr>]\<rparr>"

definition demo_auth :: auth_context where
  "demo_auth = \<lparr>auth_workspace_id = 1, auth_actor_id = 9\<rparr>"

definition demo_command :: create_issue_command where
  "demo_command = \<lparr>ci_command_id = 20, ci_idempotency_key = ''key-1'',
     ci_request_fingerprint = ''v2:aa'', ci_issue_id = 21, ci_workspace_id = 1, ci_project_id = 3,
     ci_milestone_id = None, ci_title = ''Crash'', ci_description = None, ci_priority = High,
     ci_actor_id = 9\<rparr>"

definition demo_event :: issue_created_event where
  "demo_event = \<lparr>ice_event_id = 22, ice_issue_id = 21, ice_workspace_id = 1, ice_project_id = 3,
     ice_milestone_id = None, ice_actor_id = 9, ice_occurred_at = 50, ice_title = ''Crash'',
     ice_description = None, ice_priority = High\<rparr>"

definition demo_draws :: create_draws where
  "demo_draws = \<lparr>dr_idempotency_now = 51, dr_expiry_now = 52, dr_activity_id = 23,
     dr_outbox_id = 24\<rparr>"

definition demo_session :: "trip list \<Rightarrow> db \<Rightarrow> session" where
  "demo_session ts d = \<lparr>committed = d, working = d, app_workspace_id = None, faults = ts\<rparr>"

lemma demo_session_fields [simp]:
  "committed (demo_session ts d) = d" "faults (demo_session ts d) = ts"
  by (simp_all add: demo_session_def)

lemmas demo_defs = demo_db_def demo_auth_def demo_command_def demo_event_def demo_draws_def
  demo_session_def empty_db_def

lemma text_between_simps [simp]:
  "char_length [] = 0"
  "char_length (c # s) = (if continuation c then char_length s else Suc (char_length s))"
  by (simp_all add: char_length_def)

lemma demo_db_ok: "schema_ok demo_db"
  by (simp add: schema_ok_def table_ok_defs demo_db_def empty_db_def unique_key_def checks_defs
      text_between_def continuation_def byte_def exists_defs row_exists_def)

end
