(* ===== verification/Issue_Theorems.thy ===== *)
theory Issue_Theorems
  imports Issue_Correct Demo
begin

text \<open>
  The guarantees of the issue write path: which commands are admitted and what they write, atomicity
  under connection faults, replay and conflict on a repeated key, at most one write per key over
  any number of attempts, reads confined to the tenant.
\<close>

section \<open>The small database admits its command\<close>

lemma demo_admissible: "create_issue_admissible demo_draws demo_auth demo_command demo_event demo_db"
  by (simp add: create_issue_admissible_def demo_defs command_row_checks_def text_between_def
      continuation_def byte_def exists_defs milestone_admissible_def row_exists_iff)

lemma demo_fresh: "stored_record demo_command demo_db = None"
  by (simp add: demo_defs fetch_optional_def)

section \<open>Admission and effect of a fresh command\<close>

text \<open>
  C7: a command whose idempotency key is new, sent without faults, is admitted exactly when its
  tenant, texts, project, milestone and identifiers pass; then it returns the new issue, marked as
  no replay, and commits exactly one issue, one activity, one pending outbox row and one
  idempotency record with the final response; otherwise it returns an error and changes nothing.
\<close>

theorem create_issue_fresh_exact:
  assumes "faults s = []" "stored_record c (committed s) = None"
  shows "let (r, s') = create_issue_transactional L draws auth c e s in
    if create_issue_admissible draws auth c e (committed s)
    then r = Ok \<lparr>wr_issue = opened_issue c (ice_occurred_at e), wr_idempotent_replay = False\<rparr>
         \<and> committed s' = with_created_rows L draws c e (committed s)
    else (\<exists>er. r = Err er) \<and> committed s' = committed s"
  using create_issue_spec_fresh [OF assms(2), of draws auth e L]
    create_issue_op.fault_free [OF assms(1), of L draws auth c e]
  by (cases "create_issue_admissible draws auth c e (committed s)") (auto simp: case_prod_beta)

theorem create_issue_fresh_exact_witness:
  "let (r, s') = create_issue_transactional bits_leaf demo_draws demo_auth demo_command demo_event
         (demo_session [] demo_db) in
     (\<exists>out. r = Ok out \<and> \<not> wr_idempotent_replay out) \<and> length (issues (committed s')) = 1"
proof -
  have "committed (demo_session [] demo_db) = demo_db" by (simp add: demo_session_def)
  then show ?thesis
    using create_issue_fresh_exact [of "demo_session [] demo_db" demo_command bits_leaf demo_draws
        demo_auth demo_event] demo_admissible demo_fresh
    by (auto simp: demo_session_def with_created_rows_def Let_def demo_db_def empty_db_def)
qed

section \<open>Atomicity\<close>

lemma create_issue_spec_stored:
  assumes "stored_record c d = Some r"
  shows "snd (create_issue_spec L draws auth c e d) = d"
  using assms
  by (auto simp: create_issue_spec_def Let_def upsert_idempotency_row_def k_key_row_of)

lemma create_issue_spec_replay_flag:
  assumes "stored_record c d = Some r" "fst (create_issue_spec L draws auth c e d) = Inr out"
  shows "wr_idempotent_replay out"
  using assms
  by (auto simp: create_issue_spec_def Let_def upsert_idempotency_row_def k_key_row_of
      branch_on_stored_fingerprint_def result_simps split: if_splits)

text \<open>The possible outcomes of a command on any fault schedule.\<close>

lemma create_issue_cases:
  obtains (fresh) out where "fst (create_issue_transactional L draws auth c e s) = Ok out"
      "\<not> wr_idempotent_replay out" "wr_issue out = opened_issue c (ice_occurred_at e)"
      "stored_record c (committed s) = None" "create_issue_admissible draws auth c e (committed s)"
      "committed (snd (create_issue_transactional L draws auth c e s))
         = with_created_rows L draws c e (committed s)"
  | (replay) out where "fst (create_issue_transactional L draws auth c e s) = Ok out"
      "wr_idempotent_replay out"
      "committed (snd (create_issue_transactional L draws auth c e s)) = committed s"
  | (refused) er where "fst (create_issue_transactional L draws auth c e s) = Err er"
      "committed (snd (create_issue_transactional L draws auth c e s)) = committed s"
  | (unanswered) "fst (create_issue_transactional L draws auth c e s) = Err (Sqlx ConnectionFault)"
      "stored_record c (committed s) = None" "create_issue_admissible draws auth c e (committed s)"
      "committed (snd (create_issue_transactional L draws auth c e s))
         = with_created_rows L draws c e (committed s)"
proof (cases "stored_record c (committed s)")
  case None
  note spec = create_issue_spec_fresh [OF None, of draws auth e L]
  show ?thesis
  proof (cases "create_issue_admissible draws auth c e (committed s)")
    case True
    show ?thesis
    proof (cases rule: create_issue_op.answered_or_lost [of L draws auth c e s])
      case answered
      then show ?thesis
        by (intro fresh [OF _ _ _ None True]) (auto simp: spec(1) [OF True])
    next
      case nothing
      then show ?thesis by (rule refused)
    next
      case everything
      with unanswered [OF _ None True] show ?thesis by (simp add: spec(1) [OF True])
    qed
  next
    case False
    from spec(2) [OF False] obtain er where
      "create_issue_spec L draws auth c e (committed s) = (Err er, committed s)" by blast
    then show ?thesis
      by (cases rule: create_issue_op.answered_or_lost [of L draws auth c e s]) (auto intro: refused)
  qed
next
  case (Some r)
  have d: "committed (snd (create_issue_transactional L draws auth c e s)) = committed s"
    using create_issue_op.all_or_nothing [of L draws auth c e s] create_issue_spec_stored [OF Some] by metis
  show ?thesis
  proof (cases "fst (create_issue_transactional L draws auth c e s)")
    case (Inl er)
    with d show ?thesis by (rule refused [rotated])
  next
    case (Inr out)
    then have "fst (create_issue_spec L draws auth c e (committed s)) = Inr out"
      using create_issue_op.returned [of L draws auth c e s "Inr out"] by simp
    with create_issue_spec_replay_flag [OF Some] have "wr_idempotent_replay out" by blast
    from replay [OF Inr this d] show ?thesis .
  qed
qed

text \<open>
  C1: on any fault schedule a command either reports a new issue with all its rows committed, or
  reports a replay with nothing changed, or reports an error with nothing changed; only when the
  connection failed may the complete effect be committed behind an error, and never a part of it.
\<close>

theorem create_issue_atomic:
  "let (r, s') = create_issue_transactional L draws auth c e s;
       complete = (stored_record c (committed s) = None
                   \<and> create_issue_admissible draws auth c e (committed s)
                   \<and> committed s' = with_created_rows L draws c e (committed s)) in
   case r of
     Inr out \<Rightarrow> if wr_idempotent_replay out then committed s' = committed s
                else complete \<and> wr_issue out = opened_issue c (ice_occurred_at e)
   | Inl er \<Rightarrow> committed s' = committed s \<or> er = Sqlx ConnectionFault \<and> complete"
  by (cases rule: create_issue_cases [of L draws auth c e s]) (simp_all add: case_prod_beta)

section \<open>Retries\<close>

lemma stored_after_write:
  assumes "stored_record c d = None" "key_of c' = key_of c"
  shows "stored_record c' (with_created_rows L draws c e d)
    = Some (final_idempotency_row L draws c (ice_occurred_at e))"
  using assms
  by (simp add: with_created_rows_def Let_def fetch_optional_append final_idempotency_row_def
      k_key_row_of)

lemma create_issue_changed:
  assumes "committed (snd (create_issue_transactional L draws auth c e s)) \<noteq> committed s"
  shows "stored_record c (committed s) = None"
    "create_issue_admissible draws auth c e (committed s)"
    "committed (snd (create_issue_transactional L draws auth c e s))
       = with_created_rows L draws c e (committed s)"
  using assms by (cases rule: create_issue_cases [of L draws auth c e s]; simp)+

lemma create_issue_spec_second:
  assumes "stored_record c' d = Some r" "ci_workspace_id c' = auth_workspace_id auth"
    "idempotency_checks (idempotency_row_of c' p now ex)"
  shows "create_issue_spec L draws auth c' e d =
    (branch_on_stored_fingerprint L c' \<lparr>rsv_inserted = False,
       rsv_stored_fingerprint = k_request_fingerprint r, rsv_stored_payload = k_response_payload r\<rparr>, d)"
  using assms
  by (simp add: create_issue_spec_def Let_def upsert_idempotency_row_def k_key_row_of
      idempotency_row_checks tenant_visible_def) (simp add: idempotency_row_of_def)

lemma second_attempt:
  assumes changed: "committed (snd (create_issue_transactional L draws auth c e s)) \<noteq> committed s"
    and key: "key_of c' = key_of c"
    and same_tenant: "auth_workspace_id auth' = auth_workspace_id auth"
    and fingerprint: "text_between 1 128 (ci_request_fingerprint c')"
  shows "create_issue_spec L draws' auth' c' e'
      (committed (snd (create_issue_transactional L draws auth c e s))) =
    (if matches_request_fingerprint L (ci_request_fingerprint c) c'
     then and_then (ok_or (idempotency_response_de L
              (idempotency_response_ser L (opened_issue c (ice_occurred_at e))))
            (Serde (serde_err L (idempotency_response_ser L (opened_issue c (ice_occurred_at e))))))
          (\<lambda>replay. Ok \<lparr>wr_issue = replay, wr_idempotent_replay = True\<rparr>)
     else Err IdempotencyConflict,
     committed (snd (create_issue_transactional L draws auth c e s)))"
proof -
  note fresh = create_issue_changed [OF changed]
  have "ci_workspace_id c' = auth_workspace_id auth'" "text_between 1 128 (ci_idempotency_key c')"
    using fresh(2) key same_tenant
    by (auto simp: key_of_def create_issue_admissible_def command_row_checks_def)
  with fingerprint show ?thesis
    unfolding fresh(3)
    by (subst create_issue_spec_second [OF stored_after_write [OF fresh(1) key], where p = JNull and now = 0 and ex = 0])
       (simp_all add: idempotency_row_checks branch_on_stored_fingerprint_def)
qed

lemma replay_after_write:
  assumes "leaf_ok L"
    and "s' = snd (create_issue_transactional L draws auth c e s)"
    and "committed s' \<noteq> committed s" "faults s' = []"
    and "key_of c' = key_of c" "ci_request_fingerprint c' = ci_request_fingerprint c"
    and "auth_workspace_id auth' = auth_workspace_id auth"
  shows "fst (create_issue_transactional L draws' auth' c' e' s') =
           Ok \<lparr>wr_issue = opened_issue c (ice_occurred_at e), wr_idempotent_replay = True\<rparr>
    \<and> committed (snd (create_issue_transactional L draws' auth' c' e' s')) = committed s'"
proof -
  have "text_between 1 128 (ci_request_fingerprint c')"
    using create_issue_changed(2) assms(2,3,6)
    by (auto simp: create_issue_admissible_def command_row_checks_def)
  moreover have "in_i64 (iss_row_version (opened_issue c t))" for t
    by (simp add: opened_issue_def in_i64_def)
  ultimately show ?thesis
    using second_attempt [of L draws auth c e s c' auth' draws' e'] assms
    by (simp add: create_issue_op.fault_free matches_request_fingerprint_def
        idempotency_response_de_ser)
qed

text \<open>
  Once a command took effect, answered or not, a repetition under the same key and fingerprint
  returns the very issue the first attempt created, marked as a replay, and changes nothing,
  whatever fresh identifiers, clocks and event the repetition carries.
\<close>

theorem create_issue_replay:
  assumes "leaf_ok L"
    and "s' = snd (create_issue_transactional L draws auth c e s)"
    and "committed s' \<noteq> committed s" "faults s' = []"
    and "key_of c' = key_of c" "ci_request_fingerprint c' = ci_request_fingerprint c"
    and "auth_workspace_id auth' = auth_workspace_id auth"
  shows "fst (create_issue_transactional L draws' auth' c' e' s') =
           Ok \<lparr>wr_issue = opened_issue c (ice_occurred_at e), wr_idempotent_replay = True\<rparr>
    \<and> committed (snd (create_issue_transactional L draws' auth' c' e' s')) = committed s'"
  by (rule replay_after_write [OF assms])

theorem create_issue_replay_witness:
  "let s = demo_session [Answered, Answered, Answered, Answered, Answered, Answered, Answered, Answered, AnswerLost] demo_db;
       s' = snd (create_issue_transactional bits_leaf demo_draws demo_auth demo_command demo_event s)
   in fst (create_issue_transactional bits_leaf (demo_draws\<lparr>dr_outbox_id := 99\<rparr>) demo_auth
             (demo_command\<lparr>ci_issue_id := 98\<rparr>) demo_event s')
      = Ok \<lparr>wr_issue = opened_issue demo_command 50, wr_idempotent_replay = True\<rparr>"
proof -
  let ?s = "demo_session [Answered, Answered, Answered, Answered, Answered, Answered, Answered, Answered, AnswerLost] demo_db"
  let ?r = "create_issue_transactional bits_leaf demo_draws demo_auth demo_command demo_event ?s"
  have "length (issues (committed (snd ?r))) = 1 \<and> faults (snd ?r) = []"
    by (simp add: demo_defs create_issue_transactional_def Let_def tx_run pg_begin_def
        set_workspace_context_def reserve_idempotency_def pg_query_def
        upsert_idempotency_row_def idempotency_row_of_def tenant_visible_def idempotency_checks_def
        text_between_def continuation_def byte_def fetch_optional_def exists_defs row_exists_def
        ensure_project_exists_def pg_select_def ensure_milestone_belongs_to_project_def
        insert_issue_returning_def insert_issue_row_def issue_row_of_def issue_checks_def
        issue_state_category_label_def issue_priority_label_def map_opened_row map_issue_row_def
        parse_state_category_def parse_priority_def insert_activity_def pg_execute_def
        insert_activity_row_def activity_row_of_def activity_checks_def insert_outbox_def
        insert_outbox_row_def outbox_row_of_def outbox_checks_def update_idempotency_payload_def
        pg_commit_def)
  then have "committed (snd ?r) \<noteq> committed ?s" "faults (snd ?r) = []"
    by (auto simp: demo_defs)
  then show ?thesis
    using create_issue_replay [OF bits_leaf_ok refl, of demo_draws demo_auth demo_command demo_event ?s
        "demo_command\<lparr>ci_issue_id := 98\<rparr>" demo_auth "demo_draws\<lparr>dr_outbox_id := 99\<rparr>" demo_event]
    by (simp add: key_of_def demo_event_def)
qed

lemma conflict_after_write:
  assumes "s' = snd (create_issue_transactional L draws auth c e s)"
    and "committed s' \<noteq> committed s" "faults s' = []"
    and "key_of c' = key_of c" "auth_workspace_id auth' = auth_workspace_id auth"
    and "text_between 1 128 (ci_request_fingerprint c')"
    and "\<not> matches_request_fingerprint L (ci_request_fingerprint c) c'"
  shows "fst (create_issue_transactional L draws' auth' c' e' s') = Err IdempotencyConflict
    \<and> committed (snd (create_issue_transactional L draws' auth' c' e' s')) = committed s'"
  using second_attempt [of L draws auth c e s c' auth' draws' e'] assms
  by (simp add: create_issue_op.fault_free)

text \<open>
  Once a command took effect, a request under its key with another fingerprint is refused with the
  idempotency conflict and changes nothing.
\<close>

theorem create_issue_conflict:
  assumes "s' = snd (create_issue_transactional L draws auth c e s)"
    and "committed s' \<noteq> committed s" "faults s' = []"
    and "key_of c' = key_of c" "auth_workspace_id auth' = auth_workspace_id auth"
    and "text_between 1 128 (ci_request_fingerprint c')"
    and "\<not> matches_request_fingerprint L (ci_request_fingerprint c) c'"
  shows "fst (create_issue_transactional L draws' auth' c' e' s') = Err IdempotencyConflict
    \<and> committed (snd (create_issue_transactional L draws' auth' c' e' s')) = committed s'"
  by (rule conflict_after_write [OF assms])

lemma demo_first_attempt:
  "committed (snd (create_issue_transactional bits_leaf demo_draws demo_auth demo_command demo_event
      (demo_session [] demo_db)))
    = with_created_rows bits_leaf demo_draws demo_command demo_event demo_db"
  "faults (snd (create_issue_transactional bits_leaf demo_draws demo_auth demo_command demo_event
      (demo_session [] demo_db))) = []"
  using create_issue_op.fault_free [of "demo_session [] demo_db" bits_leaf demo_draws demo_auth
      demo_command demo_event]
    create_issue_spec_fresh(1) [OF demo_fresh demo_admissible, of bits_leaf]
  by (simp_all add: demo_session_def)

lemma demo_changed: "with_created_rows L draws c e demo_db \<noteq> demo_db"
proof
  assume "with_created_rows L draws c e demo_db = demo_db"
  then have "issues (with_created_rows L draws c e demo_db) = issues demo_db" by simp
  then show False by (simp add: with_created_rows_def Let_def demo_db_def empty_db_def)
qed

theorem create_issue_conflict_witness:
  "let s' = snd (create_issue_transactional bits_leaf demo_draws demo_auth demo_command demo_event
              (demo_session [] demo_db))
   in fst (create_issue_transactional bits_leaf demo_draws demo_auth
        (demo_command\<lparr>ci_request_fingerprint := ''v2:bb''\<rparr>) demo_event s') = Err IdempotencyConflict"
proof -
  let ?c = "demo_command\<lparr>ci_request_fingerprint := ''v2:bb''\<rparr>"
  have v: "text_between 1 128 (ci_request_fingerprint ?c)"
    by (simp add: text_between_def continuation_def byte_def)
  have n: "\<not> matches_request_fingerprint L (ci_request_fingerprint demo_command) ?c" for L
    by (simp add: matches_request_fingerprint_def demo_command_def starts_with_def)
  show ?thesis
    using create_issue_conflict [OF refl _ _ _ refl v n, where s = "demo_session [] demo_db"
        and L = bits_leaf and draws = demo_draws and auth = demo_auth and e = demo_event
        and draws' = demo_draws and e' = demo_event]
    by (simp add: demo_first_attempt demo_changed key_of_def)
qed

text \<open>A client's attempts, one after the other, over whatever connection.\<close>

definition attempt_all ::
  "leaf \<Rightarrow> (create_draws \<times> auth_context \<times> create_issue_command \<times> issue_created_event) list
    \<Rightarrow> session \<Rightarrow> session" where
  "attempt_all L attempts s =
     foldl (\<lambda>s (draws, auth, c, e). snd (create_issue_transactional L draws auth c e s)) s attempts"

lemma attempt_after_stored:
  assumes "stored_record c (committed s) = Some r"
  shows "committed (snd (create_issue_transactional L draws auth c e s)) = committed s"
  using create_issue_op.all_or_nothing [of L draws auth c e s] create_issue_spec_stored [OF assms]
  by metis

text \<open>
  C3: any number of attempts under one idempotency key, with any content, event, clock and faults,
  together commit the rows of at most one of them.
\<close>

theorem same_key_writes_once:
  assumes "\<forall>(draws, auth, c, e)\<in>set attempts. key_of c = k"
  shows "committed (attempt_all L attempts s) = committed s
    \<or> (\<exists>(draws, auth, c, e)\<in>set attempts.
         committed (attempt_all L attempts s) = with_created_rows L draws c e (committed s))"
proof -
  have stuck: "committed (attempt_all L as s) = committed s"
    if "\<forall>(draws, auth, c, e)\<in>set as. key_of c = k"
      and "fetch_optional (\<lambda>r. k_key r = k) (idempotency (committed s)) = Some r" for as s r
    using that
  proof (induction as arbitrary: s)
    case (Cons a as)
    obtain draws auth c e where a: "a = (draws, auth, c, e)" by (cases a)
    have "committed (snd (create_issue_transactional L draws auth c e s)) = committed s"
      using Cons.prems a by (intro attempt_after_stored [of c s r]) auto
    then show ?case
      using Cons.IH [of "snd (create_issue_transactional L draws auth c e s)"] Cons.prems a
      by (simp add: attempt_all_def)
  qed (simp add: attempt_all_def)
  show ?thesis
    using assms
  proof (induction attempts arbitrary: s)
    case (Cons a as)
    obtain draws auth c e where a: "a = (draws, auth, c, e)" by (cases a)
    let ?s = "snd (create_issue_transactional L draws auth c e s)"
    have k: "key_of c = k" "\<forall>(draws, auth, c, e)\<in>set as. key_of c = k" using Cons.prems a by auto
    have run: "attempt_all L (a # as) s = attempt_all L as ?s" by (simp add: attempt_all_def a)
    show ?case
    proof (cases "committed ?s = committed s")
      case True
      then show ?thesis using Cons.IH [OF k(2), of ?s] by (auto simp: run)
    next
      case False
      note changed = create_issue_changed [OF False]
      have "fetch_optional (\<lambda>r. k_key r = k) (idempotency (committed ?s))
          = Some (final_idempotency_row L draws c (ice_occurred_at e))"
        using stored_after_write [OF changed(1) refl] changed(3) k(1) by simp
      from stuck [OF k(2) this] show ?thesis
        using changed(3) unfolding run by (auto simp: a)
    qed
  qed (simp add: attempt_all_def)
qed

theorem same_key_writes_once_witness:
  "length (issues (committed (attempt_all bits_leaf
      (replicate 3 (demo_draws, demo_auth, demo_command, demo_event)) (demo_session [RequestLost] demo_db)))) \<le> 1"
  using same_key_writes_once [of "replicate 3 (demo_draws, demo_auth, demo_command, demo_event)"
      "key_of demo_command" bits_leaf "demo_session [RequestLost] demo_db"]
  by (auto simp: demo_defs with_created_rows_def Let_def split: if_splits)

section \<open>Reads\<close>

text \<open>
  A read returns an issue only of the reader's own workspace, with the identifier asked for, and
  commits nothing, whatever the identifier and the faults.
\<close>

theorem get_issue_within_tenant:
  assumes "get_issue auth issue_id s = (Ok (Some i), s')"
  shows "iss_workspace_id i = auth_workspace_id auth \<and> iss_id i = issue_id
    \<and> (\<exists>r\<in>set (issues (committed s)). map_issue_row r = Ok i)
    \<and> committed s' = committed s"
proof -
  have "get_issue_spec auth issue_id (committed s) = (Ok (Some i), committed s')"
    using get_issue_op.returned [of auth issue_id s "Ok (Some i)"] assms by simp
  then show ?thesis
    by (auto simp: get_issue_spec_def result_simps tenant_visible_def map_issue_row_def
        dest!: fetch_optional_SomeD split: option.splits)
qed

theorem get_issue_within_tenant_witness:
  "\<exists>i s'. get_issue demo_auth 21 (demo_session []
       (demo_db\<lparr>issues := [issue_row_of demo_command 50]\<rparr>)) = (Ok (Some i), s')
     \<and> iss_workspace_id i = 1 \<and> iss_id i = 21"
proof -
  let ?s = "demo_session [] (demo_db\<lparr>issues := [issue_row_of demo_command 50]\<rparr>)"
  have "fst (get_issue demo_auth 21 ?s) = Ok (Some (opened_issue demo_command 50))"
    using get_issue_op.fault_free [of ?s demo_auth 21]
    by (simp add: get_issue_spec_def map_opened_row tenant_visible_def)
       (simp add: issue_row_of_def map_opened_row demo_defs)
  then obtain s' where run: "get_issue demo_auth 21 ?s = (Ok (Some (opened_issue demo_command 50)), s')"
    by (cases "get_issue demo_auth 21 ?s") simp
  from get_issue_within_tenant [OF run] run show ?thesis
    by (auto simp: demo_auth_def)
qed

text \<open>
  A committed creation is readable: the tenant reads back exactly the issue the command returned.
\<close>

theorem created_issue_is_readable:
  assumes "create_issue_transactional L draws auth c e s = (Ok out, s')"
    and "\<not> wr_idempotent_replay out" "faults s' = []"
  shows "fst (get_issue auth (ci_issue_id c) s') = Ok (Some (wr_issue out))"
proof -
  have a: "create_issue_admissible draws auth c e (committed s)"
    "committed s' = with_created_rows L draws c e (committed s)"
    "wr_issue out = opened_issue c (ice_occurred_at e)"
    using assms(1,2) by (cases rule: create_issue_cases [of L draws auth c e s]; simp)+
  have "\<not> row_exists (\<lambda>r. tenant_visible (Some (auth_workspace_id auth)) (i_workspace_id r)
           \<and> i_id r = ci_issue_id c) (issues (committed s))"
    using a(1) by (auto simp: create_issue_admissible_def row_exists_iff)
  then have "fetch_optional (\<lambda>r. tenant_visible (Some (auth_workspace_id auth)) (i_workspace_id r)
       \<and> i_id r = ci_issue_id c) (issues (committed s')) = Some (issue_row_of c (ice_occurred_at e))"
    using a(1)
    by (simp add: a(2) with_created_rows_def Let_def fetch_optional_append fetch_optional_None_exists [symmetric]
        create_issue_admissible_def tenant_visible_def) (simp add: issue_row_of_def)
  then show ?thesis
    using get_issue_op.fault_free [OF assms(3), of auth "ci_issue_id c"] a(3)
    by (simp add: get_issue_spec_def map_opened_row)
qed

theorem created_issue_is_readable_witness:
  "fst (get_issue demo_auth 21 (snd (create_issue_transactional bits_leaf demo_draws demo_auth
      demo_command demo_event (demo_session [] demo_db)))) = Ok (Some (opened_issue demo_command 50))"
proof -
  have "fst (create_issue_transactional bits_leaf demo_draws demo_auth demo_command demo_event
      (demo_session [] demo_db)) = Ok \<lparr>wr_issue = opened_issue demo_command 50, wr_idempotent_replay = False\<rparr>"
    using create_issue_op.fault_free [of "demo_session [] demo_db" bits_leaf demo_draws demo_auth
        demo_command demo_event] create_issue_spec_fresh(1) [OF demo_fresh demo_admissible, of bits_leaf]
    by (simp add: demo_event_def)
  then show ?thesis
    using created_issue_is_readable [of bits_leaf demo_draws demo_auth demo_command demo_event
        "demo_session [] demo_db"] demo_first_attempt(2)
    by (cases "create_issue_transactional bits_leaf demo_draws demo_auth demo_command demo_event
          (demo_session [] demo_db)") (auto simp: demo_command_def)
qed

text \<open>The legacy fingerprint does not tell a missing description from an empty one.\<close>

lemma legacy_fingerprint_collides:
  "legacy_v1_fingerprint L (c\<lparr>ci_description := None\<rparr>)
     = legacy_v1_fingerprint L (c\<lparr>ci_description := Some []\<rparr>)"
  by (simp add: legacy_v1_fingerprint_def)

end
