(* ===== verification/Policy.thy ===== *)
theory Policy
  imports Prelude
begin

text \<open>
  The crate \<open>dandori-policy\<close>: roles, actions, resources, decisions, and the two engines, the role
  matrix and the legacy capability list.  The trait \<open>PolicyEngine\<close> is the locale
  \<open>policy_engine\<close>: what every engine promises its callers about a missing subject and about
  tenants.  Both engines interpret it.
\<close>

section \<open>Vocabulary\<close>

type_synonym policy_uuid = "128 word"

datatype role = Owner | Member | Viewer | Worker

datatype action = WorkspaceRead | IssueCreate | IssueRead | IssueUpdate | ProjectRead

text \<open>\<open>#[derive(PartialOrd, Ord)]\<close> orders the variants as declared.\<close>

fun role_rank :: "role \<Rightarrow> nat" where
  "role_rank Owner = 0" | "role_rank Member = 1" | "role_rank Viewer = 2" | "role_rank Worker = 3"

fun action_rank :: "action \<Rightarrow> nat" where
  "action_rank WorkspaceRead = 0" | "action_rank IssueCreate = 1" | "action_rank IssueRead = 2"
| "action_rank IssueUpdate = 3" | "action_rank ProjectRead = 4"

lemma role_rank_inject: "role_rank a = role_rank b \<longleftrightarrow> a = b"
  by (cases a; cases b) simp_all

lemma action_rank_inject: "action_rank a = action_rank b \<longleftrightarrow> a = b"
  by (cases a; cases b) simp_all

instantiation role :: linorder
begin

definition less_eq_role :: "role \<Rightarrow> role \<Rightarrow> bool" where
  "less_eq_role a b \<longleftrightarrow> role_rank a \<le> role_rank b"

definition less_role :: "role \<Rightarrow> role \<Rightarrow> bool" where
  "less_role a b \<longleftrightarrow> role_rank a < role_rank b"

instance
  by standard (auto simp: less_eq_role_def less_role_def role_rank_inject)

end

instantiation action :: linorder
begin

definition less_eq_action :: "action \<Rightarrow> action \<Rightarrow> bool" where
  "less_eq_action a b \<longleftrightarrow> action_rank a \<le> action_rank b"

definition less_action :: "action \<Rightarrow> action \<Rightarrow> bool" where
  "less_action a b \<longleftrightarrow> action_rank a < action_rank b"

instance
  by standard (auto simp: less_eq_action_def less_action_def action_rank_inject)

end

datatype resource =
    Workspace policy_uuid
  | Project policy_uuid policy_uuid
  | Issue policy_uuid policy_uuid

fun resource_workspace_id :: "resource \<Rightarrow> policy_uuid" where
  "resource_workspace_id (Workspace workspace_id) = workspace_id"
| "resource_workspace_id (Project workspace_id project_id) = workspace_id"
| "resource_workspace_id (Issue workspace_id issue_id) = workspace_id"

record subject =
  subj_actor_id :: policy_uuid
  subj_workspace_id :: policy_uuid
  subj_roles :: "role set"

definition Subject_new :: "policy_uuid \<Rightarrow> policy_uuid \<Rightarrow> role list \<Rightarrow> subject" where
  "Subject_new actor_id workspace_id roles =
     \<lparr>subj_actor_id = actor_id, subj_workspace_id = workspace_id, subj_roles = set roles\<rparr>"

datatype deny_reason = MissingRole | CrossTenant | MissingSubject

fun deny_code :: "deny_reason \<Rightarrow> string" where
  "deny_code MissingRole = ''authz_missing_role''"
| "deny_code CrossTenant = ''authz_cross_tenant''"
| "deny_code MissingSubject = ''authz_missing_subject''"

definition apostrophe_s :: string where "apostrophe_s = [CHR 0x27, CHR ''s'']"

fun deny_message :: "deny_reason \<Rightarrow> string" where
  "deny_message MissingRole = ''subject does not have a role granting this action''"
| "deny_message CrossTenant =
     ''subject'' @ apostrophe_s @ '' workspace does not match the resource workspace''"
| "deny_message MissingSubject = ''no subject was provided for this action''"

datatype policy_decision = Allow | Deny deny_reason

definition is_allowed :: "policy_decision \<Rightarrow> bool" where
  "is_allowed d \<longleftrightarrow> d = Allow"

text \<open>\<open>AuthzError(reason)\<close> is the deny reason.\<close>

fun into_result :: "policy_decision \<Rightarrow> deny_reason + unit" where
  "into_result Allow = Ok ()"
| "into_result (Deny reason) = Err reason"

section \<open>The engine interface\<close>

type_synonym evaluator = "subject option \<Rightarrow> action \<Rightarrow> resource \<Rightarrow> policy_decision"

locale policy_engine =
  fixes evaluate :: evaluator
  assumes no_subject: "evaluate None a r = Deny MissingSubject"
    and cross_tenant:
      "subj_workspace_id s \<noteq> resource_workspace_id r \<Longrightarrow> evaluate (Some s) a r = Deny CrossTenant"
    and same_tenant:
      "subj_workspace_id s = resource_workspace_id r \<Longrightarrow>
         evaluate (Some s) a r \<in> {Allow, Deny MissingRole}"
begin

lemma allowed_same_tenant:
  assumes "is_allowed (evaluate so a r)"
  obtains s where "so = Some s" "subj_workspace_id s = resource_workspace_id r"
proof (cases so)
  case None
  with assms no_subject show ?thesis by (simp add: is_allowed_def)
next
  case (Some s)
  with assms cross_tenant [of s r a] have "subj_workspace_id s = resource_workspace_id r"
    by (auto simp: is_allowed_def)
  with Some that show ?thesis by blast
qed

text \<open>The deny reason says which of the three checks failed, in their order.\<close>

lemma deny_reason_exact:
  assumes "evaluate so a r = Deny d"
  shows "d = (case so of
                None \<Rightarrow> MissingSubject
              | Some s \<Rightarrow> if subj_workspace_id s \<noteq> resource_workspace_id r then CrossTenant
                         else MissingRole)"
  using assms no_subject cross_tenant same_tenant
  by (cases so) (auto, metis insertE policy_decision.distinct(1) policy_decision.inject singletonD)

end

section \<open>The role matrix\<close>

type_synonym role_matrix = "action \<rightharpoonup> role set"

definition RoleMatrix_standard :: role_matrix where
  "RoleMatrix_standard =
     Map.empty
       (WorkspaceRead \<mapsto> set [Owner, Member, Viewer],
        IssueCreate \<mapsto> set [Owner, Member],
        IssueRead \<mapsto> set [Owner, Member, Viewer],
        IssueUpdate \<mapsto> set [Owner, Member],
        ProjectRead \<mapsto> set [Owner, Member, Viewer])"

definition with_override :: "role_matrix \<Rightarrow> action \<Rightarrow> role list \<Rightarrow> role_matrix" where
  "with_override matrix action roles = matrix(action \<mapsto> set roles)"

definition RoleMatrix_evaluate :: "role_matrix \<Rightarrow> evaluator" where
  "RoleMatrix_evaluate matrix subject action resource =
     (case subject of
        None \<Rightarrow> Deny MissingSubject
      | Some subject \<Rightarrow>
          if subj_workspace_id subject \<noteq> resource_workspace_id resource then Deny CrossTenant
          else case matrix action of
                 None \<Rightarrow> Deny MissingRole
               | Some allowed_roles \<Rightarrow>
                   if \<exists>r\<in>subj_roles subject. r \<in> allowed_roles then Allow else Deny MissingRole)"

interpretation role_matrix: policy_engine "RoleMatrix_evaluate m" for m
  by unfold_locales (auto simp: RoleMatrix_evaluate_def split: option.splits)

section \<open>The capability list\<close>

fun capability_for :: "action \<Rightarrow> string" where
  "capability_for WorkspaceRead = ''workspace.read''"
| "capability_for IssueCreate = ''issue.create''"
| "capability_for IssueRead = ''issue.read''"
| "capability_for IssueUpdate = ''issue.update''"
| "capability_for ProjectRead = ''project.read''"

definition CapabilityAllowList_new :: "string list \<Rightarrow> string set" where
  "CapabilityAllowList_new allowed = set allowed"

definition CapabilityAllowList_evaluate :: "string set \<Rightarrow> evaluator" where
  "CapabilityAllowList_evaluate allowed subject action resource =
     (case subject of
        None \<Rightarrow> Deny MissingSubject
      | Some subject \<Rightarrow>
          if subj_workspace_id subject \<noteq> resource_workspace_id resource then Deny CrossTenant
          else if capability_for action \<in> allowed then Allow
          else Deny MissingRole)"

interpretation capability_list: policy_engine "CapabilityAllowList_evaluate l" for l
  by unfold_locales (auto simp: CapabilityAllowList_evaluate_def)

lemma capability_for_inject: "capability_for a = capability_for b \<longleftrightarrow> a = b"
  by (cases a; cases b) simp_all

section \<open>What the standard matrix grants\<close>

lemma standard_Some:
  "RoleMatrix_standard a =
     Some (if a \<in> {IssueCreate, IssueUpdate} then {Owner, Member} else {Owner, Member, Viewer})"
  by (cases a) (simp_all add: RoleMatrix_standard_def)

lemma standard_allows_iff:
  "RoleMatrix_evaluate RoleMatrix_standard so a r = Allow \<longleftrightarrow>
     (\<exists>s. so = Some s \<and> subj_workspace_id s = resource_workspace_id r
        \<and> (Owner \<in> subj_roles s \<or> Member \<in> subj_roles s
           \<or> (Viewer \<in> subj_roles s \<and> a \<notin> {IssueCreate, IssueUpdate})))"
  by (cases so) (auto simp: RoleMatrix_evaluate_def standard_Some split: if_splits)

text \<open>An override replaces the grant of one action and keeps the others.\<close>

lemma evaluate_override:
  "RoleMatrix_evaluate (with_override m a roles) so b r =
     (if b = a then RoleMatrix_evaluate [a \<mapsto> set roles] so a r else RoleMatrix_evaluate m so b r)"
  by (simp add: RoleMatrix_evaluate_def with_override_def split: option.splits)

text \<open>
  The standard matrix grants an action exactly to a subject of the resource's own workspace
  that is an owner or a member, or a viewer when the action does not write; in particular a
  subject whose only role is the worker's is granted nothing.
\<close>

theorem standard_policy_exact:
  "is_allowed (RoleMatrix_evaluate RoleMatrix_standard so a r) =
     (case so of
        None \<Rightarrow> False
      | Some s \<Rightarrow>
          subj_workspace_id s = resource_workspace_id r
          \<and> subj_roles s \<inter> (if a \<in> {IssueCreate, IssueUpdate} then {Owner, Member}
                             else {Owner, Member, Viewer}) \<noteq> {})"
  by (cases so) (auto simp: is_allowed_def standard_allows_iff)

end
