(* ===== verification/App_Service.thy ===== *)
theory App_Service
  imports Issue_Theorems Policy
begin

text \<open>
  The wire types of \<open>dandori-contract\<close> and the issue application service of
  \<open>dandori-app-services/src/service.rs\<close>: policy, fingerprint, key, validation, tenant check, event,
  store, and the mapping of errors to their public form.  What a request draws from its environment
  (fresh identifiers, the clock) is the argument \<open>service_draws\<close>; the JSON printer and SHA-256 are
  the parameter \<open>hashing\<close>.
\<close>

section \<open>Wire types\<close>

datatype issue_state_category_dto = OpenDto | ActiveDto | DoneDto | CancelledDto
datatype issue_priority_dto = LowDto | MediumDto | HighDto | UrgentDto

record issue_dto =
  dto_id :: uuid
  dto_workspace_id :: uuid
  dto_project_id :: uuid
  dto_milestone_id :: "uuid option"
  dto_title :: string
  dto_description :: "string option"
  dto_state_category :: issue_state_category_dto
  dto_priority :: issue_priority_dto
  dto_archived_at :: "timestamp option"
  dto_row_version :: int
  dto_created_at :: timestamp
  dto_updated_at :: timestamp

record create_issue_request =
  rq_idempotency_key :: string
  rq_project_id :: uuid
  rq_milestone_id :: "uuid option"
  rq_title :: string
  rq_description :: "string option"
  rq_priority :: issue_priority_dto

record create_issue_response =
  cr_issue :: issue_dto
  cr_idempotent_replay :: bool

record get_issue_response =
  gr_issue :: issue_dto

record error_envelope =
  ee_code :: string
  ee_message :: string
  ee_correlation_id :: "uuid option"

datatype 'a envelope = EnvelopeOk 'a | EnvelopeErr error_envelope

text \<open>Their JSON forms.\<close>

fun state_dto_ser :: "issue_state_category_dto \<Rightarrow> string" where
  "state_dto_ser OpenDto = ''open''"
| "state_dto_ser ActiveDto = ''active''"
| "state_dto_ser DoneDto = ''done''"
| "state_dto_ser CancelledDto = ''cancelled''"

fun priority_dto_ser :: "issue_priority_dto \<Rightarrow> string" where
  "priority_dto_ser LowDto = ''low''"
| "priority_dto_ser MediumDto = ''medium''"
| "priority_dto_ser HighDto = ''high''"
| "priority_dto_ser UrgentDto = ''urgent''"

definition priority_dto_de :: "string \<Rightarrow> issue_priority_dto option" where
  "priority_dto_de s =
     (if s = ''low'' then Some LowDto else if s = ''medium'' then Some MediumDto
      else if s = ''high'' then Some HighDto else if s = ''urgent'' then Some UrgentDto else None)"

interpretation priority_dto_text: wire_enum priority_dto_ser priority_dto_de
proof unfold_locales
  show "priority_dto_de (priority_dto_ser x) = Some x" for x
    by (cases x) (simp_all add: priority_dto_de_def)
  show "priority_dto_de s = Some x \<Longrightarrow> s = priority_dto_ser x" for s x
    by (auto simp: priority_dto_de_def split: if_splits)
qed

definition issue_dto_ser :: "leaf \<Rightarrow> issue_dto \<Rightarrow> json" where
  "issue_dto_ser L i = JObj
     [(''id'', ser_uuid L (dto_id i)),
      (''workspace_id'', ser_uuid L (dto_workspace_id i)),
      (''project_id'', ser_uuid L (dto_project_id i)),
      (''milestone_id'', ser_option (ser_uuid L) (dto_milestone_id i)),
      (''title'', JStr (dto_title i)),
      (''description'', ser_option JStr (dto_description i)),
      (''state_category'', JStr (state_dto_ser (dto_state_category i))),
      (''priority'', JStr (priority_dto_ser (dto_priority i))),
      (''archived_at'', ser_option (ser_time L) (dto_archived_at i)),
      (''row_version'', JInt (dto_row_version i)),
      (''created_at'', ser_time L (dto_created_at i)),
      (''updated_at'', ser_time L (dto_updated_at i))]"

definition create_issue_request_fields :: "string list" where
  "create_issue_request_fields =
     [''idempotency_key'', ''project_id'', ''milestone_id'', ''title'', ''description'', ''priority'']"

definition create_issue_request_de :: "leaf \<Rightarrow> json \<Rightarrow> create_issue_request option" where
  "create_issue_request_de L j =
     (case de_fields create_issue_request_fields j of
        Some [v1, v2, v3, v4, v5, v6] \<Rightarrow>
          Option.bind (de_required de_string v1) (\<lambda>x1.
          Option.bind (de_required (uuid_de L) v2) (\<lambda>x2.
          Option.bind (de_optional (uuid_de L) v3) (\<lambda>x3.
          Option.bind (de_required de_string v4) (\<lambda>x4.
          Option.bind (de_optional de_string v5) (\<lambda>x5.
          Option.bind (de_required (de_variant priority_dto_de) v6) (\<lambda>x6.
          Some \<lparr>rq_idempotency_key = x1, rq_project_id = x2, rq_milestone_id = x3, rq_title = x4,
                rq_description = x5, rq_priority = x6\<rparr>))))))
      | _ \<Rightarrow> None)"

definition create_issue_request_ser :: "leaf \<Rightarrow> create_issue_request \<Rightarrow> json" where
  "create_issue_request_ser L r = JObj
     [(''idempotency_key'', JStr (rq_idempotency_key r)),
      (''project_id'', ser_uuid L (rq_project_id r)),
      (''milestone_id'', ser_option (ser_uuid L) (rq_milestone_id r)),
      (''title'', JStr (rq_title r)),
      (''description'', ser_option JStr (rq_description r)),
      (''priority'', JStr (priority_dto_ser (rq_priority r)))]"

lemma create_issue_request_de_ser:
  "leaf_ok L \<Longrightarrow> create_issue_request_de L (create_issue_request_ser L r) = Some r"
  by (simp add: create_issue_request_de_def create_issue_request_ser_def
      create_issue_request_fields_def serde_simps priority_dto_text.parse_as_str del: de_optional.simps)

definition create_issue_response_ser :: "leaf \<Rightarrow> create_issue_response \<Rightarrow> json" where
  "create_issue_response_ser L r = JObj
     [(''issue'', issue_dto_ser L (cr_issue r)),
      (''idempotent_replay'', JBool (cr_idempotent_replay r))]"

definition get_issue_response_ser :: "leaf \<Rightarrow> get_issue_response \<Rightarrow> json" where
  "get_issue_response_ser L r = JObj [(''issue'', issue_dto_ser L (gr_issue r))]"

definition error_envelope_ser :: "leaf \<Rightarrow> error_envelope \<Rightarrow> json" where
  "error_envelope_ser L e = JObj
     ([(''code'', JStr (ee_code e)), (''message'', JStr (ee_message e))]
      @ (case ee_correlation_id e of None \<Rightarrow> [] | Some c \<Rightarrow> [(''correlation_id'', ser_uuid L c)]))"

fun envelope_ser :: "leaf \<Rightarrow> ('a \<Rightarrow> json) \<Rightarrow> 'a envelope \<Rightarrow> json" where
  "envelope_ser L f (EnvelopeOk data) = JObj [(''status'', JStr ''ok''), (''data'', f data)]"
| "envelope_ser L f (EnvelopeErr error) =
     JObj [(''status'', JStr ''err''), (''error'', error_envelope_ser L error)]"

section \<open>Errors of the service\<close>

datatype error_kind =
    KValidation | KPrecondition | KConflict | KNotFound | KAuthz | KTenantBoundary | KInfrastructure

record app_service_error =
  ae_code :: string
  ae_message :: string
  ae_kind :: error_kind
  ae_correlation_id :: uuid

definition app_error :: "string \<Rightarrow> string \<Rightarrow> error_kind \<Rightarrow> uuid \<Rightarrow> app_service_error" where
  "app_error code message kind correlation_id =
     \<lparr>ae_code = code, ae_message = message, ae_kind = kind, ae_correlation_id = correlation_id\<rparr>"

definition AppServiceError_validation :: "uuid \<Rightarrow> string \<Rightarrow> string \<Rightarrow> app_service_error" where
  "AppServiceError_validation cid code message = app_error code message KValidation cid"

definition INTERNAL_ERROR_PUBLIC_MESSAGE :: string where
  "INTERNAL_ERROR_PUBLIC_MESSAGE = ''an internal error occurred''"

text \<open>The private detail goes to the log only.\<close>

definition AppServiceError_internal :: "uuid \<Rightarrow> string \<Rightarrow> 'detail \<Rightarrow> app_service_error" where
  "AppServiceError_internal cid code private_source =
     app_error code INTERNAL_ERROR_PUBLIC_MESSAGE KInfrastructure cid"

fun map_domain_error :: "uuid \<Rightarrow> domain_error \<Rightarrow> app_service_error" where
  "map_domain_error cid (Validation code message) = app_error code message KValidation cid"
| "map_domain_error cid (Precondition code message) = app_error code message KPrecondition cid"
| "map_domain_error cid (Conflict code message) = app_error code message KConflict cid"
| "map_domain_error cid (Authz code message) = app_error code message KAuthz cid"
| "map_domain_error cid (TenantBoundary code message) = app_error code message KTenantBoundary cid"
| "map_domain_error cid (Infrastructure code message) = AppServiceError_internal cid code message"

fun map_store_error :: "leaf \<Rightarrow> uuid \<Rightarrow> create_issue_command \<Rightarrow> store_error \<Rightarrow> app_service_error" where
  "map_store_error L cid command ProjectNotFound =
     map_domain_error cid (map_missing_project_precondition L command)"
| "map_store_error L cid command MilestoneNotFound =
     app_error ''milestone_not_found'' ''milestone not found in workspace'' KPrecondition cid"
| "map_store_error L cid command MilestoneProjectMismatch =
     app_error ''milestone_project_mismatch''
       ''milestone does not belong to the requested project'' KPrecondition cid"
| "map_store_error L cid command IdempotencyConflict =
     map_domain_error cid (map_duplicate_conflict command)"
| "map_store_error L cid command (DomainViolation domain) = map_domain_error cid domain"
| "map_store_error L cid command other = AppServiceError_internal cid ''store_write_failed'' other"

fun map_store_error_read :: "uuid \<Rightarrow> store_error \<Rightarrow> app_service_error" where
  "map_store_error_read cid (DomainViolation domain) = map_domain_error cid domain"
| "map_store_error_read cid other = AppServiceError_internal cid ''store_read_failed'' other"

definition map_error_to_transport :: "app_service_error \<Rightarrow> error_envelope" where
  "map_error_to_transport error =
     \<lparr>ee_code = ae_code error, ee_message = ae_message error,
      ee_correlation_id = Some (ae_correlation_id error)\<rparr>"

section \<open>The service\<close>

record hashing =
  json_text :: "json \<Rightarrow> string"
  sha256_hex :: "string \<Rightarrow> string"

text \<open>The documented form of a digest: 64 hexadecimal digits.\<close>

definition hashing_ok :: "hashing \<Rightarrow> bool" where
  "hashing_ok H \<longleftrightarrow> (\<forall>s. length (sha256_hex H s) = 64
     \<and> list_all (\<lambda>c. c \<in> set ''0123456789abcdef'') (sha256_hex H s))"

record service_draws =
  sd_command_id :: uuid
  sd_issue_id :: uuid
  sd_event_id :: uuid
  sd_occurred_at :: timestamp
  sd_correlation_id :: uuid
  sd_store :: create_draws

fun map_priority_from_dto :: "issue_priority_dto \<Rightarrow> issue_priority" where
  "map_priority_from_dto LowDto = Low"
| "map_priority_from_dto MediumDto = Medium"
| "map_priority_from_dto HighDto = High"
| "map_priority_from_dto UrgentDto = Urgent"

fun map_state_to_dto :: "issue_state_category \<Rightarrow> issue_state_category_dto" where
  "map_state_to_dto Open = OpenDto"
| "map_state_to_dto Active = ActiveDto"
| "map_state_to_dto Done = DoneDto"
| "map_state_to_dto Cancelled = CancelledDto"

fun map_priority_to_dto :: "issue_priority \<Rightarrow> issue_priority_dto" where
  "map_priority_to_dto Low = LowDto"
| "map_priority_to_dto Medium = MediumDto"
| "map_priority_to_dto High = HighDto"
| "map_priority_to_dto Urgent = UrgentDto"

definition map_issue_to_dto :: "issue \<Rightarrow> issue_dto" where
  "map_issue_to_dto i =
     \<lparr>dto_id = iss_id i, dto_workspace_id = iss_workspace_id i, dto_project_id = iss_project_id i,
      dto_milestone_id = iss_milestone_id i, dto_title = iss_title i,
      dto_description = iss_description i,
      dto_state_category = map_state_to_dto (iss_state_category i),
      dto_priority = map_priority_to_dto (iss_priority i), dto_archived_at = iss_archived_at i,
      dto_row_version = iss_row_version i, dto_created_at = iss_created_at i,
      dto_updated_at = iss_updated_at i\<rparr>"

fun priority_literal :: "issue_priority_dto \<Rightarrow> string" where
  "priority_literal LowDto = ''low''"
| "priority_literal MediumDto = ''medium''"
| "priority_literal HighDto = ''high''"
| "priority_literal UrgentDto = ''urgent''"

definition fingerprint_payload :: "leaf \<Rightarrow> create_issue_request \<Rightarrow> json" where
  "fingerprint_payload L request = JObj
     [(''schema'', JStr ''issue.create.fingerprint.v2''),
      (''project_id'', ser_uuid L (rq_project_id request)),
      (''milestone_id'', ser_option (ser_uuid L) (rq_milestone_id request)),
      (''title'', JStr (rq_title request)),
      (''description'', ser_option JStr (rq_description request)),
      (''priority'', JStr (priority_literal (rq_priority request)))]"

definition create_issue_fingerprint ::
  "leaf \<Rightarrow> hashing \<Rightarrow> create_issue_request \<Rightarrow> app_service_error + string" where
  "create_issue_fingerprint L H request =
     Ok (''v2:'' @ sha256_hex H (json_text H (fingerprint_payload L request)))"

definition subject_from_auth :: "auth_context \<Rightarrow> subject" where
  "subject_from_auth auth = Subject_new (auth_actor_id auth) (auth_workspace_id auth) [Owner, Member]"

definition enforce_policy ::
  "evaluator \<Rightarrow> uuid \<Rightarrow> auth_context \<Rightarrow> action \<Rightarrow> resource \<Rightarrow> app_service_error + unit" where
  "enforce_policy policy cid auth action resource =
     map_err (\<lambda>reason. app_error (deny_code reason) (deny_message reason) KAuthz cid)
       (into_result (policy (Some (subject_from_auth auth)) action resource))"

definition command_of_request ::
  "service_draws \<Rightarrow> auth_context \<Rightarrow> string \<Rightarrow> string \<Rightarrow> create_issue_request \<Rightarrow> create_issue_command" where
  "command_of_request sd auth idempotency_key request_fingerprint request =
     \<lparr>ci_command_id = sd_command_id sd, ci_idempotency_key = idempotency_key,
      ci_request_fingerprint = request_fingerprint, ci_issue_id = sd_issue_id sd,
      ci_workspace_id = auth_workspace_id auth, ci_project_id = rq_project_id request,
      ci_milestone_id = rq_milestone_id request, ci_title = rq_title request,
      ci_description = rq_description request,
      ci_priority = map_priority_from_dto (rq_priority request),
      ci_actor_id = auth_actor_id auth\<rparr>"

definition event_of_command :: "service_draws \<Rightarrow> create_issue_command \<Rightarrow> issue_created_event" where
  "event_of_command sd command =
     \<lparr>ice_event_id = sd_event_id sd, ice_issue_id = ci_issue_id command,
      ice_workspace_id = ci_workspace_id command, ice_project_id = ci_project_id command,
      ice_milestone_id = ci_milestone_id command, ice_actor_id = ci_actor_id command,
      ice_occurred_at = sd_occurred_at sd, ice_title = ci_title command,
      ice_description = ci_description command, ice_priority = ci_priority command\<rparr>"

text \<open>Everything before the store: the checks of a request and the command they produce.\<close>

definition prepare_create ::
  "leaf \<Rightarrow> hashing \<Rightarrow> evaluator \<Rightarrow> service_draws \<Rightarrow> auth_context \<Rightarrow> create_issue_request
    \<Rightarrow> app_service_error + create_issue_command" where
  "prepare_create L H policy sd auth request =
     (let cid = sd_correlation_id sd in
      and_then (enforce_policy policy cid auth IssueCreate (Workspace (auth_workspace_id auth))) (\<lambda>_.
      and_then (create_issue_fingerprint L H request) (\<lambda>request_fingerprint.
      and_then (map_err (map_domain_error cid) (IdempotencyKey_new (rq_idempotency_key request)))
        (\<lambda>idempotency_key.
      let command = command_of_request sd auth idempotency_key request_fingerprint request in
      and_then (map_err (map_domain_error cid) (CreateIssue_validate command)) (\<lambda>_.
      and_then (map_err (map_domain_error cid) (enforce_workspace auth (ci_workspace_id command))) (\<lambda>_.
      Ok command))))))"

definition service_create_issue ::
  "leaf \<Rightarrow> hashing \<Rightarrow> evaluator \<Rightarrow> service_draws \<Rightarrow> auth_context \<Rightarrow> create_issue_request \<Rightarrow> session
    \<Rightarrow> (app_service_error + create_issue_response) \<times> session" where
  "service_create_issue L H policy sd auth request s =
     (case prepare_create L H policy sd auth request of
        Inl error \<Rightarrow> (Err error, s)
      | Inr command \<Rightarrow>
          let (result, s') = create_issue_transactional L (sd_store sd) auth command
                               (event_of_command sd command) s
          in (map_ok (\<lambda>w. \<lparr>cr_issue = map_issue_to_dto (wr_issue w),
                          cr_idempotent_replay = wr_idempotent_replay w\<rparr>)
                (map_err (map_store_error L (sd_correlation_id sd) command) result), s'))"

definition service_get_issue ::
  "leaf \<Rightarrow> evaluator \<Rightarrow> uuid \<Rightarrow> auth_context \<Rightarrow> uuid \<Rightarrow> session
    \<Rightarrow> (app_service_error + get_issue_response) \<times> session" where
  "service_get_issue L policy cid auth issue_id s =
     (case enforce_policy policy cid auth IssueRead (Issue (auth_workspace_id auth) issue_id) of
        Inl error \<Rightarrow> (Err error, s)
      | Inr _ \<Rightarrow>
          let (result, s') = get_issue auth issue_id s in
          (and_then (map_err (map_store_error_read cid) result) (\<lambda>found.
             and_then (ok_or found
               (app_error ''issue_not_found''
                  (''issue '' @ quoted (uuid_str L issue_id) @ '' was not found'') KNotFound cid))
               (\<lambda>i. Ok \<lparr>gr_issue = map_issue_to_dto i\<rparr>)), s'))"

end
