(* ===== verification/Adapters.thy ===== *)
theory Adapters
  imports App_Service
begin

text \<open>
  The REST and MCP adapters of \<open>dandori-app-services/src/adapters.rs\<close> over the issue service, and what
  a client of the service can rely on: which requests are accepted, the status and code of every
  refusal, safe retries, the equality of both transports.
\<close>

section \<open>The adapters\<close>

fun status_of_kind :: "error_kind \<Rightarrow> nat" where
  "status_of_kind KValidation = 422"
| "status_of_kind KPrecondition = 422"
| "status_of_kind KConflict = 409"
| "status_of_kind KNotFound = 404"
| "status_of_kind KAuthz = 403"
| "status_of_kind KTenantBoundary = 403"
| "status_of_kind KInfrastructure = 500"

definition map_transport_error :: "app_service_error \<Rightarrow> nat \<times> 'a envelope" where
  "map_transport_error error =
     (status_of_kind (ae_kind error),
      EnvelopeErr \<lparr>ee_code = ae_code error, ee_message = ae_message error,
                   ee_correlation_id = Some (ae_correlation_id error)\<rparr>)"

fun respond :: "nat \<Rightarrow> app_service_error + 'a \<Rightarrow> nat \<times> 'a envelope" where
  "respond status (Inr response) = (status, EnvelopeOk response)"
| "respond status (Inl error) = map_transport_error error"

definition handle_rest_create_issue ::
  "leaf \<Rightarrow> hashing \<Rightarrow> evaluator \<Rightarrow> service_draws \<Rightarrow> auth_context \<Rightarrow> create_issue_request \<Rightarrow> session
    \<Rightarrow> (nat \<times> create_issue_response envelope) \<times> session" where
  "handle_rest_create_issue L H policy sd auth request s =
     (let (result, s') = service_create_issue L H policy sd auth request s
      in (respond 201 result, s'))"

definition handle_rest_get_issue ::
  "leaf \<Rightarrow> evaluator \<Rightarrow> uuid \<Rightarrow> auth_context \<Rightarrow> uuid \<Rightarrow> session
    \<Rightarrow> (nat \<times> get_issue_response envelope) \<times> session" where
  "handle_rest_get_issue L policy cid auth issue_id s =
     (let (result, s') = service_get_issue L policy cid auth issue_id s
      in (respond 200 result, s'))"

fun envelope_value :: "('a \<Rightarrow> json) \<Rightarrow> 'a envelope \<Rightarrow> json envelope" where
  "envelope_value f (EnvelopeOk data) = EnvelopeOk (f data)"
| "envelope_value f (EnvelopeErr error) = EnvelopeErr error"

definition handle_mcp_create_issue ::
  "leaf \<Rightarrow> hashing \<Rightarrow> evaluator \<Rightarrow> service_draws \<Rightarrow> auth_context \<Rightarrow> json \<Rightarrow> session
    \<Rightarrow> json envelope \<times> session" where
  "handle_mcp_create_issue L H policy sd auth params s =
     (case create_issue_request_de L params of
        None \<Rightarrow>
          (EnvelopeErr (map_error_to_transport
             (AppServiceError_validation (sd_correlation_id sd) ''invalid_payload''
               (''invalid MCP create_issue payload: '' @ serde_err L params))), s)
      | Some request \<Rightarrow>
          let ((_, envelope), s') = handle_rest_create_issue L H policy sd auth request s
          in (envelope_value (create_issue_response_ser L) envelope, s'))"

definition mcp_issue_id :: "leaf \<Rightarrow> uuid \<Rightarrow> json \<Rightarrow> app_service_error + uuid" where
  "mcp_issue_id L cid params =
     and_then
       (ok_or (Option.bind (json_get params ''issue_id'') as_str)
          (AppServiceError_validation cid ''invalid_payload''
            ''issue_id is required in MCP get_issue payload''))
       (\<lambda>value. map_err
          (\<lambda>error. AppServiceError_validation cid ''invalid_issue_id''
             (''issue_id must be a valid UUID: '' @ error))
          (uuid_parse L value))"

definition handle_mcp_get_issue ::
  "leaf \<Rightarrow> evaluator \<Rightarrow> uuid \<Rightarrow> auth_context \<Rightarrow> json \<Rightarrow> session \<Rightarrow> json envelope \<times> session" where
  "handle_mcp_get_issue L policy cid auth params s =
     (case mcp_issue_id L cid params of
        Inl error \<Rightarrow> (EnvelopeErr (map_error_to_transport error), s)
      | Inr issue_id \<Rightarrow>
          let ((_, envelope), s') = handle_rest_get_issue L policy cid auth issue_id s
          in (envelope_value (get_issue_response_ser L) envelope, s'))"

section \<open>The checks before the store\<close>

abbreviation standard_policy :: evaluator where
  "standard_policy \<equiv> RoleMatrix_evaluate RoleMatrix_standard"

lemma standard_enforced:
  "resource_workspace_id r = auth_workspace_id auth \<Longrightarrow>
     enforce_policy standard_policy cid auth a r = Ok ()"
  using standard_allows_iff [of "Some (subject_from_auth auth)" a r]
  by (simp add: enforce_policy_def subject_from_auth_def Subject_new_def)

definition request_fingerprint_of :: "leaf \<Rightarrow> hashing \<Rightarrow> create_issue_request \<Rightarrow> string" where
  "request_fingerprint_of L H request = ''v2:'' @ sha256_hex H (json_text H (fingerprint_payload L request))"

lemma fingerprint_ok: "create_issue_fingerprint L H request = Ok (request_fingerprint_of L H request)"
  by (simp add: create_issue_fingerprint_def request_fingerprint_of_def)

text \<open>A fingerprint has 67 visible ASCII bytes.\<close>

lemma hex_ascii: "c \<in> set ''0123456789abcdef'' \<Longrightarrow> byte c < 128 \<and> c \<noteq> CHR 0x00"
  by (auto simp: byte_def)

lemma fingerprint_text:
  assumes "hashing_ok H"
  shows "text_between 1 128 (request_fingerprint_of L H request)"
    "length (request_fingerprint_of L H request) = 67"
    "\<not> blank (request_fingerprint_of L H request)"
    "starts_with (request_fingerprint_of L H request) ''v2:''"
proof -
  let ?h = "sha256_hex H (json_text H (fingerprint_payload L request))"
  have h: "length ?h = 64" "list_all (\<lambda>c. byte c < 128) ?h" "storable ?h"
    using assms hex_ascii by (auto simp: hashing_ok_def list_all_iff storable_def)
  show "length (request_fingerprint_of L H request) = 67"
    by (simp add: request_fingerprint_of_def h(1))
  have "list_all (\<lambda>c. byte c < 128) (request_fingerprint_of L H request)"
    using h(2) by (simp add: request_fingerprint_of_def byte_def)
  then show "text_between 1 128 (request_fingerprint_of L H request)"
    using h(1,3) by (simp add: text_between_def ascii_char_length) (simp add: request_fingerprint_of_def)
  show "\<not> blank (request_fingerprint_of L H request)"
    by (rule visible_not_blank [of "CHR ''v''"]) (simp_all add: request_fingerprint_of_def ws_seqs_def)
  show "starts_with (request_fingerprint_of L H request) ''v2:''"
    by (simp add: request_fingerprint_of_def starts_with_iff)
qed

definition request_valid :: "create_issue_request \<Rightarrow> bool" where
  "request_valid request \<longleftrightarrow>
     list_all key_char (rq_idempotency_key request)
     \<and> \<not> blank (rq_idempotency_key request) \<and> length (rq_idempotency_key request) \<le> 128
     \<and> \<not> blank (rq_title request) \<and> length (rq_title request) \<le> 200
     \<and> (case rq_description request of None \<Rightarrow> True | Some d \<Rightarrow> length d \<le> 4000)"

abbreviation command_of ::
  "leaf \<Rightarrow> hashing \<Rightarrow> service_draws \<Rightarrow> auth_context \<Rightarrow> create_issue_request \<Rightarrow> create_issue_command" where
  "command_of L H sd auth request \<equiv>
     command_of_request sd auth (rq_idempotency_key request) (request_fingerprint_of L H request) request"

lemma prepare_cases:
  assumes "hashing_ok H"
  shows "request_valid request \<Longrightarrow>
      prepare_create L H standard_policy sd auth request = Ok (command_of L H sd auth request)"
    and "\<not> request_valid request \<Longrightarrow>
      \<exists>code m. prepare_create L H standard_policy sd auth request
        = Err (app_error code m KValidation (sd_correlation_id sd))"
proof -
  let ?c = "command_of L H sd auth request"
  have key: "IdempotencyKey_new k = Ok k \<or> (\<exists>code m. IdempotencyKey_new k = Err (Validation code m))" for k
    by (simp add: IdempotencyKey_new_def IdempotencyKey_validate_def validation_def)
  have p: "prepare_create L H standard_policy sd auth request =
      and_then (map_err (map_domain_error (sd_correlation_id sd)) (IdempotencyKey_new (rq_idempotency_key request)))
        (\<lambda>_. and_then (map_err (map_domain_error (sd_correlation_id sd)) (CreateIssue_validate ?c)) (\<lambda>_. Ok ?c))"
    using key [of "rq_idempotency_key request"]
    by (auto simp: prepare_create_def Let_def standard_enforced fingerprint_ok enforce_workspace_def
        command_of_request_def)
  have v: "request_valid request \<longleftrightarrow>
      IdempotencyKey_new (rq_idempotency_key request) = Ok (rq_idempotency_key request)
      \<and> CreateIssue_validate ?c = Ok ()"
    using fingerprint_text [OF assms] not_blank_nonempty [of "rq_idempotency_key request"]
    by (auto simp: request_valid_def IdempotencyKey_new_Ok CreateIssue_validate_Ok
        command_of_request_def Suc_le_eq split: option.splits)
  show "request_valid request \<Longrightarrow>
      prepare_create L H standard_policy sd auth request = Ok (command_of L H sd auth request)"
    using v by (simp add: p)
  show "\<exists>code m. prepare_create L H standard_policy sd auth request
        = Err (app_error code m KValidation (sd_correlation_id sd))" if "\<not> request_valid request"
  proof (cases "IdempotencyKey_new (rq_idempotency_key request) = Ok (rq_idempotency_key request)")
    case True
    with that v obtain e where e: "CreateIssue_validate ?c = Err e"
      by (cases "CreateIssue_validate ?c") auto
    from CreateIssue_validate_code [OF e] obtain code m where "e = Validation code m" by blast
    with e True have "prepare_create L H standard_policy sd auth request
        = Err (app_error code m KValidation (sd_correlation_id sd))" by (simp add: p)
    then show ?thesis by blast
  next
    case False
    with key obtain code m where "IdempotencyKey_new (rq_idempotency_key request) = Err (Validation code m)"
      by blast
    then have "prepare_create L H standard_policy sd auth request
        = Err (app_error code m KValidation (sd_correlation_id sd))" by (simp add: p)
    then show ?thesis by blast
  qed
qed

section \<open>The outcomes of a creation\<close>

text \<open>The errors the write path can end with.\<close>

definition is_create_error :: "store_error \<Rightarrow> bool" where
  "is_create_error er \<longleftrightarrow>
     er \<in> {ProjectNotFound, MilestoneNotFound, MilestoneProjectMismatch, IdempotencyConflict}
        \<union> range Sqlx \<union> range Serde"

lemma check_milestone_error: "check_milestone w c d = Inl er \<Longrightarrow> is_create_error er"
  by (auto simp: check_milestone_def result_simps is_create_error_def split: option.splits)

lemma create_issue_writes_error:
  "create_issue_writes L draws w c e d = Inl er \<Longrightarrow> is_create_error er"
  by (auto simp: create_issue_writes_def Let_def result_simps check_project_def
      dest!: check_milestone_error) (auto simp: is_create_error_def)

lemma branch_error: "branch_on_stored_fingerprint L c r = Inl er \<Longrightarrow> is_create_error er"
  by (auto simp: branch_on_stored_fingerprint_def result_simps is_create_error_def split: if_splits)

lemma create_issue_spec_error:
  "fst (create_issue_spec L draws auth c e d) = Inl er \<Longrightarrow> is_create_error er"
  by (auto simp: create_issue_spec_def Let_def is_create_error_def split: sum.splits if_splits
      dest!: branch_error create_issue_writes_error)

lemma create_issue_error:
  assumes "fst (create_issue_transactional L draws auth c e s) = Err er"
  shows "is_create_error er"
proof (cases rule: create_issue_op.answered_or_lost [of L draws auth c e s])
  case answered
  with assms show ?thesis using create_issue_spec_error by metis
qed (use assms in \<open>simp_all add: is_create_error_def\<close>)

text \<open>Status, code and public message of each of them.\<close>

fun create_error_outcome :: "store_error \<Rightarrow> nat \<times> string" where
  "create_error_outcome ProjectNotFound = (422, ''project_not_found'')"
| "create_error_outcome MilestoneNotFound = (422, ''milestone_not_found'')"
| "create_error_outcome MilestoneProjectMismatch = (422, ''milestone_project_mismatch'')"
| "create_error_outcome IdempotencyConflict = (409, ''duplicate_issue_command'')"
| "create_error_outcome _ = (500, ''store_write_failed'')"

lemma store_error_response:
  assumes "is_create_error er"
  shows "let error = map_store_error L cid command er in
    (status_of_kind (ae_kind error), ae_code error) = create_error_outcome er
    \<and> ae_correlation_id error = cid
    \<and> ((status_of_kind (ae_kind error) = 500) = (ae_message error = INTERNAL_ERROR_PUBLIC_MESSAGE))"
  using assms
  by (auto simp: is_create_error_def map_missing_project_precondition_def map_duplicate_conflict_def
      app_error_def AppServiceError_internal_def INTERNAL_ERROR_PUBLIC_MESSAGE_def)

lemma handle_prepared:
  assumes "prepare_create L H policy sd auth request = Ok c"
  shows "handle_rest_create_issue L H policy sd auth request s =
    (let (result, s') = create_issue_transactional L (sd_store sd) auth c (event_of_command sd c) s
     in (respond 201 (map_ok (\<lambda>w. \<lparr>cr_issue = map_issue_to_dto (wr_issue w),
                              cr_idempotent_replay = wr_idempotent_replay w\<rparr>)
           (map_err (map_store_error L (sd_correlation_id sd) c) result)), s'))"
  by (simp add: handle_rest_create_issue_def service_create_issue_def assms case_prod_beta)

lemma handle_refused:
  assumes "prepare_create L H policy sd auth request = Err er"
  shows "handle_rest_create_issue L H policy sd auth request s = (map_transport_error er, s)"
  by (simp add: handle_rest_create_issue_def service_create_issue_def assms)

lemma created_length:
  "length (issues (with_created_rows L draws c e d)) = length (issues d) + 1"
  by (simp add: with_created_rows_def Let_def)

definition create_outcomes :: "(nat \<times> string) list" where
  "create_outcomes =
     [(422, ''project_not_found''), (422, ''milestone_not_found''),
      (422, ''milestone_project_mismatch''), (409, ''duplicate_issue_command''),
      (500, ''store_write_failed'')]"

lemma create_error_listed: "is_create_error er \<Longrightarrow> create_error_outcome er \<in> set create_outcomes"
  by (auto simp: is_create_error_def create_outcomes_def)

lemma server_error_iff:
  "is_create_error er \<Longrightarrow> fst (create_error_outcome er) = 500 \<longleftrightarrow> er \<in> range Sqlx \<union> range Serde"
  by (auto simp: is_create_error_def)

text \<open>
  C6: every answer to a creation over REST is one of: 201 for a new issue with one more row, 201 for
  a replay with nothing changed, or an error that carries the correlation identifier of the request,
  422 for a request that is not well formed and otherwise with a status and code of the table
  above.  A server error shows the constant message in place of any detail, and any other error
  means that nothing was changed.
\<close>

theorem rest_create_outcomes:
  assumes "hashing_ok H"
  shows "case handle_rest_create_issue L H standard_policy sd auth request s of
    ((status, EnvelopeOk r), s') \<Rightarrow>
       status = 201 \<and> request_valid request
       \<and> length (issues (committed s')) =
           length (issues (committed s)) + (if cr_idempotent_replay r then 0 else 1)
  | ((status, EnvelopeErr e), s') \<Rightarrow>
       ee_correlation_id e = Some (sd_correlation_id sd)
       \<and> (if request_valid request then (status, ee_code e) \<in> set create_outcomes else status = 422)
       \<and> (if status = 500 then ee_message e = INTERNAL_ERROR_PUBLIC_MESSAGE
          else committed s' = committed s)"
proof (cases "request_valid request")
  case False
  with prepare_cases(2) [OF assms] obtain code m where
    "prepare_create L H standard_policy sd auth request
       = Err (app_error code m KValidation (sd_correlation_id sd))" by blast
  from handle_refused [OF this] False show ?thesis
    by (simp add: map_transport_error_def app_error_def)
next
  case True
  let ?c = "command_of L H sd auth request"
  let ?run = "create_issue_transactional L (sd_store sd) auth ?c (event_of_command sd ?c) s"
  note run = handle_prepared [OF prepare_cases(1) [OF assms True]]
  show ?thesis
  proof (cases "fst ?run")
    case (Inr out)
    then show ?thesis
      by (cases rule: create_issue_cases [of L "sd_store sd" auth ?c "event_of_command sd ?c" s])
         (simp_all add: run case_prod_beta True created_length)
  next
    case (Inl er)
    have er: "is_create_error er" by (rule create_issue_error [OF Inl])
    have unchanged: "er \<in> range Sqlx \<union> range Serde \<or> committed (snd ?run) = committed s"
      using Inl
      by (cases rule: create_issue_cases [of L "sd_store sd" auth ?c "event_of_command sd ?c" s]) auto
    show ?thesis
      using store_error_response [OF er, of L "sd_correlation_id sd" ?c] create_error_listed [OF er]
        server_error_iff [OF er] unchanged
      by (auto simp: run case_prod_beta Inl True map_transport_error_def Let_def prod_eq_iff)
  qed
qed

section \<open>A request to run\<close>

definition demo_request :: create_issue_request where
  "demo_request = \<lparr>rq_idempotency_key = ''key-1'', rq_project_id = 3, rq_milestone_id = None,
     rq_title = ''Crash'', rq_description = None, rq_priority = HighDto\<rparr>"

definition demo_service_draws :: service_draws where
  "demo_service_draws = \<lparr>sd_command_id = 20, sd_issue_id = 21, sd_event_id = 22, sd_occurred_at = 50,
     sd_correlation_id = 25, sd_store = demo_draws\<rparr>"

definition demo_hashing :: hashing where
  "demo_hashing = \<lparr>json_text = (\<lambda>j. case json_get j ''title'' of Some (JStr t) \<Rightarrow> t | _ \<Rightarrow> []),
     sha256_hex = (\<lambda>s. replicate 64 (if s = ''Crash'' then CHR ''a'' else CHR ''b''))\<rparr>"

lemma demo_hashing_ok: "hashing_ok demo_hashing"
  by (simp add: hashing_ok_def demo_hashing_def list_all_iff)

lemma demo_request_valid: "request_valid demo_request"
  by (simp add: request_valid_def demo_request_def key_char_def is_ascii_graphic_def byte_def
      visible_not_blank [of "CHR ''k''"] visible_not_blank [of "CHR ''C''"] ws_seqs_def)

lemma demo_request_admissible:
  "create_issue_admissible (sd_store demo_service_draws) demo_auth
     (command_of L demo_hashing demo_service_draws demo_auth demo_request)
     (event_of_command demo_service_draws
        (command_of L demo_hashing demo_service_draws demo_auth demo_request)) demo_db"
  using fingerprint_text(1) [OF demo_hashing_ok, of L demo_request]
  by (simp add: create_issue_admissible_def command_row_checks_def text_between_def continuation_def
      byte_def exists_defs milestone_admissible_def row_exists_iff command_of_request_def
      event_of_command_def demo_service_draws_def demo_request_def demo_defs)

lemma demo_request_fresh:
  "stored_record (command_of L demo_hashing demo_service_draws demo_auth demo_request) demo_db = None"
  by (simp add: fetch_optional_def demo_defs)

theorem rest_create_outcomes_witness:
  "case handle_rest_create_issue bits_leaf demo_hashing standard_policy demo_service_draws demo_auth
      (demo_request\<lparr>rq_title := []\<rparr>) (demo_session [AnswerLost] demo_db) of
     ((status, EnvelopeOk r), s') \<Rightarrow> False
   | ((status, EnvelopeErr e), s') \<Rightarrow> status = 422 \<and> committed s' = demo_db"
  using rest_create_outcomes [OF demo_hashing_ok, where L = bits_leaf and sd = demo_service_draws
      and auth = demo_auth and request = "demo_request\<lparr>rq_title := []\<rparr>"
      and s = "demo_session [AnswerLost] demo_db"]
  by (auto simp: request_valid_def split: prod.splits envelope.splits)

section \<open>Fresh requests and retries\<close>

text \<open>The issue a request creates.\<close>

definition created_dto :: "service_draws \<Rightarrow> auth_context \<Rightarrow> create_issue_request \<Rightarrow> issue_dto" where
  "created_dto sd auth request =
     \<lparr>dto_id = sd_issue_id sd, dto_workspace_id = auth_workspace_id auth,
      dto_project_id = rq_project_id request, dto_milestone_id = rq_milestone_id request,
      dto_title = rq_title request, dto_description = rq_description request,
      dto_state_category = OpenDto, dto_priority = rq_priority request, dto_archived_at = None,
      dto_row_version = 0, dto_created_at = sd_occurred_at sd, dto_updated_at = sd_occurred_at sd\<rparr>"

lemma map_priority_round: "map_priority_to_dto (map_priority_from_dto p) = p"
  by (cases p) simp_all

lemma opened_dto:
  "map_issue_to_dto (opened_issue (command_of L H sd auth request) (sd_occurred_at sd))
     = created_dto sd auth request"
  by (simp add: map_issue_to_dto_def opened_issue_def command_of_request_def created_dto_def
      map_priority_round)

lemma event_occurred: "ice_occurred_at (event_of_command sd c) = sd_occurred_at sd"
  by (simp add: event_of_command_def)

lemma rest_changed:
  assumes "hashing_ok H"
    and "committed (snd (handle_rest_create_issue L H standard_policy sd auth request s)) \<noteq> committed s"
  shows "request_valid request"
    "snd (handle_rest_create_issue L H standard_policy sd auth request s) =
      snd (create_issue_transactional L (sd_store sd) auth (command_of L H sd auth request)
        (event_of_command sd (command_of L H sd auth request)) s)"
proof -
  show v: "request_valid request"
  proof (rule ccontr)
    assume "\<not> request_valid request"
    with prepare_cases(2) [OF assms(1)] obtain er where
      "prepare_create L H standard_policy sd auth request = Err er" by blast
    from handle_refused [OF this] assms(2) show False by simp
  qed
  show "snd (handle_rest_create_issue L H standard_policy sd auth request s) =
      snd (create_issue_transactional L (sd_store sd) auth (command_of L H sd auth request)
        (event_of_command sd (command_of L H sd auth request)) s)"
    by (simp add: handle_prepared [OF prepare_cases(1) [OF assms(1) v]] case_prod_beta)
qed

lemma demo_service_run:
  "committed (snd (handle_rest_create_issue bits_leaf demo_hashing standard_policy demo_service_draws
      demo_auth demo_request (demo_session [] demo_db))) \<noteq> demo_db"
  "faults (snd (handle_rest_create_issue bits_leaf demo_hashing standard_policy demo_service_draws
      demo_auth demo_request (demo_session [] demo_db))) = []"
  using create_issue_op.fault_free [of "demo_session [] demo_db" bits_leaf demo_draws demo_auth
      "command_of bits_leaf demo_hashing demo_service_draws demo_auth demo_request"
      "event_of_command demo_service_draws
        (command_of bits_leaf demo_hashing demo_service_draws demo_auth demo_request)"]
    create_issue_spec_fresh(1) [OF demo_request_fresh demo_request_admissible, of bits_leaf bits_leaf]
  by (simp_all add: handle_prepared [OF prepare_cases(1) [OF demo_hashing_ok demo_request_valid]]
      case_prod_beta demo_changed) (simp_all add: demo_service_draws_def demo_changed)

text \<open>
  C4: a client whose creation took effect, whether or not it saw the answer, gets on repeating the
  same request, over a working connection, status 201 with the issue the first request created,
  marked as a replay, and the repetition changes nothing; the fresh identifiers, clocks and actor of
  the repetition have no influence.
\<close>

theorem rest_retry_safe:
  assumes "hashing_ok H" "leaf_ok L"
    and "s' = snd (handle_rest_create_issue L H standard_policy sd auth request s)"
    and "committed s' \<noteq> committed s" "faults s' = []"
    and "auth_workspace_id auth' = auth_workspace_id auth"
  shows "let (answer, s'') = handle_rest_create_issue L H standard_policy sd' auth' request s' in
    answer = (201, EnvelopeOk \<lparr>cr_issue = created_dto sd auth request, cr_idempotent_replay = True\<rparr>)
    \<and> committed s'' = committed s'"
proof -
  let ?c = "command_of L H sd auth request"
  let ?c' = "command_of L H sd' auth' request"
  note changed = rest_changed [OF assms(1) assms(4)[unfolded assms(3)]]
  have "key_of ?c' = key_of ?c" "ci_request_fingerprint ?c' = ci_request_fingerprint ?c"
    using assms(6) by (simp_all add: key_of_def command_of_request_def)
  from replay_after_write [OF assms(2) assms(3)[unfolded changed(2)] assms(4,5) this assms(6),
      of "sd_store sd'" "event_of_command sd' ?c'"]
  show ?thesis
    by (simp add: handle_prepared [OF prepare_cases(1) [OF assms(1) changed(1)]] case_prod_beta
        event_occurred opened_dto)
qed

theorem rest_retry_safe_witness:
  "fst (handle_rest_create_issue bits_leaf demo_hashing standard_policy
      (demo_service_draws\<lparr>sd_issue_id := 98\<rparr>) demo_auth demo_request
      (snd (handle_rest_create_issue bits_leaf demo_hashing standard_policy demo_service_draws
         demo_auth demo_request (demo_session [] demo_db))))
   = (201, EnvelopeOk \<lparr>cr_issue = created_dto demo_service_draws demo_auth demo_request,
                      cr_idempotent_replay = True\<rparr>)"
  using rest_retry_safe [OF demo_hashing_ok bits_leaf_ok refl, where sd = demo_service_draws
      and sd' = "demo_service_draws\<lparr>sd_issue_id := 98\<rparr>" and auth = demo_auth and auth' = demo_auth
      and request = demo_request and s = "demo_session [] demo_db"] demo_service_run
  by (simp add: case_prod_beta)

text \<open>
  C5: after a creation took effect, a different request under its key whose content has another
  digest is answered 409 with the code of a duplicate command, and changes nothing.
\<close>

theorem rest_key_reuse_refused:
  assumes "hashing_ok H"
    and "s' = snd (handle_rest_create_issue L H standard_policy sd auth request s)"
    and "committed s' \<noteq> committed s" "faults s' = []"
    and "auth_workspace_id auth' = auth_workspace_id auth"
    and "request_valid request'" "rq_idempotency_key request' = rq_idempotency_key request"
    and "request_fingerprint_of L H request' \<noteq> request_fingerprint_of L H request"
  shows "case handle_rest_create_issue L H standard_policy sd' auth' request' s' of
      ((status, EnvelopeOk r), s'') \<Rightarrow> False
    | ((status, EnvelopeErr e), s'') \<Rightarrow>
        status = 409 \<and> ee_code e = ''duplicate_issue_command'' \<and> committed s'' = committed s'"
proof -
  let ?c = "command_of L H sd auth request"
  let ?c' = "command_of L H sd' auth' request'"
  note changed = rest_changed [OF assms(1) assms(3)[unfolded assms(2)]]
  have "key_of ?c' = key_of ?c" "text_between 1 128 (ci_request_fingerprint ?c')"
    "\<not> matches_request_fingerprint L (ci_request_fingerprint ?c) ?c'"
    using assms(5,7,8) fingerprint_text [OF assms(1)]
    by (simp_all add: key_of_def command_of_request_def matches_request_fingerprint_def)
  from conflict_after_write [OF assms(2)[unfolded changed(2)] assms(3,4) this(1) assms(5) this(2,3),
      of "sd_store sd'" "event_of_command sd' ?c'"]
  show ?thesis
    by (simp add: handle_prepared [OF prepare_cases(1) [OF assms(1,6)]] case_prod_beta
        map_transport_error_def map_duplicate_conflict_def app_error_def)
qed

theorem rest_key_reuse_refused_witness:
  "fst (fst (handle_rest_create_issue bits_leaf demo_hashing standard_policy demo_service_draws demo_auth
      (demo_request\<lparr>rq_title := ''Other''\<rparr>)
      (snd (handle_rest_create_issue bits_leaf demo_hashing standard_policy demo_service_draws
         demo_auth demo_request (demo_session [] demo_db))))) = 409"
proof -
  let ?other = "demo_request\<lparr>rq_title := ''Other''\<rparr>"
  have v: "request_valid ?other" "rq_idempotency_key ?other = rq_idempotency_key demo_request"
    using demo_request_valid
    by (simp_all add: request_valid_def visible_not_blank [of "CHR ''O''"] ws_seqs_def)
  have d: "request_fingerprint_of bits_leaf demo_hashing ?other
      \<noteq> request_fingerprint_of bits_leaf demo_hashing demo_request"
    by (simp add: request_fingerprint_of_def demo_hashing_def fingerprint_payload_def demo_request_def
        numeral_eq_Suc)
  show ?thesis
    using rest_key_reuse_refused [OF demo_hashing_ok refl _ _ refl v d, where s = "demo_session [] demo_db"
        and sd = demo_service_draws and sd' = demo_service_draws and auth = demo_auth] demo_service_run
    by (auto split: prod.splits envelope.splits)
qed

section \<open>Reads\<close>

text \<open>
  C8: over a working connection a read answers 200 with the issue exactly when the reader's own
  workspace has an issue of that identifier, and 404 otherwise, also when the issue exists in another
  workspace.
\<close>

theorem rest_get_exact:
  assumes "faults s = []" "schema_ok (committed s)"
  shows "case handle_rest_get_issue L standard_policy cid auth issue_id s of
      ((status, EnvelopeOk r), s') \<Rightarrow> status = 200 \<and> committed s' = committed s
        \<and> (\<exists>row\<in>set (issues (committed s)).
             i_id row = issue_id \<and> i_workspace_id row = auth_workspace_id auth
             \<and> map_ok map_issue_to_dto (map_issue_row row) = Ok (gr_issue r))
    | ((status, EnvelopeErr e), s') \<Rightarrow>
        status = 404 \<and> ee_code e = ''issue_not_found'' \<and> ee_correlation_id e = Some cid
        \<and> \<not> issue_exists (committed s) (auth_workspace_id auth) issue_id"
proof -
  let ?seen = "\<lambda>r. tenant_visible (Some (auth_workspace_id auth)) (i_workspace_id r) \<and> i_id r = issue_id"
  have run: "handle_rest_get_issue L standard_policy cid auth issue_id s =
      (let (result, s') = get_issue auth issue_id s in
       (respond 200 (and_then (map_err (map_store_error_read cid) result) (\<lambda>found.
          and_then (ok_or found (app_error ''issue_not_found''
              (''issue '' @ quoted (uuid_str L issue_id) @ '' was not found'') KNotFound cid))
            (\<lambda>i. Ok \<lparr>gr_issue = map_issue_to_dto i\<rparr>))), s'))"
    by (simp add: handle_rest_get_issue_def service_get_issue_def standard_enforced case_prod_beta Let_def)
  note fault_free = get_issue_op.fault_free [OF assms(1), of auth issue_id]
  show ?thesis
  proof (cases "fetch_optional ?seen (issues (committed s))")
    case None
    then have "fst (get_issue auth issue_id s) = Ok None" "committed (snd (get_issue auth issue_id s)) = committed s"
      by (simp_all add: fault_free get_issue_spec_def)
    moreover have "\<not> issue_exists (committed s) (auth_workspace_id auth) issue_id"
      using None by (auto simp: fetch_optional_None issue_exists_def row_exists_iff tenant_visible_def)
    ultimately show ?thesis
      by (simp add: run case_prod_beta map_transport_error_def app_error_def)
  next
    case (Some row)
    then have row: "row \<in> set (issues (committed s))" "i_id row = issue_id"
      "i_workspace_id row = auth_workspace_id auth"
      by (auto dest!: fetch_optional_SomeD simp: tenant_visible_def)
    with assms(2) have "issue_row_ok (committed s) row" by (simp add: schema_ok_def issues_ok_def)
    then obtain i where "map_issue_row row = Inr i" by (rule map_issue_row_Ok)
    with Some have "fst (get_issue auth issue_id s) = Ok (Some i)"
      "committed (snd (get_issue auth issue_id s)) = committed s"
      by (simp_all add: fault_free get_issue_spec_def)
    with row \<open>map_issue_row row = Inr i\<close> show ?thesis
      by (auto simp: run case_prod_beta intro!: bexI [of _ row])
  qed
qed

theorem rest_get_exact_witness:
  "fst (fst (handle_rest_get_issue bits_leaf standard_policy 5 demo_auth 21 (demo_session [] demo_db))) = 404"
  using rest_get_exact [where s = "demo_session [] demo_db" and L = bits_leaf and cid = 5
      and auth = demo_auth and issue_id = 21] demo_db_ok
  by (auto simp: demo_defs split: prod.splits envelope.splits)

end
