(* ===== verification/Parse_Int.thy ===== *)
theory Parse_Int
  imports Json
begin

text \<open>
  \<open>str::parse\<close> at the integer types of the configuration, as the Rust library does it: an optional
  sign, at least one digit, and an error as soon as the value leaves the type.
\<close>

section \<open>The types\<close>

datatype int_type = U32 | U64 | Usize | I32 | I64

fun is_signed :: "int_type \<Rightarrow> bool" where
  "is_signed I32 = True" | "is_signed I64 = True"
| "is_signed U32 = False" | "is_signed U64 = False" | "is_signed Usize = False"

fun type_min :: "int_type \<Rightarrow> int" where
  "type_min I32 = - (2 ^ 31)" | "type_min I64 = - (2 ^ 63)"
| "type_min U32 = 0" | "type_min U64 = 0" | "type_min Usize = 0"

fun type_max :: "int_type \<Rightarrow> int" where
  "type_max I32 = 2 ^ 31 - 1" | "type_max I64 = 2 ^ 63 - 1"
| "type_max U32 = 2 ^ 32 - 1" | "type_max U64 = 2 ^ 64 - 1" | "type_max Usize = 2 ^ 64 - 1"

lemma type_bounds: "type_min ty \<le> 0" "0 \<le> type_max ty"
  by (cases ty; simp)+

lemma unsigned_min: "\<not> is_signed ty \<Longrightarrow> type_min ty = 0"
  by (cases ty) simp_all

section \<open>Parsing\<close>

datatype int_error = EmptyText | InvalidDigit | PosOverflow | NegOverflow

fun int_error_display :: "int_error \<Rightarrow> string" where
  "int_error_display EmptyText = ''cannot parse integer from empty string''"
| "int_error_display InvalidDigit = ''invalid digit found in string''"
| "int_error_display PosOverflow = ''number too large to fit in target type''"
| "int_error_display NegOverflow = ''number too small to fit in target type''"

definition is_digit :: "char \<Rightarrow> bool" where
  "is_digit c \<longleftrightarrow> 48 \<le> byte c \<and> byte c \<le> 57"

text \<open>The digits, towards the minimum of the type for a negative number.\<close>

fun parse_digits :: "bool \<Rightarrow> int_type \<Rightarrow> int \<Rightarrow> string \<Rightarrow> int_error + int" where
  "parse_digits negative ty acc [] = Ok acc"
| "parse_digits negative ty acc (c # cs) =
     (if \<not> is_digit c then Err InvalidDigit
      else
        let d = int (byte c - 48); v = (if negative then acc * 10 - d else acc * 10 + d) in
        if v < type_min ty then Err NegOverflow
        else if type_max ty < v then Err PosOverflow
        else parse_digits negative ty v cs)"

definition parse_int :: "int_type \<Rightarrow> string \<Rightarrow> int_error + int" where
  "parse_int ty raw =
     (case raw of
        [] \<Rightarrow> Err EmptyText
      | c # rest \<Rightarrow>
          if (c = CHR 0x2B \<or> c = CHR 0x2D) \<and> rest = [] then Err InvalidDigit
          else if c = CHR 0x2B then parse_digits False ty 0 rest
          else if c = CHR 0x2D \<and> is_signed ty then parse_digits True ty 0 rest
          else parse_digits False ty 0 raw)"

section \<open>What is parsed\<close>

text \<open>The numerals of a type with their value: the grammar the parser decides.\<close>

inductive numeral_of :: "int_type \<Rightarrow> string \<Rightarrow> int \<Rightarrow> bool" for ty where
  plain: "digits \<noteq> [] \<Longrightarrow> list_all is_digit digits \<Longrightarrow> v = int (read_nat digits) \<Longrightarrow> v \<le> type_max ty
    \<Longrightarrow> numeral_of ty digits v"
| plus: "digits \<noteq> [] \<Longrightarrow> list_all is_digit digits \<Longrightarrow> v = int (read_nat digits) \<Longrightarrow> v \<le> type_max ty
    \<Longrightarrow> numeral_of ty (CHR 0x2B # digits) v"
| minus: "digits \<noteq> [] \<Longrightarrow> list_all is_digit digits \<Longrightarrow> v = - int (read_nat digits) \<Longrightarrow> type_min ty \<le> v
    \<Longrightarrow> is_signed ty \<Longrightarrow> numeral_of ty (CHR 0x2D # digits) v"

abbreviation push_digit :: "nat \<Rightarrow> char \<Rightarrow> nat" where
  "push_digit n c \<equiv> 10 * n + (byte c - 48)"

lemma push_digits_mono: "n \<le> foldl push_digit n cs"
proof (induction cs arbitrary: n)
  case (Cons c cs)
  have "n \<le> push_digit n c" by simp
  also have "\<dots> \<le> foldl push_digit (push_digit n c) cs" by (rule Cons)
  finally show ?case by simp
qed simp

lemma parse_digits_plus:
  "parse_digits False ty (int n) cs = Ok v \<longleftrightarrow>
     list_all is_digit cs \<and> v = int (foldl push_digit n cs) \<and> (cs = [] \<or> v \<le> type_max ty)"
proof (induction cs arbitrary: n)
  case (Cons c cs)
  have step: "int n * 10 + int (byte c - 48) = int (push_digit n c)" by simp
  show ?case
  proof (cases "int (push_digit n c) \<le> type_max ty")
    case True
    then show ?thesis
      using type_bounds(1) [of ty] Cons [of "push_digit n c"]
      by (simp add: step del: of_nat_add of_nat_mult) (cases cs; auto)
  next
    case False
    then show ?thesis
      using type_bounds(1) [of ty] push_digits_mono [of "push_digit n c" cs]
      by (simp add: step del: of_nat_add of_nat_mult)
  qed
qed auto

lemma parse_digits_minus:
  "parse_digits True ty (- int n) cs = Ok v \<longleftrightarrow>
     list_all is_digit cs \<and> v = - int (foldl push_digit n cs) \<and> (cs = [] \<or> type_min ty \<le> v)"
proof (induction cs arbitrary: n)
  case (Cons c cs)
  have step: "- int n * 10 - int (byte c - 48) = - int (push_digit n c)" by simp
  show ?case
  proof (cases "type_min ty \<le> - int (push_digit n c)")
    case True
    then show ?thesis
      using type_bounds(2) [of ty] Cons [of "push_digit n c"]
      by (simp add: step del: of_nat_add of_nat_mult mult_minus_left) (cases cs; auto)
  next
    case False
    then show ?thesis
      using type_bounds(2) [of ty] push_digits_mono [of "push_digit n c" cs]
      by (simp add: step del: of_nat_add of_nat_mult mult_minus_left)
  qed
qed auto

declare parse_digits.simps [simp del]

lemma parse_digits_0:
  "parse_digits False ty 0 cs = Ok v \<longleftrightarrow>
     list_all is_digit cs \<and> v = int (read_nat cs) \<and> (cs = [] \<or> v \<le> type_max ty)"
  "parse_digits True ty 0 cs = Ok v \<longleftrightarrow>
     list_all is_digit cs \<and> v = - int (read_nat cs) \<and> (cs = [] \<or> type_min ty \<le> v)"
  using parse_digits_plus [of ty 0 cs v] parse_digits_minus [of ty 0 cs v] by (simp_all add: read_nat_def)

lemma sign_no_digit: "\<not> is_digit (CHR 0x2B)" "\<not> is_digit (CHR 0x2D)"
  by (simp_all add: is_digit_def byte_def)

lemma parse_int_eq_Ok: "parse_int ty raw = Ok v \<longleftrightarrow> numeral_of ty raw v"
proof
  assume "parse_int ty raw = Ok v"
  then show "numeral_of ty raw v"
    by (auto simp: parse_int_def parse_digits_0 intro: numeral_of.intros
        split: list.splits if_splits)
next
  assume "numeral_of ty raw v"
  then show "parse_int ty raw = Ok v"
    by cases (auto simp: parse_int_def parse_digits_0 sign_no_digit
        split: list.splits)
qed

lemma parse_int_range: "parse_int ty raw = Ok v \<Longrightarrow> type_min ty \<le> v \<and> v \<le> type_max ty"
  using type_bounds [of ty] by (auto simp: parse_int_eq_Ok elim!: numeral_of.cases)

section \<open>A written number is read back\<close>

lemma show_nat_digits: "list_all is_digit (show_nat n)"
proof (induction n rule: show_nat.induct)
  case (1 n)
  have "is_digit (char_of (48 + d))" if "d < 10" for d :: nat using that by (simp add: is_digit_def)
  then show ?case using 1 by (subst show_nat.simps) simp
qed

lemma parse_int_show: "type_min ty \<le> v \<Longrightarrow> v \<le> type_max ty \<Longrightarrow> parse_int ty (show_int v) = Ok v"
  using unsigned_min [of ty]
  by (cases "is_signed ty")
     (auto simp: parse_int_eq_Ok show_int_def read_show_nat show_nat_digits
       intro: numeral_of.plain numeral_of.minus)

end
