(* ===== verification/Auth.thy ===== *)
theory Auth
  imports Parse_Int "HOL-Library.AList"
begin

text \<open>
  The crate \<open>dandori-auth\<close>: the algorithm profile and its parsing, the key set, the authentication
  of a token, the refresh of the key set, the configuration from the environment.  Signatures, token
  and JWK decoding belong to \<open>jsonwebtoken\<close> and are the parameter \<open>jose\<close>; a decoding key is any value.
  The environment is the function from variable names to their text.
\<close>

section \<open>Algorithms\<close>

datatype algorithm =
    HS256 | HS384 | HS512 | ES256 | ES384 | RS256 | RS384 | RS512 | PS256 | PS384 | PS512 | EdDSA

fun algorithm_debug :: "algorithm \<Rightarrow> string" where
  "algorithm_debug HS256 = ''HS256''"
| "algorithm_debug HS384 = ''HS384''"
| "algorithm_debug HS512 = ''HS512''"
| "algorithm_debug ES256 = ''ES256''"
| "algorithm_debug ES384 = ''ES384''"
| "algorithm_debug RS256 = ''RS256''"
| "algorithm_debug RS384 = ''RS384''"
| "algorithm_debug RS512 = ''RS512''"
| "algorithm_debug PS256 = ''PS256''"
| "algorithm_debug PS384 = ''PS384''"
| "algorithm_debug PS512 = ''PS512''"
| "algorithm_debug EdDSA = ''EdDSA''"

text \<open>\<open>KeyAlgorithm\<close> has the signature algorithms and others, which only encrypt.\<close>

datatype key_algorithm =
    KeyHS256 | KeyHS384 | KeyHS512 | KeyES256 | KeyES384 | KeyRS256 | KeyRS384 | KeyRS512
  | KeyPS256 | KeyPS384 | KeyPS512 | KeyEdDSA | KeyOther string

datatype auth_error =
    MissingEnv string
  | InvalidJwksSource
  | InvalidEnvNumber string
  | ReadJwksPath string string
  | FetchJwksUrl string string
  | InvalidJwks string
  | EmptyJwks
  | BuildDecodingKey string
  | TokenHeader string
  | MissingKid
  | UnknownKid string
  | AlgorithmMismatch
  | DisallowedAlgorithm string
  | TokenVerify string
  | InvalidSub string
  | InvalidWorkspaceId string

fun auth_error_display :: "auth_error \<Rightarrow> string" where
  "auth_error_display (MissingEnv name) = ''missing required environment variable '' @ quoted name"
| "auth_error_display InvalidJwksSource =
     ''exactly one of DANDORI_OIDC_JWKS_PATH or DANDORI_OIDC_JWKS_URL must be configured''"
| "auth_error_display (InvalidEnvNumber name) =
     ''failed to parse environment variable '' @ quoted name @ '' as a positive integer''"
| "auth_error_display (ReadJwksPath path source) =
     ''failed to read JWKS file '' @ quoted path @ '': '' @ source"
| "auth_error_display (FetchJwksUrl url source) =
     ''failed to fetch JWKS URL '' @ quoted url @ '': '' @ source"
| "auth_error_display (InvalidJwks e) = ''invalid JWKS document: '' @ e"
| "auth_error_display EmptyJwks = ''JWKS has no keys''"
| "auth_error_display (BuildDecodingKey e) = ''failed to build decoding key from JWK: '' @ e"
| "auth_error_display (TokenHeader e) = ''token header decode failed: '' @ e"
| "auth_error_display MissingKid = ''token missing kid header with multiple configured JWKS keys''"
| "auth_error_display (UnknownKid kid) = ''no configured key for token kid '' @ quoted kid"
| "auth_error_display AlgorithmMismatch = ''token algorithm is not allowed for selected key''"
| "auth_error_display (DisallowedAlgorithm a) =
     ''token algorithm '' @ quoted a @ '' is not in allowed algorithms''"
| "auth_error_display (TokenVerify e) = ''token verification failed: '' @ e"
| "auth_error_display (InvalidSub e) = ''invalid '' @ quoted ''sub'' @ '' claim as UUID: '' @ e"
| "auth_error_display (InvalidWorkspaceId e) = ''invalid '' @ quoted ''workspace_id'' @ '' claim as UUID: '' @ e"

fun map_key_algorithm :: "key_algorithm \<Rightarrow> auth_error + algorithm" where
  "map_key_algorithm KeyHS256 = Ok HS256"
| "map_key_algorithm KeyHS384 = Ok HS384"
| "map_key_algorithm KeyHS512 = Ok HS512"
| "map_key_algorithm KeyES256 = Ok ES256"
| "map_key_algorithm KeyES384 = Ok ES384"
| "map_key_algorithm KeyRS256 = Ok RS256"
| "map_key_algorithm KeyRS384 = Ok RS384"
| "map_key_algorithm KeyRS512 = Ok RS512"
| "map_key_algorithm KeyPS256 = Ok PS256"
| "map_key_algorithm KeyPS384 = Ok PS384"
| "map_key_algorithm KeyPS512 = Ok PS512"
| "map_key_algorithm KeyEdDSA = Ok EdDSA"
| "map_key_algorithm (KeyOther name) = Err AlgorithmMismatch"

datatype auth_profile = Dev | Prod

type_synonym env = "string \<Rightarrow> string option"

text \<open>\<open>debug\<close> is \<open>cfg!(debug_assertions)\<close>, a constant of the build.\<close>

definition current_profile :: "bool \<Rightarrow> env \<Rightarrow> auth_profile" where
  "current_profile debug env =
     (case env ''DANDORI_PROFILE'' of
        Some value \<Rightarrow> if value = ''dev'' then Dev else Prod
      | None \<Rightarrow> if debug then Dev else Prod)"

definition parse_algorithm :: "auth_profile \<Rightarrow> string \<Rightarrow> auth_error + algorithm" where
  "parse_algorithm profile item =
     (if item = ''RS256'' then Ok RS256
      else if item = ''RS384'' then Ok RS384
      else if item = ''RS512'' then Ok RS512
      else if item = ''PS256'' then Ok PS256
      else if item = ''PS384'' then Ok PS384
      else if item = ''PS512'' then Ok PS512
      else if item = ''ES256'' then Ok ES256
      else if item = ''ES384'' then Ok ES384
      else if item = ''EdDSA'' then Ok EdDSA
      else if item \<in> {''HS256'', ''HS384'', ''HS512''} \<and> profile = Dev then
        Ok (if item = ''HS256'' then HS256 else if item = ''HS384'' then HS384 else HS512)
      else if item \<in> {''HS256'', ''HS384'', ''HS512''} then Err AlgorithmMismatch
      else Err AlgorithmMismatch)"

fun parse_items :: "auth_profile \<Rightarrow> string list \<Rightarrow> auth_error + algorithm list" where
  "parse_items profile [] = Ok []"
| "parse_items profile (raw # raws) =
     (let item = trim raw in
      if item = [] then parse_items profile raws
      else and_then (parse_algorithm profile item) (\<lambda>algorithm.
           map_ok (Cons algorithm) (parse_items profile raws)))"

definition parse_allowed_algorithms_with_profile ::
  "string \<Rightarrow> auth_profile \<Rightarrow> auth_error + algorithm list" where
  "parse_allowed_algorithms_with_profile value profile =
     and_then (parse_items profile (split_char (CHR '','') value)) (\<lambda>parsed.
     if parsed = [] then Err AlgorithmMismatch else Ok parsed)"

definition default_runtime_allowed_algorithms :: "algorithm list" where
  "default_runtime_allowed_algorithms =
     [RS256, RS384, RS512, PS256, PS384, PS512, ES256, ES384, EdDSA]"

definition default_test_allowed_algorithms :: "algorithm list" where
  "default_test_allowed_algorithms =
     [HS256, HS384, HS512, RS256, RS384, RS512, PS256, PS384, PS512, ES256, ES384, EdDSA]"

section \<open>Keys\<close>

record jwk =
  jwk_key_id :: "string option"
  jwk_key_algorithm :: "key_algorithm option"
  jwk_material :: string

record token_header =
  th_alg :: algorithm
  th_kid :: "string option"

record jwt_claims =
  jc_sub :: string
  jc_workspace_id :: string

record jwt_validation =
  jv_algorithm :: algorithm
  jv_issuer :: string
  jv_audience :: string

text \<open>
  The operations of \<open>jsonwebtoken\<close>: \<open>decode\<close> verifies the signature under a key and the registered
  claims under a validation.
\<close>

record 'k jose =
  jose_jwk_set :: "string \<Rightarrow> string + jwk list"
  jose_from_jwk :: "jwk \<Rightarrow> string + 'k"
  jose_decode_header :: "string \<Rightarrow> string + token_header"
  jose_decode :: "string \<Rightarrow> 'k \<Rightarrow> jwt_validation \<Rightarrow> string + jwt_claims"

record 'k jwk_entry =
  je_decoding_key :: 'k
  je_algorithm :: "algorithm option"

text \<open>\<open>HashMap\<close>: an association list with one entry for a key.\<close>

record 'k jwk_keyset =
  ks_keys :: "(string \<times> 'k jwk_entry) list"
  ks_fallback_key :: "'k jwk_entry option"

definition try_from_jwk :: "'k jose \<Rightarrow> jwk \<Rightarrow> auth_error + 'k jwk_entry" where
  "try_from_jwk J jwk =
     and_then (map_err BuildDecodingKey (jose_from_jwk J jwk)) (\<lambda>decoding_key.
     and_then (case jwk_key_algorithm jwk of
                 None \<Rightarrow> Ok None
               | Some a \<Rightarrow> map_ok Some (map_key_algorithm a)) (\<lambda>algorithm.
     Ok \<lparr>je_decoding_key = decoding_key, je_algorithm = algorithm\<rparr>))"

fun insert_keys ::
  "'k jose \<Rightarrow> jwk list \<Rightarrow> 'k jwk_keyset \<Rightarrow> auth_error + 'k jwk_keyset" where
  "insert_keys J [] keyset = Ok keyset"
| "insert_keys J (jwk # jwks) keyset =
     and_then (try_from_jwk J jwk) (\<lambda>entry.
       insert_keys J jwks
         (case jwk_key_id jwk of
            Some key_id \<Rightarrow> keyset\<lparr>ks_keys := AList.update key_id entry (ks_keys keyset)\<rparr>
          | None \<Rightarrow>
              if ks_fallback_key keyset = None then keyset\<lparr>ks_fallback_key := Some entry\<rparr>
              else keyset))"

definition parse_jwks :: "'k jose \<Rightarrow> string \<Rightarrow> auth_error + 'k jwk_keyset" where
  "parse_jwks J jwks_raw =
     and_then (map_err InvalidJwks (jose_jwk_set J jwks_raw)) (\<lambda>jwk_set.
     if jwk_set = [] then Err EmptyJwks
     else and_then (insert_keys J jwk_set \<lparr>ks_keys = [], ks_fallback_key = None\<rparr>) (\<lambda>keyset.
          if ks_keys keyset = [] \<and> ks_fallback_key keyset = None then Err EmptyJwks
          else Ok keyset))"

section \<open>Authentication\<close>

record authenticated_claims =
  ac_actor_id :: uuid
  ac_workspace_id :: uuid

record 'k authenticator =
  au_issuer :: string
  au_audience :: string
  au_allowed_algorithms :: "algorithm list"
  au_keyset :: "'k jwk_keyset"

definition from_jwks_json_with_allowed_algorithms ::
  "'k jose \<Rightarrow> string \<Rightarrow> string \<Rightarrow> string \<Rightarrow> algorithm list \<Rightarrow> auth_error + 'k authenticator" where
  "from_jwks_json_with_allowed_algorithms J issuer audience jwks_raw allowed_algorithms =
     and_then (parse_jwks J jwks_raw) (\<lambda>keyset.
     Ok \<lparr>au_issuer = issuer, au_audience = audience,
         au_allowed_algorithms = allowed_algorithms, au_keyset = keyset\<rparr>)"

definition from_jwks_json ::
  "'k jose \<Rightarrow> string \<Rightarrow> string \<Rightarrow> string \<Rightarrow> auth_error + 'k authenticator" where
  "from_jwks_json J issuer audience jwks_raw =
     from_jwks_json_with_allowed_algorithms J issuer audience jwks_raw default_test_allowed_algorithms"

definition select_key :: "'k jwk_keyset \<Rightarrow> string option \<Rightarrow> auth_error + 'k jwk_entry" where
  "select_key keyset header_kid =
     (case header_kid of
        Some kid \<Rightarrow> ok_or (map_of (ks_keys keyset) kid) (UnknownKid kid)
      | None \<Rightarrow>
          if length (ks_keys keyset) \<le> 1 then
            (case ks_keys keyset of
               (_, entry) # _ \<Rightarrow> Ok entry
             | [] \<Rightarrow> ok_or (ks_fallback_key keyset) MissingKid)
          else Err MissingKid)"

definition authenticate_token ::
  "leaf \<Rightarrow> 'k jose \<Rightarrow> 'k authenticator \<Rightarrow> string \<Rightarrow> auth_error + authenticated_claims" where
  "authenticate_token L J self token =
     and_then (map_err TokenHeader (jose_decode_header J token)) (\<lambda>header.
     and_then (select_key (au_keyset self) (th_kid header)) (\<lambda>selected_key.
     and_then (case je_algorithm selected_key of
                 None \<Rightarrow> Ok ()
               | Some expected_algorithm \<Rightarrow>
                   guard_err (expected_algorithm \<noteq> th_alg header) AlgorithmMismatch) (\<lambda>_.
     and_then (guard_err (th_alg header \<notin> set (au_allowed_algorithms self))
                 (DisallowedAlgorithm (algorithm_debug (th_alg header)))) (\<lambda>_.
     let validation = \<lparr>jv_algorithm = th_alg header, jv_issuer = au_issuer self,
                       jv_audience = au_audience self\<rparr>
     in and_then (map_err TokenVerify
                    (jose_decode J token (je_decoding_key selected_key) validation)) (\<lambda>claims.
        and_then (map_err InvalidSub (uuid_parse L (jc_sub claims))) (\<lambda>actor_id.
        and_then (map_err InvalidWorkspaceId (uuid_parse L (jc_workspace_id claims))) (\<lambda>workspace_id.
        Ok \<lparr>ac_actor_id = actor_id, ac_workspace_id = workspace_id\<rparr>)))))))"

section \<open>Refresh of the key set\<close>

record jwks_refresh_config =
  jr_interval_millis :: nat
  jr_timeout_millis :: nat
  jr_max_backoff_millis :: nat

definition jwks_refresh_default :: jwks_refresh_config where
  "jwks_refresh_default =
     \<lparr>jr_interval_millis = 300000, jr_timeout_millis = 2000, jr_max_backoff_millis = 300000\<rparr>"

text \<open>A \<open>std::time::Duration\<close> in nanoseconds, with its largest value.\<close>

definition from_millis :: "nat \<Rightarrow> nat" where
  "from_millis n = n * 1000000"

definition DURATION_MAX :: nat where
  "DURATION_MAX = (2 ^ 64 - 1) * 1000000000 + 999999999"

definition saturating_mul :: "nat \<Rightarrow> nat \<Rightarrow> nat" where
  "saturating_mul d n = min (d * n) DURATION_MAX"

definition refresh_interval :: "jwks_refresh_config \<Rightarrow> nat" where
  "refresh_interval self = from_millis (max (jr_interval_millis self) 1)"

definition refresh_timeout :: "jwks_refresh_config \<Rightarrow> nat" where
  "refresh_timeout self = from_millis (max (jr_timeout_millis self) 1)"

definition refresh_max_backoff :: "jwks_refresh_config \<Rightarrow> nat" where
  "refresh_max_backoff self =
     from_millis (max (jr_max_backoff_millis self) (max (jr_interval_millis self) 1))"

text \<open>What loading the document ends with.\<close>

datatype load_outcome = Loaded string | LoadFailed auth_error | LoadTimedOut

record 'k refresh_state =
  rs_next_delay :: nat
  rs_keyset :: "'k jwk_keyset"

text \<open>One turn of the loop of \<open>start_refresh_task\<close>, after the sleep.\<close>

definition refresh_turn ::
  "'k jose \<Rightarrow> jwks_refresh_config \<Rightarrow> load_outcome \<Rightarrow> 'k refresh_state \<Rightarrow> 'k refresh_state" where
  "refresh_turn J refresh outcome st =
     (let back_off = st\<lparr>rs_next_delay :=
            min (saturating_mul (rs_next_delay st) 2) (refresh_max_backoff refresh)\<rparr> in
      case outcome of
        LoadTimedOut \<Rightarrow> back_off
      | LoadFailed error \<Rightarrow> back_off
      | Loaded raw \<Rightarrow>
          (case parse_jwks J raw of
             Inr parsed \<Rightarrow> st\<lparr>rs_keyset := parsed, rs_next_delay := refresh_interval refresh\<rparr>
           | Inl error \<Rightarrow> back_off))"

definition refresh_turns ::
  "'k jose \<Rightarrow> jwks_refresh_config \<Rightarrow> load_outcome list \<Rightarrow> 'k jwk_keyset \<Rightarrow> 'k refresh_state" where
  "refresh_turns J refresh outcomes keyset =
     foldl (\<lambda>st outcome. refresh_turn J refresh outcome st)
       \<lparr>rs_next_delay = refresh_interval refresh, rs_keyset = keyset\<rparr> outcomes"

section \<open>Configuration\<close>

datatype jwks_source = JwksPath string | JwksUrl string

record oidc_config =
  oc_issuer :: string
  oc_audience :: string
  oc_jwks_source :: jwks_source
  oc_allowed_algorithms :: "algorithm list"
  oc_jwks_refresh :: jwks_refresh_config

definition parse_env_u64 :: "env \<Rightarrow> string \<Rightarrow> nat \<Rightarrow> auth_error + nat" where
  "parse_env_u64 env name default_value =
     (case env name of
        None \<Rightarrow> Ok default_value
      | Some raw \<Rightarrow> map_ok nat (map_err (\<lambda>_. InvalidEnvNumber name) (parse_int U64 raw)))"

definition OidcConfig_from_env :: "bool \<Rightarrow> env \<Rightarrow> auth_error + oidc_config" where
  "OidcConfig_from_env debug env =
     and_then (ok_or (env ''DANDORI_OIDC_ISSUER'') (MissingEnv ''DANDORI_OIDC_ISSUER'')) (\<lambda>issuer.
     and_then (ok_or (env ''DANDORI_OIDC_AUDIENCE'') (MissingEnv ''DANDORI_OIDC_AUDIENCE'')) (\<lambda>audience.
     and_then (case (env ''DANDORI_OIDC_JWKS_PATH'', env ''DANDORI_OIDC_JWKS_URL'') of
                 (Some path, None) \<Rightarrow> Ok (JwksPath path)
               | (None, Some url) \<Rightarrow> Ok (JwksUrl url)
               | _ \<Rightarrow> Err InvalidJwksSource) (\<lambda>source.
     and_then (case env ''DANDORI_OIDC_ALLOWED_ALGS'' of
                 None \<Rightarrow> Ok default_runtime_allowed_algorithms
               | Some value \<Rightarrow>
                   parse_allowed_algorithms_with_profile value (current_profile debug env)) (\<lambda>allowed.
     and_then (parse_env_u64 env ''DANDORI_OIDC_JWKS_REFRESH_INTERVAL_MILLIS''
                 (jr_interval_millis jwks_refresh_default)) (\<lambda>interval.
     and_then (parse_env_u64 env ''DANDORI_OIDC_JWKS_REFRESH_TIMEOUT_MILLIS''
                 (jr_timeout_millis jwks_refresh_default)) (\<lambda>timeout.
     and_then (parse_env_u64 env ''DANDORI_OIDC_JWKS_REFRESH_MAX_BACKOFF_MILLIS''
                 (jr_max_backoff_millis jwks_refresh_default)) (\<lambda>max_backoff.
     Ok \<lparr>oc_issuer = issuer, oc_audience = audience, oc_jwks_source = source,
         oc_allowed_algorithms = allowed,
         oc_jwks_refresh = \<lparr>jr_interval_millis = interval, jr_timeout_millis = timeout,
                            jr_max_backoff_millis = max_backoff\<rparr>\<rparr>)))))))"

text \<open>\<open>from_config\<close> with the outcome of the first load; the refresh then runs on the key set.\<close>

definition from_config ::
  "'k jose \<Rightarrow> oidc_config \<Rightarrow> auth_error + string \<Rightarrow> auth_error + 'k authenticator" where
  "from_config J config loaded =
     and_then loaded (\<lambda>jwks_raw.
     and_then (parse_jwks J jwks_raw) (\<lambda>keyset.
     Ok \<lparr>au_issuer = oc_issuer config, au_audience = oc_audience config,
         au_allowed_algorithms = oc_allowed_algorithms config, au_keyset = keyset\<rparr>))"

section \<open>Which algorithms are allowed\<close>

definition symmetric :: "algorithm \<Rightarrow> bool" where
  "symmetric a \<longleftrightarrow> a \<in> {HS256, HS384, HS512}"

lemma parse_algorithm_Ok:
  "parse_algorithm profile item = Inr a \<longleftrightarrow> item = algorithm_debug a \<and> (profile = Dev \<or> \<not> symmetric a)"
  by (cases a; auto simp: parse_algorithm_def symmetric_def)

lemma parse_items_Ok:
  "parse_items profile raws = Inr parsed \<longleftrightarrow>
     filter (\<lambda>item. item \<noteq> []) (map trim raws) = map algorithm_debug parsed
     \<and> (profile = Dev \<or> list_all (\<lambda>a. \<not> symmetric a) parsed)"
proof (induction raws arbitrary: parsed)
  case (Cons raw raws)
  have ne: "algorithm_debug a \<noteq> []" for a by (cases a) simp_all
  show ?case
  proof (cases "trim raw = []")
    case True
    then show ?thesis using Cons.IH by (simp add: Let_def)
  next
    case False
    then show ?thesis
      by (cases parsed) (auto simp: Let_def result_simps parse_algorithm_Ok Cons.IH)
  qed
qed auto

lemma allowed_algorithms_Ok:
  "parse_allowed_algorithms_with_profile value profile = Inr parsed \<longleftrightarrow>
     parsed \<noteq> []
     \<and> filter (\<lambda>item. item \<noteq> []) (map trim (split_char (CHR '','') value)) = map algorithm_debug parsed
     \<and> (profile = Dev \<or> list_all (\<lambda>a. \<not> symmetric a) parsed)"
  by (auto simp: parse_allowed_algorithms_with_profile_def result_simps parse_items_Ok split: if_splits)

text \<open>
  A list of algorithms is accepted exactly when its comma-separated, trimmed, non-empty items
  are names of signature algorithms, at least one, and none of a shared-secret algorithm unless the
  profile is the development profile; the algorithms come in the order written.
\<close>

theorem allowed_algorithms_exact:
  "(parse_allowed_algorithms_with_profile value profile = Ok parsed) =
     (parsed \<noteq> []
      \<and> filter (\<lambda>item. item \<noteq> []) (map trim (split_char (CHR '','') value)) = map algorithm_debug parsed
      \<and> (profile = Dev \<or> list_all (\<lambda>a. \<not> symmetric a) parsed))"
  by (rule allowed_algorithms_Ok)

lemma release_config_asymmetric:
  assumes "OidcConfig_from_env False env = Inr config" "env ''DANDORI_PROFILE'' \<noteq> Some ''dev''"
  shows "list_all (\<lambda>a. \<not> symmetric a) (oc_allowed_algorithms config)"
proof (cases "env ''DANDORI_OIDC_ALLOWED_ALGS''")
  case None
  with assms(1) show ?thesis
    by (auto simp: OidcConfig_from_env_def result_simps default_runtime_allowed_algorithms_def symmetric_def)
next
  case (Some v)
  with assms(1) have "parse_allowed_algorithms_with_profile v (current_profile False env)
      = Inr (oc_allowed_algorithms config)"
    by (auto simp: OidcConfig_from_env_def result_simps)
  with assms(2) show ?thesis
    by (auto simp: allowed_algorithms_Ok current_profile_def split: option.splits if_splits)
qed

text \<open>
  A release build that does not set the development profile never allows a shared-secret
  algorithm, whatever the rest of its environment says.
\<close>

theorem release_never_symmetric:
  "case OidcConfig_from_env False (env(''DANDORI_PROFILE'' := profile)) of
     Inl error \<Rightarrow> True
   | Inr config \<Rightarrow> profile = Some ''dev'' \<or> list_all (\<lambda>a. \<not> symmetric a) (oc_allowed_algorithms config)"
  using release_config_asymmetric [of "env(''DANDORI_PROFILE'' := profile)"]
  by (cases "OidcConfig_from_env False (env(''DANDORI_PROFILE'' := profile))") auto

section \<open>Refresh keeps the last good key set and backs off exponentially\<close>

definition good_load :: "'k jose \<Rightarrow> load_outcome \<Rightarrow> bool" where
  "good_load J outcome = (case outcome of Loaded raw \<Rightarrow> is_ok (parse_jwks J raw) | _ \<Rightarrow> False)"

definition failures_in_a_row :: "'k jose \<Rightarrow> load_outcome list \<Rightarrow> nat" where
  "failures_in_a_row J outcomes = length (takeWhile (\<lambda>x. \<not> good_load J x) (rev outcomes))"

text \<open>The key set of the last document that parsed.\<close>

definition last_good :: "'k jose \<Rightarrow> load_outcome list \<Rightarrow> 'k jwk_keyset \<Rightarrow> 'k jwk_keyset" where
  "last_good J outcomes keyset =
     (case find (good_load J) (rev outcomes) of
        Some (Loaded raw) \<Rightarrow> (case parse_jwks J raw of Inr parsed \<Rightarrow> parsed | Inl e \<Rightarrow> keyset)
      | _ \<Rightarrow> keyset)"

lemma refresh_turn_bad:
  assumes "\<not> good_load J outcome"
  shows "refresh_turn J refresh outcome st =
    st\<lparr>rs_next_delay := min (saturating_mul (rs_next_delay st) 2) (refresh_max_backoff refresh)\<rparr>"
  using assms
  by (cases outcome) (auto simp: refresh_turn_def good_load_def Let_def result_simps split: sum.splits)

lemma backoff_step:
  assumes "refresh_max_backoff refresh \<le> DURATION_MAX"
  shows "min (saturating_mul (min x (refresh_max_backoff refresh)) 2) (refresh_max_backoff refresh)
    = min (2 * x) (refresh_max_backoff refresh)"
  using assms by (auto simp: saturating_mul_def min_def)

text \<open>
  C31: after any sequence of reloads of the key document the authenticator uses the keys of the last
  document that parsed (the first ones if none did), and waits before the next attempt the interval,
  doubled for every failure in a row since, up to the largest back-off.
\<close>

theorem refresh_exact:
  assumes "jr_interval_millis refresh < 2 ^ 64" "jr_max_backoff_millis refresh < 2 ^ 64"
  shows "refresh_turns J refresh outcomes keyset =
    \<lparr>rs_next_delay = min (refresh_interval refresh * 2 ^ failures_in_a_row J outcomes)
                        (refresh_max_backoff refresh),
     rs_keyset = last_good J outcomes keyset\<rparr>"
proof (induction outcomes rule: rev_induct)
  case Nil
  have "refresh_interval refresh \<le> refresh_max_backoff refresh"
    by (simp add: refresh_interval_def refresh_max_backoff_def from_millis_def)
  then show ?case by (simp add: refresh_turns_def failures_in_a_row_def last_good_def)
next
  case (snoc x outcomes)
  have i: "refresh_interval refresh \<le> refresh_max_backoff refresh"
    by (simp add: refresh_interval_def refresh_max_backoff_def from_millis_def)
  have b: "refresh_max_backoff refresh \<le> DURATION_MAX"
    using assms by (simp add: refresh_max_backoff_def from_millis_def DURATION_MAX_def)
  have run: "refresh_turns J refresh (outcomes @ [x]) keyset
      = refresh_turn J refresh x (refresh_turns J refresh outcomes keyset)"
    by (simp add: refresh_turns_def)
  show ?case
  proof (cases "good_load J x")
    case True
    then obtain raw parsed where "x = Loaded raw" "parse_jwks J raw = Inr parsed"
      by (auto simp: good_load_def result_simps split: load_outcome.splits)
    with i True show ?thesis
      unfolding run snoc.IH
      by (simp add: failures_in_a_row_def last_good_def refresh_turn_def Let_def)
  next
    case False
    then show ?thesis
      using backoff_step [OF b]
      unfolding run snoc.IH refresh_turn_bad [OF False]
      by (simp add: failures_in_a_row_def last_good_def mult.assoc mult.commute mult.left_commute)
  qed
qed

text \<open>One good load, then three that fail: the interval of a second has doubled three times.\<close>

definition demo_jose :: "nat jose" where
  "demo_jose =
     \<lparr>jose_jwk_set = (\<lambda>raw. if raw = ''keys'' then
        Ok [\<lparr>jwk_key_id = Some ''k1'', jwk_key_algorithm = Some KeyRS256, jwk_material = ''m''\<rparr>]
        else Err ''not json''),
      jose_from_jwk = (\<lambda>jwk. Ok (length (jwk_material jwk))),
      jose_decode_header = (\<lambda>token. Ok \<lparr>th_alg = RS256, th_kid = Some ''k1''\<rparr>),
      jose_decode = (\<lambda>token key validation.
        if key = 1 \<and> jv_issuer validation = ''iss'' then 
          Ok \<lparr>jc_sub = uuid_str bits_leaf 9, jc_workspace_id = uuid_str bits_leaf 1\<rparr>
        else Err ''InvalidSignature'')\<rparr>"

definition demo_refresh :: jwks_refresh_config where
  "demo_refresh = \<lparr>jr_interval_millis = 1000, jr_timeout_millis = 10, jr_max_backoff_millis = 60000\<rparr>"

theorem refresh_exact_witness:
  "rs_next_delay (refresh_turns demo_jose demo_refresh
     [Loaded ''keys'', LoadTimedOut, LoadFailed EmptyJwks, Loaded ''garbage'']
     \<lparr>ks_keys = [], ks_fallback_key = None\<rparr>) = from_millis 8000"
  using refresh_exact [of demo_refresh demo_jose
      "[Loaded ''keys'', LoadTimedOut, LoadFailed EmptyJwks, Loaded ''garbage'']"
      "\<lparr>ks_keys = [], ks_fallback_key = None\<rparr>"]
  by (simp add: demo_refresh_def failures_in_a_row_def good_load_def parse_jwks_def demo_jose_def
      try_from_jwk_def refresh_interval_def refresh_max_backoff_def from_millis_def)

text \<open>A zero is read although the message asks for a positive number, and counts as one.\<close>

lemma zero_refresh_accepted:
  assumes "env name = Some ''0''"
  shows "parse_env_u64 env name d = Ok 0"
    "jr_interval_millis c = 0 \<Longrightarrow> refresh_interval c = from_millis 1"
    "jr_timeout_millis c = 0 \<Longrightarrow> refresh_timeout c = from_millis 1"
    "jr_max_backoff_millis c = 0 \<Longrightarrow> refresh_max_backoff c = refresh_interval c"
proof -
  have "parse_int U64 ''0'' = Ok 0" by code_simp
  then show "parse_env_u64 env name d = Ok 0" by (simp add: parse_env_u64_def assms result_simps)
qed (simp_all add: refresh_interval_def refresh_timeout_def refresh_max_backoff_def)

section \<open>What an accepted token proves\<close>

definition entry_of :: "'k jose \<Rightarrow> jwk list \<Rightarrow> string option \<Rightarrow> 'k jwk_entry \<Rightarrow> bool" where
  "entry_of J jwks kid entry \<longleftrightarrow> (\<exists>jwk\<in>set jwks. jwk_key_id jwk = kid \<and> try_from_jwk J jwk = Ok entry)"

definition keyset_of :: "'k jose \<Rightarrow> jwk list \<Rightarrow> 'k jwk_keyset \<Rightarrow> bool" where
  "keyset_of J jwks keyset \<longleftrightarrow>
     (\<forall>(kid, entry)\<in>set (ks_keys keyset). entry_of J jwks (Some kid) entry)
     \<and> (\<forall>entry. ks_fallback_key keyset = Some entry \<longrightarrow> entry_of J jwks None entry)"

lemma set_update_subset: "set (AList.update k v xs) \<subseteq> insert (k, v) (set xs)"
  by (induction xs) auto

lemma insert_keys_origin:
  assumes "insert_keys J jwks keyset = Ok keyset'" "keyset_of J all keyset" "set jwks \<subseteq> set all"
  shows "keyset_of J all keyset'"
  using assms
proof (induction jwks arbitrary: keyset)
  case (Cons jwk jwks)
  then obtain entry where entry: "try_from_jwk J jwk = Ok entry" by (auto simp: result_simps)
  let ?next = "case jwk_key_id jwk of
      Some key_id \<Rightarrow> keyset\<lparr>ks_keys := AList.update key_id entry (ks_keys keyset)\<rparr>
    | None \<Rightarrow> if ks_fallback_key keyset = None then keyset\<lparr>ks_fallback_key := Some entry\<rparr> else keyset"
  have "entry_of J all (jwk_key_id jwk) entry"
    using entry Cons.prems(3) by (auto simp: entry_of_def)
  then have "keyset_of J all ?next"
    using Cons.prems(2)
    by (auto simp: keyset_of_def split: option.splits dest!: subsetD [OF set_update_subset])
  moreover have "insert_keys J jwks ?next = Ok keyset'"
    using Cons.prems(1) entry by simp
  ultimately show ?case using Cons.IH Cons.prems(3) by auto
qed simp

lemma parse_jwks_origin:
  assumes "parse_jwks J raw = Ok keyset"
  obtains jwks where "jose_jwk_set J raw = Ok jwks" "keyset_of J jwks keyset"
proof -
  obtain jwks where jwks: "jose_jwk_set J raw = Ok jwks"
    "insert_keys J jwks \<lparr>ks_keys = [], ks_fallback_key = None\<rparr> = Ok keyset"
    using assms by (auto simp: parse_jwks_def result_simps split: if_splits)
  have "keyset_of J jwks \<lparr>ks_keys = [], ks_fallback_key = None\<rparr>" by (simp add: keyset_of_def)
  from insert_keys_origin [OF jwks(2) this] jwks(1) that show thesis by blast
qed

lemma select_key_origin:
  assumes "select_key keyset kid = Ok entry" "keyset_of J jwks keyset"
  obtains jwk where "jwk \<in> set jwks" "try_from_jwk J jwk = Ok entry"
    "\<forall>k. kid = Some k \<longrightarrow> jwk_key_id jwk = Some k"
proof (cases kid)
  case None
  with assms have "entry \<in> snd ` set (ks_keys keyset) \<or> ks_fallback_key keyset = Some entry"
    by (auto simp: select_key_def result_simps split: if_splits list.splits)
  with assms(2) None that show thesis by (auto simp: keyset_of_def entry_of_def)
next
  case (Some k)
  with assms(1) have "(k, entry) \<in> set (ks_keys keyset)"
    by (auto simp: select_key_def result_simps intro: map_of_SomeD)
  with assms(2) have "entry_of J jwks (Some k) entry" by (auto simp: keyset_of_def)
  with Some that show thesis by (auto simp: entry_of_def)
qed

lemma authenticated_origin:
  assumes "parse_jwks J raw = Ok keyset"
    and "self = \<lparr>au_issuer = issuer, au_audience = audience, au_allowed_algorithms = allowed, au_keyset = keyset\<rparr>"
    and "authenticate_token L J self token = Ok claims"
  shows "\<exists>jwks jwk key header c.
    jose_jwk_set J raw = Ok jwks \<and> jwk \<in> set jwks \<and> jose_from_jwk J jwk = Ok key
    \<and> jose_decode_header J token = Ok header \<and> th_alg header \<in> set allowed
    \<and> (\<forall>k. th_kid header = Some k \<longrightarrow> jwk_key_id jwk = Some k)
    \<and> (\<forall>a. jwk_key_algorithm jwk = Some a \<longrightarrow> map_key_algorithm a = Ok (th_alg header))
    \<and> jose_decode J token key \<lparr>jv_algorithm = th_alg header, jv_issuer = issuer, jv_audience = audience\<rparr> = Ok c
    \<and> uuid_parse L (jc_sub c) = Ok (ac_actor_id claims)
    \<and> uuid_parse L (jc_workspace_id c) = Ok (ac_workspace_id claims)"
proof -
  obtain jwks where jwks: "jose_jwk_set J raw = Ok jwks" "keyset_of J jwks keyset"
    by (rule parse_jwks_origin [OF assms(1)])
  obtain header entry c where run: "jose_decode_header J token = Ok header"
    "select_key keyset (th_kid header) = Ok entry" "th_alg header \<in> set allowed"
    "\<forall>a. je_algorithm entry = Some a \<longrightarrow> a = th_alg header"
    "jose_decode J token (je_decoding_key entry)
       \<lparr>jv_algorithm = th_alg header, jv_issuer = issuer, jv_audience = audience\<rparr> = Ok c"
    "uuid_parse L (jc_sub c) = Ok (ac_actor_id claims)"
    "uuid_parse L (jc_workspace_id c) = Ok (ac_workspace_id claims)"
    using assms(3) by (auto simp: authenticate_token_def assms(2) result_simps split: option.splits)
  obtain jwk where jwk: "jwk \<in> set jwks" "try_from_jwk J jwk = Ok entry"
    "\<forall>k. th_kid header = Some k \<longrightarrow> jwk_key_id jwk = Some k"
    by (rule select_key_origin [OF run(2) jwks(2)])
  from jwk(2) have "jose_from_jwk J jwk = Ok (je_decoding_key entry)"
    "\<forall>a. jwk_key_algorithm jwk = Some a \<longrightarrow> map_key_algorithm a = Ok (th_alg header)"
    using run(4) by (auto simp: try_from_jwk_def result_simps split: option.splits)
  with jwks(1) jwk run show ?thesis by blast
qed

text \<open>
  C29: a token is accepted only if its algorithm is allowed and its signature and registered claims
  verified, for the configured issuer and audience, under a key of the configured document: the key
  its header names when it names one, of the very algorithm of the header when the document gives
  the key one; and the identities handed on are those in the verified claims.
\<close>

theorem accepted_token_verified:
  assumes "from_jwks_json_with_allowed_algorithms J issuer audience raw allowed = Ok self"
    and "authenticate_token L J self token = Ok claims"
  shows "\<exists>jwks jwk key header c.
    jose_jwk_set J raw = Ok jwks \<and> jwk \<in> set jwks \<and> jose_from_jwk J jwk = Ok key
    \<and> jose_decode_header J token = Ok header \<and> th_alg header \<in> set allowed
    \<and> (\<forall>k. th_kid header = Some k \<longrightarrow> jwk_key_id jwk = Some k)
    \<and> (\<forall>a. jwk_key_algorithm jwk = Some a \<longrightarrow> map_key_algorithm a = Ok (th_alg header))
    \<and> jose_decode J token key \<lparr>jv_algorithm = th_alg header, jv_issuer = issuer, jv_audience = audience\<rparr> = Ok c
    \<and> uuid_parse L (jc_sub c) = Ok (ac_actor_id claims)
    \<and> uuid_parse L (jc_workspace_id c) = Ok (ac_workspace_id claims)"
proof -
  obtain keyset where "parse_jwks J raw = Ok keyset"
    "self = \<lparr>au_issuer = issuer, au_audience = audience, au_allowed_algorithms = allowed, au_keyset = keyset\<rparr>"
    using assms(1) by (auto simp: from_jwks_json_with_allowed_algorithms_def result_simps)
  from authenticated_origin [OF this assms(2)] show ?thesis .
qed

theorem accepted_token_verified_witness:
  "\<exists>self claims. from_jwks_json_with_allowed_algorithms demo_jose ''iss'' ''aud'' ''keys'' [RS256] = Ok self
     \<and> authenticate_token bits_leaf demo_jose self ''t'' = Ok claims
     \<and> (\<exists>header. jose_decode_header demo_jose ''t'' = Ok header \<and> th_alg header \<in> set [RS256])"
proof -
  obtain self where self: "from_jwks_json_with_allowed_algorithms demo_jose ''iss'' ''aud'' ''keys'' [RS256] = Ok self"
    by (simp add: from_jwks_json_with_allowed_algorithms_def parse_jwks_def demo_jose_def try_from_jwk_def)
  then have "authenticate_token bits_leaf demo_jose self ''t'' = Ok \<lparr>ac_actor_id = 9, ac_workspace_id = 1\<rparr>"
    by (auto simp: from_jwks_json_with_allowed_algorithms_def parse_jwks_def demo_jose_def try_from_jwk_def
        authenticate_token_def select_key_def guard_err_def leaf_uuid_parse [OF bits_leaf_ok])
  from accepted_token_verified [OF self this] this self show ?thesis by blast
qed

end
