(* ===== verification/Outbox_Store.thy ===== *)
theory Outbox_Store
  imports Pg
begin

text \<open>
  The outbox repository, \<open>repositories/outbox.rs\<close>: leasing a batch of due messages, acknowledging
  and failing a leased message, and the two retention sweeps.  What an operation draws from its
  environment is an argument: the fresh lease token, and the set of rows other transactions hold
  locked, which \<open>SKIP LOCKED\<close> passes over.
\<close>

record outbox_message =
  om_id :: uuid
  om_workspace_id :: uuid
  om_event_id :: uuid
  om_event_type :: string
  om_aggregate_type :: string
  om_aggregate_id :: uuid
  om_correlation_id :: uuid
  om_payload :: json
  om_attempts :: int
  om_lease_token :: uuid
  om_lease_owner :: uuid
  om_leased_until :: timestamp

datatype failure_classification = Transient | Terminal

record failure_context =
  fc_classification :: failure_classification
  fc_lease_token :: uuid
  fc_lease_owner :: uuid
  fc_now :: timestamp
  fc_error_message :: string
  fc_max_attempts :: int
  fc_retry_backoff :: int

section \<open>Leasing\<close>

text \<open>The \<open>WHERE\<close> of the candidates: due for a first or another attempt, or with an expired lease.\<close>

definition lease_due :: "timestamp \<Rightarrow> outbox_row \<Rightarrow> bool" where
  "lease_due now r \<longleftrightarrow>
     (o_status r = Pending \<or> o_status r = Failed) \<and> o_available_at r \<le> now
     \<or> o_status r = Leased \<and> (case o_leased_until r of None \<Rightarrow> False | Some u \<Rightarrow> u \<le> now)"

definition lease_candidates ::
  "uuid option \<Rightarrow> uuid set \<Rightarrow> uuid \<Rightarrow> timestamp \<Rightarrow> nat \<Rightarrow> outbox_row list \<Rightarrow> outbox_row list" where
  "lease_candidates setting locked workspace_id now n rows =
     take n (filter (\<lambda>r. o_id r \<notin> locked)
       (sort_key (\<lambda>r. (o_available_at r, o_id r))
         (filter (\<lambda>r. tenant_visible setting (o_workspace_id r)
                    \<and> o_workspace_id r = workspace_id \<and> lease_due now r) rows)))"

definition leased_row :: "timestamp \<Rightarrow> timestamp \<Rightarrow> uuid \<Rightarrow> uuid \<Rightarrow> outbox_row \<Rightarrow> outbox_row" where
  "leased_row now lease_until token owner r =
     r\<lparr>o_status := Leased, o_leased_at := Some now, o_leased_until := Some lease_until,
       o_lease_token := Some token, o_lease_owner := Some owner, o_updated_at := now\<rparr>"

text \<open>Decoding a returned row: the lease columns are read as not null.\<close>

definition outbox_message_of :: "outbox_row \<Rightarrow> db_error + outbox_message" where
  "outbox_message_of r =
     (case (o_lease_token r, o_lease_owner r, o_leased_until r) of
        (Some token, Some owner, Some until) \<Rightarrow>
          Ok \<lparr>om_id = o_id r, om_workspace_id = o_workspace_id r, om_event_id = o_event_id r,
              om_event_type = o_event_type r, om_aggregate_type = o_aggregate_type r,
              om_aggregate_id = o_aggregate_id r, om_correlation_id = o_correlation_id r,
              om_payload = o_payload r, om_attempts = o_attempts r, om_lease_token = token,
              om_lease_owner = owner, om_leased_until = until\<rparr>
      | _ \<Rightarrow> Err UnexpectedNull)"

text \<open>
  The statement: the order of \<open>RETURNING\<close> is the server's choice; the model returns table order.
\<close>

definition lease_statement ::
  "uuid set \<Rightarrow> uuid \<Rightarrow> uuid \<Rightarrow> uuid \<Rightarrow> timestamp \<Rightarrow> timestamp \<Rightarrow> int \<Rightarrow> uuid option \<Rightarrow> db
    \<Rightarrow> db_error + (db \<times> outbox_message list)" where
  "lease_statement locked workspace_id token owner now lease_until max_items setting d =
     (if max_items < 0 then Err InvalidLimit
      else
        let ids = map o_id (lease_candidates setting locked workspace_id now (nat max_items) (outbox d));
            chosen = (\<lambda>r. o_id r \<in> set ids)
        in and_then (update_outbox setting chosen (leased_row now lease_until token owner) d)
             (\<lambda>(d', n).
               map_ok (Pair d')
                 (collect_ok (map outbox_message_of
                    (filter (\<lambda>r. tenant_visible setting (o_workspace_id r) \<and> chosen r) (outbox d'))))))"

definition lease_outbox_batch ::
  "uuid set \<Rightarrow> uuid \<Rightarrow> auth_context \<Rightarrow> timestamp \<Rightarrow> int \<Rightarrow> int \<Rightarrow> outbox_message list tx" where
  "lease_outbox_batch locked lease_token auth now lease_for max_items =
     tx_bind (pg_begin Sqlx) (\<lambda>_.
     tx_bind (set_workspace_context Sqlx (auth_workspace_id auth)) (\<lambda>_.
     let lease_until = now + lease_for in
     tx_bind
       (pg_query Sqlx (lease_statement locked (auth_workspace_id auth) lease_token
          (auth_actor_id auth) now lease_until max_items)) (\<lambda>rows.
     tx_bind (pg_commit Sqlx) (\<lambda>_.
     tx_return rows))))"

section \<open>Acknowledging and failing\<close>

record outbox_lease_row =
  lr_status :: string
  lr_attempts :: int
  lr_lease_token :: "uuid option"
  lr_lease_owner :: "uuid option"
  lr_leased_until :: "timestamp option"

definition fetch_lease_for_update :: "uuid \<Rightarrow> uuid \<Rightarrow> outbox_lease_row option tx" where
  "fetch_lease_for_update workspace_id outbox_id =
     pg_select Sqlx (\<lambda>setting d.
       map_option
         (\<lambda>r. \<lparr>lr_status = outbox_status_text (o_status r), lr_attempts = o_attempts r,
               lr_lease_token = o_lease_token r, lr_lease_owner = o_lease_owner r,
               lr_leased_until = o_leased_until r\<rparr>)
         (fetch_optional
           (\<lambda>r. tenant_visible setting (o_workspace_id r)
              \<and> o_workspace_id r = workspace_id \<and> o_id r = outbox_id)
           (outbox d)))"

record lease_metadata =
  md_workspace_id :: uuid
  md_outbox_id :: uuid
  md_status :: string
  md_stored_token :: "uuid option"
  md_stored_owner :: "uuid option"
  md_stored_until :: "timestamp option"

definition validate_lease_transition ::
  "lease_metadata \<Rightarrow> uuid \<Rightarrow> uuid \<Rightarrow> timestamp \<Rightarrow> store_error + unit" where
  "validate_lease_transition metadata expected_token expected_owner now =
     (let not_leased = OutboxNotLeased (md_workspace_id metadata) (md_outbox_id metadata)
                         (md_status metadata) in
      if md_status metadata \<noteq> ''leased'' then Err not_leased
      else and_then (ok_or (md_stored_owner metadata) not_leased) (\<lambda>actual_owner.
        if actual_owner \<noteq> expected_owner then
          Err (OutboxLeaseOwnerMismatch (md_workspace_id metadata) (md_outbox_id metadata)
                 expected_owner actual_owner)
        else and_then (ok_or (md_stored_token metadata) not_leased) (\<lambda>actual_token.
          if actual_token \<noteq> expected_token then
            Err (OutboxLeaseTokenMismatch (md_workspace_id metadata) (md_outbox_id metadata)
                   expected_token actual_token)
          else and_then (ok_or (md_stored_until metadata) not_leased) (\<lambda>leased_until.
            if leased_until \<le> now then
              Err (OutboxLeaseExpired (md_workspace_id metadata) (md_outbox_id metadata)
                     leased_until now)
            else Ok ()))))"

definition metadata_of :: "uuid \<Rightarrow> uuid \<Rightarrow> outbox_lease_row \<Rightarrow> lease_metadata" where
  "metadata_of workspace_id outbox_id lease =
     \<lparr>md_workspace_id = workspace_id, md_outbox_id = outbox_id, md_status = lr_status lease,
      md_stored_token = lr_lease_token lease, md_stored_owner = lr_lease_owner lease,
      md_stored_until = lr_leased_until lease\<rparr>"

text \<open>The \<open>WHERE\<close> the three updates share.\<close>

definition lease_held :: "uuid \<Rightarrow> uuid \<Rightarrow> uuid \<Rightarrow> uuid \<Rightarrow> timestamp \<Rightarrow> outbox_row \<Rightarrow> bool" where
  "lease_held workspace_id outbox_id token owner now r \<longleftrightarrow>
     o_workspace_id r = workspace_id \<and> o_id r = outbox_id \<and> o_status r = Leased
     \<and> o_lease_token r = Some token \<and> o_lease_owner r = Some owner
     \<and> (case o_leased_until r of None \<Rightarrow> False | Some u \<Rightarrow> now < u)"

definition delivered_row :: "timestamp \<Rightarrow> outbox_row \<Rightarrow> outbox_row" where
  "delivered_row now r =
     r\<lparr>o_status := Delivered, o_published_at := Some now, o_leased_at := None,
       o_leased_until := None, o_lease_token := None, o_lease_owner := None,
       o_updated_at := now, o_last_error := None\<rparr>"

definition dead_letter_row :: "int \<Rightarrow> failure_context \<Rightarrow> outbox_row \<Rightarrow> outbox_row" where
  "dead_letter_row next_attempts failure r =
     r\<lparr>o_status := DeadLetter, o_attempts := next_attempts, o_available_at := fc_now failure,
       o_leased_at := None, o_leased_until := None, o_lease_token := None, o_lease_owner := None,
       o_updated_at := fc_now failure, o_last_error := Some (fc_error_message failure)\<rparr>"

definition failed_row :: "int \<Rightarrow> failure_context \<Rightarrow> outbox_row \<Rightarrow> outbox_row" where
  "failed_row next_attempts failure r =
     r\<lparr>o_status := Failed, o_attempts := next_attempts,
       o_available_at := fc_now failure + fc_retry_backoff failure,
       o_leased_at := None, o_leased_until := None, o_lease_token := None, o_lease_owner := None,
       o_updated_at := fc_now failure, o_last_error := Some (fc_error_message failure)\<rparr>"

definition mark_outbox_delivered ::
  "auth_context \<Rightarrow> uuid \<Rightarrow> uuid \<Rightarrow> uuid \<Rightarrow> timestamp \<Rightarrow> unit tx" where
  "mark_outbox_delivered auth outbox_id lease_token lease_owner now =
     (let ws = auth_workspace_id auth in
     tx_bind (pg_begin Sqlx) (\<lambda>_.
     tx_bind (set_workspace_context Sqlx ws) (\<lambda>_.
     tx_bind (tx_bind (fetch_lease_for_update ws outbox_id)
                (\<lambda>l. tx_lift (ok_or l (OutboxLeaseMissing ws outbox_id)))) (\<lambda>lease.
     if lease_owner \<noteq> auth_actor_id auth then
       tx_lift (Err (OutboxLeaseOwnerMismatch ws outbox_id (auth_actor_id auth) lease_owner))
     else
       tx_bind (tx_lift (validate_lease_transition (metadata_of ws outbox_id lease)
                  lease_token lease_owner now)) (\<lambda>_.
       tx_bind (pg_query Sqlx (\<lambda>setting.
                  update_outbox setting (lease_held ws outbox_id lease_token lease_owner now)
                    (delivered_row now))) (\<lambda>rows_affected.
       if rows_affected \<noteq> 1 then
         tx_lift (Err (OutboxUpdateNotSingleRow ws outbox_id rows_affected))
       else
         tx_bind (pg_commit Sqlx) (\<lambda>_. tx_return ())))))))"

definition mark_outbox_failed :: "auth_context \<Rightarrow> uuid \<Rightarrow> failure_context \<Rightarrow> unit tx" where
  "mark_outbox_failed auth outbox_id failure =
     (let ws = auth_workspace_id auth in
     tx_bind (pg_begin Sqlx) (\<lambda>_.
     tx_bind (set_workspace_context Sqlx ws) (\<lambda>_.
     tx_bind (tx_bind (fetch_lease_for_update ws outbox_id)
                (\<lambda>l. tx_lift (ok_or l (OutboxLeaseMissing ws outbox_id)))) (\<lambda>lease.
     if fc_lease_owner failure \<noteq> auth_actor_id auth then
       tx_lift (Err (OutboxLeaseOwnerMismatch ws outbox_id (auth_actor_id auth)
                       (fc_lease_owner failure)))
     else
       tx_bind (tx_lift (validate_lease_transition (metadata_of ws outbox_id lease)
                  (fc_lease_token failure) (fc_lease_owner failure) (fc_now failure))) (\<lambda>_.
       let next_attempts = wrap_i32 (lr_attempts lease + 1);
           exhausted_budget = (fc_max_attempts failure \<le> next_attempts);
           terminal = (fc_classification failure = Terminal);
           dead_letter_now = (terminal \<or> exhausted_budget);
           held = lease_held ws outbox_id (fc_lease_token failure) (fc_lease_owner failure)
                    (fc_now failure)
       in
       tx_bind (if dead_letter_now
                then pg_query Sqlx (\<lambda>setting.
                       update_outbox setting held (dead_letter_row next_attempts failure))
                else pg_query Sqlx (\<lambda>setting.
                       update_outbox setting held (failed_row next_attempts failure))) (\<lambda>rows_affected.
       if rows_affected \<noteq> 1 then
         tx_lift (Err (OutboxUpdateNotSingleRow ws outbox_id rows_affected))
       else
         tx_bind (pg_commit Sqlx) (\<lambda>_. tx_return ())))))))"

section \<open>Retention\<close>

definition outbox_expired :: "timestamp \<Rightarrow> timestamp \<Rightarrow> outbox_row \<Rightarrow> bool" where
  "outbox_expired delivered_before dead_letter_before r \<longleftrightarrow>
     o_status r = Delivered \<and> (case o_published_at r of None \<Rightarrow> False | Some p \<Rightarrow> p < delivered_before)
     \<or> o_status r = DeadLetter \<and> o_updated_at r < dead_letter_before"

definition cleanup_outbox :: "auth_context \<Rightarrow> timestamp \<Rightarrow> timestamp \<Rightarrow> nat tx" where
  "cleanup_outbox auth delivered_before dead_letter_before =
     tx_bind (pg_begin Sqlx) (\<lambda>_.
     tx_bind (set_workspace_context Sqlx (auth_workspace_id auth)) (\<lambda>_.
     tx_bind
       (pg_query Sqlx (\<lambda>setting d.
          let Q = (\<lambda>r. tenant_visible setting (o_workspace_id r)
                     \<and> o_workspace_id r = auth_workspace_id auth
                     \<and> outbox_expired delivered_before dead_letter_before r)
          in Ok (d\<lparr>outbox := delete_where Q (outbox d)\<rparr>, rows_affected Q (outbox d)))) (\<lambda>deleted.
     tx_bind (pg_commit Sqlx) (\<lambda>_.
     tx_return deleted))))"

definition cleanup_idempotency :: "auth_context \<Rightarrow> timestamp \<Rightarrow> nat tx" where
  "cleanup_idempotency auth expires_before =
     tx_bind (pg_begin Sqlx) (\<lambda>_.
     tx_bind (set_workspace_context Sqlx (auth_workspace_id auth)) (\<lambda>_.
     tx_bind
       (pg_query Sqlx (\<lambda>setting d.
          let Q = (\<lambda>r. tenant_visible setting (k_workspace_id r)
                     \<and> k_workspace_id r = auth_workspace_id auth \<and> k_expires_at r < expires_before)
          in Ok (d\<lparr>idempotency := delete_where Q (idempotency d)\<rparr>, rows_affected Q (idempotency d))))
       (\<lambda>deleted.
     tx_bind (pg_commit Sqlx) (\<lambda>_.
     tx_return deleted))))"

end
