(* ===== verification/Outbox_Correct.thy ===== *)
theory Outbox_Correct
  imports Outbox_Store
begin

text \<open>
  The outbox operations as functions of the committed database, the proof that each transaction
  implements its function under every fault schedule, and, for databases that satisfy the schema,
  what each function does to the rows.
\<close>

section \<open>Specifications\<close>

definition lease_outbox_batch_spec ::
  "uuid set \<Rightarrow> uuid \<Rightarrow> auth_context \<Rightarrow> timestamp \<Rightarrow> int \<Rightarrow> int \<Rightarrow> db
    \<Rightarrow> (store_error + outbox_message list) \<times> db" where
  "lease_outbox_batch_spec locked token auth now lease_for max_items d =
     (case lease_statement locked (auth_workspace_id auth) token (auth_actor_id auth) now
             (now + lease_for) max_items (Some (auth_workspace_id auth)) d of
        Inl e \<Rightarrow> (Err (Sqlx e), d)
      | Inr (d', messages) \<Rightarrow> (Ok messages, d'))"

definition find_outbox :: "uuid \<Rightarrow> uuid \<Rightarrow> db \<Rightarrow> outbox_row option" where
  "find_outbox ws outbox_id d =
     fetch_optional (\<lambda>r. tenant_visible (Some ws) (o_workspace_id r)
                       \<and> o_workspace_id r = ws \<and> o_id r = outbox_id) (outbox d)"

definition lease_row_of :: "outbox_row \<Rightarrow> outbox_lease_row" where
  "lease_row_of r = \<lparr>lr_status = outbox_status_text (o_status r), lr_attempts = o_attempts r,
     lr_lease_token = o_lease_token r, lr_lease_owner = o_lease_owner r,
     lr_leased_until = o_leased_until r\<rparr>"

text \<open>Both outcomes of a publication: the lease is checked, then the one row is changed.\<close>

definition settle ::
  "auth_context \<Rightarrow> uuid \<Rightarrow> uuid \<Rightarrow> uuid \<Rightarrow> timestamp \<Rightarrow> (outbox_row \<Rightarrow> outbox_row \<Rightarrow> outbox_row) \<Rightarrow> db
    \<Rightarrow> store_error + db" where
  "settle auth outbox_id token owner now f d =
     (let ws = auth_workspace_id auth in
      and_then (ok_or (find_outbox ws outbox_id d) (OutboxLeaseMissing ws outbox_id)) (\<lambda>r.
      and_then (guard_err (owner \<noteq> auth_actor_id auth)
                 (OutboxLeaseOwnerMismatch ws outbox_id (auth_actor_id auth) owner)) (\<lambda>_.
      and_then (validate_lease_transition (metadata_of ws outbox_id (lease_row_of r)) token owner now) (\<lambda>_.
      and_then (map_err Sqlx (update_outbox (Some ws) (lease_held ws outbox_id token owner now) (f r) d)) (\<lambda>p.
      and_then (guard_err (snd p \<noteq> 1) (OutboxUpdateNotSingleRow ws outbox_id (snd p))) (\<lambda>_.
      Ok (fst p)))))))"

definition settle_spec ::
  "auth_context \<Rightarrow> uuid \<Rightarrow> uuid \<Rightarrow> uuid \<Rightarrow> timestamp \<Rightarrow> (outbox_row \<Rightarrow> outbox_row \<Rightarrow> outbox_row) \<Rightarrow> db
    \<Rightarrow> (store_error + unit) \<times> db" where
  "settle_spec auth outbox_id token owner now f d =
     (case settle auth outbox_id token owner now f d of Inl e \<Rightarrow> (Err e, d) | Inr d' \<Rightarrow> (Ok (), d'))"

definition mark_outbox_delivered_spec ::
  "auth_context \<Rightarrow> uuid \<Rightarrow> uuid \<Rightarrow> uuid \<Rightarrow> timestamp \<Rightarrow> db \<Rightarrow> (store_error + unit) \<times> db" where
  "mark_outbox_delivered_spec auth outbox_id token owner now =
     settle_spec auth outbox_id token owner now (\<lambda>_. delivered_row now)"

text \<open>The row after a failed attempt, from the lease that was read.\<close>

definition failure_row :: "failure_context \<Rightarrow> outbox_row \<Rightarrow> outbox_row \<Rightarrow> outbox_row" where
  "failure_row failure lease =
     (let next_attempts = wrap_i32 (o_attempts lease + 1) in
      if fc_classification failure = Terminal \<or> fc_max_attempts failure \<le> next_attempts
      then dead_letter_row next_attempts failure
      else failed_row next_attempts failure)"

definition mark_outbox_failed_spec ::
  "auth_context \<Rightarrow> uuid \<Rightarrow> failure_context \<Rightarrow> db \<Rightarrow> (store_error + unit) \<times> db" where
  "mark_outbox_failed_spec auth outbox_id failure =
     settle_spec auth outbox_id (fc_lease_token failure) (fc_lease_owner failure) (fc_now failure)
       (failure_row failure)"

definition cleanup_outbox_spec ::
  "auth_context \<Rightarrow> timestamp \<Rightarrow> timestamp \<Rightarrow> db \<Rightarrow> (store_error + nat) \<times> db" where
  "cleanup_outbox_spec auth delivered_before dead_letter_before d =
     (let Q = (\<lambda>r. o_workspace_id r = auth_workspace_id auth
                 \<and> outbox_expired delivered_before dead_letter_before r)
      in (Ok (rows_affected Q (outbox d)), d\<lparr>outbox := delete_where Q (outbox d)\<rparr>))"

definition cleanup_idempotency_spec ::
  "auth_context \<Rightarrow> timestamp \<Rightarrow> db \<Rightarrow> (store_error + nat) \<times> db" where
  "cleanup_idempotency_spec auth expires_before d =
     (let Q = (\<lambda>r. k_workspace_id r = auth_workspace_id auth \<and> k_expires_at r < expires_before)
      in (Ok (rows_affected Q (idempotency d)), d\<lparr>idempotency := delete_where Q (idempotency d)\<rparr>))"

section \<open>The transactions implement them\<close>

interpretation lease_op: store_operation Sqlx
  "lease_outbox_batch locked token auth now lease_for max_items"
  "lease_outbox_batch_spec locked token auth now lease_for max_items"
  for locked token auth now lease_for max_items
  unfolding lease_outbox_batch_def Let_def
  by (rule store_operationI, rule finishes_bind, rule runs_query, rule finishes_commit_return)
     (auto simp: lease_outbox_batch_spec_def result_simps split: sum.splits)

lemma runs_lease_row:
  "runs Sqlx (tx_bind (fetch_lease_for_update ws outbox_id)
       (\<lambda>l. tx_lift (ok_or l (OutboxLeaseMissing ws outbox_id))))
     (\<lambda>w d. map_ok (\<lambda>r. (d, lease_row_of r))
        (ok_or (fetch_optional (\<lambda>r. tenant_visible w (o_workspace_id r)
                  \<and> o_workspace_id r = ws \<and> o_id r = outbox_id) (outbox d))
           (OutboxLeaseMissing ws outbox_id)))"
  unfolding fetch_lease_for_update_def
  apply (rule runs_cong, rule runs_bind, rule runs_select, rule runs_lift)
  subgoal for w d
    by (cases "fetch_optional (\<lambda>r. tenant_visible w (o_workspace_id r) \<and> o_workspace_id r = ws
          \<and> o_id r = outbox_id) (outbox d)") (simp_all add: lease_row_of_def)
  done

interpretation delivered_op: store_operation Sqlx
  "mark_outbox_delivered auth outbox_id token owner now"
  "mark_outbox_delivered_spec auth outbox_id token owner now"
  for auth outbox_id token owner now
  unfolding mark_outbox_delivered_def Let_def
  apply (rule store_operationI)
   apply (rule runs_lease_row finishes_commit_return finishes_early runs_lift runs_query
      finishes_bind finishes_if)+
  subgoal for d
    unfolding mark_outbox_delivered_spec_def settle_spec_def settle_def find_outbox_def Let_def
    by (cases "fetch_optional (\<lambda>r. tenant_visible (Some (auth_workspace_id auth)) (o_workspace_id r)
          \<and> o_workspace_id r = auth_workspace_id auth \<and> o_id r = outbox_id) (outbox d)")
       (auto simp: lease_row_of_def result_simps split: sum.splits)
  done

interpretation failed_op: store_operation Sqlx
  "mark_outbox_failed auth outbox_id failure" "mark_outbox_failed_spec auth outbox_id failure"
  for auth outbox_id failure
  unfolding mark_outbox_failed_def Let_def
  apply (rule store_operationI)
   apply (rule runs_lease_row finishes_commit_return finishes_early runs_lift runs_query
      finishes_bind runs_if finishes_if)+
  subgoal for d
    unfolding mark_outbox_failed_spec_def settle_spec_def settle_def find_outbox_def failure_row_def
      Let_def
    by (cases "fetch_optional (\<lambda>r. tenant_visible (Some (auth_workspace_id auth)) (o_workspace_id r)
          \<and> o_workspace_id r = auth_workspace_id auth \<and> o_id r = outbox_id) (outbox d)")
       (auto simp: lease_row_of_def result_simps split: sum.splits)
  done

lemma visible_workspace:
  "tenant_visible (Some ws) w \<and> w = ws \<and> P \<longleftrightarrow> w = ws \<and> P"
  by (auto simp: tenant_visible_def)

interpretation cleanup_outbox_op: store_operation Sqlx
  "cleanup_outbox auth delivered_before dead_letter_before"
  "cleanup_outbox_spec auth delivered_before dead_letter_before"
  for auth delivered_before dead_letter_before
  unfolding cleanup_outbox_def Let_def
  by (rule store_operationI, rule finishes_bind, rule runs_query, rule finishes_commit_return)
     (simp add: cleanup_outbox_spec_def visible_workspace Let_def)

interpretation cleanup_idempotency_op: store_operation Sqlx
  "cleanup_idempotency auth expires_before" "cleanup_idempotency_spec auth expires_before"
  for auth expires_before
  unfolding cleanup_idempotency_def Let_def
  by (rule store_operationI, rule finishes_bind, rule runs_query, rule finishes_commit_return)
     (simp add: cleanup_idempotency_spec_def visible_workspace Let_def)

section \<open>What they do to the rows\<close>

lemma status_leased: "outbox_status_text st = ''leased'' \<longleftrightarrow> st = Leased"
  by (cases st) simp_all

lemma validate_lease_Ok:
  "validate_lease_transition (metadata_of ws i (lease_row_of r)) token owner now = Inr u \<longleftrightarrow>
     o_status r = Leased \<and> o_lease_owner r = Some owner \<and> o_lease_token r = Some token
     \<and> (case o_leased_until r of None \<Rightarrow> False | Some t \<Rightarrow> now < t)"
  by (cases "o_lease_owner r"; cases "o_lease_token r"; cases "o_leased_until r")
     (auto simp: validate_lease_transition_def metadata_of_def lease_row_of_def Let_def status_leased)

lemma find_outbox_Some:
  "find_outbox ws i d = Some r \<Longrightarrow> r \<in> set (outbox d) \<and> o_workspace_id r = ws \<and> o_id r = i"
  by (auto simp: find_outbox_def dest: fetch_optional_SomeD)

lemma find_outbox_unique:
  assumes "unique_key o_id (outbox d)" "r \<in> set (outbox d)" "o_workspace_id r = ws" "o_id r = i"
  shows "find_outbox ws i d = Some r"
  unfolding find_outbox_def
  by (rule fetch_optional_unique [OF assms(1,2)]) (simp_all add: assms(3,4) tenant_visible_def)

lemma settle_spec_error: "fst (settle_spec auth i token owner now f d) = Inl e \<Longrightarrow>
    snd (settle_spec auth i token owner now f d) = d"
  by (auto simp: settle_spec_def split: sum.splits)

text \<open>
  On a database that satisfies the schema a publication is settled exactly when the caller holds
  the unexpired lease (and the new row passes the checks), and then exactly that row changes.
\<close>

lemma settle_Ok:
  assumes "unique_key o_id (outbox d)"
  shows "settle auth i token owner now f d = Inr d' \<longleftrightarrow>
    owner = auth_actor_id auth
    \<and> (\<exists>r\<in>set (outbox d). lease_held (auth_workspace_id auth) i token owner now r
         \<and> outbox_checks (f r r)
         \<and> d' = d\<lparr>outbox := update_where (\<lambda>x. o_id x = i) (f r) (outbox d)\<rparr>)"
    (is "?L \<longleftrightarrow> ?R")
proof -
  let ?ws = "auth_workspace_id auth"
  let ?Q = "\<lambda>r. tenant_visible (Some ?ws) (o_workspace_id r) \<and> lease_held ?ws i token owner now r"
  have held: "update_outbox (Some ?ws) (lease_held ?ws i token owner now) (f r) d =
      (if outbox_checks (f r r)
       then Inr (d\<lparr>outbox := update_where (\<lambda>x. o_id x = i) (f r) (outbox d)\<rparr>, 1)
       else Inl CheckViolation)"
    if r: "r \<in> set (outbox d)" "lease_held ?ws i token owner now r" for r
  proof -
    have ri: "o_id r = i" "?Q r" using r by (auto simp: lease_held_def tenant_visible_def)
    have Q: "?Q x \<longleftrightarrow> o_id x = i" if x: "x \<in> set (outbox d)" for x
      using unique_keyD [OF assms x r(1)] ri by (auto simp: lease_held_def)
    have only: "x = r" if "x \<in> set (outbox d)" "?Q x" for x
      using unique_keyD [OF assms that(1) r(1)] Q [OF that(1)] that(2) ri(1) by simp
    have "rows_affected ?Q (outbox d) = 1"
      by (rule rows_affected_unique [OF assms r(1)]) (simp add: Q ri)
    moreover have "list_ex (\<lambda>x. ?Q x \<and> \<not> outbox_checks (f r x)) (outbox d) \<longleftrightarrow> \<not> outbox_checks (f r r)"
      using only r(1) ri(2) unfolding list_ex_iff by blast
    moreover have "update_where ?Q (f r) (outbox d) = update_where (\<lambda>x. o_id x = i) (f r) (outbox d)"
      by (rule update_where_cong) (simp_all add: Q)
    ultimately show ?thesis by (simp add: update_outbox_def)
  qed
  have found: "find_outbox ?ws i d = Some r
        \<and> validate_lease_transition (metadata_of ?ws i (lease_row_of r)) token owner now = Inr ()
      \<longleftrightarrow> r \<in> set (outbox d) \<and> lease_held ?ws i token owner now r" for r
    using find_outbox_Some [of ?ws i d r] find_outbox_unique [OF assms, of r ?ws i]
    by (auto simp: validate_lease_Ok lease_held_def)
  have "?L \<longleftrightarrow> (\<exists>r. (find_outbox ?ws i d = Some r
        \<and> validate_lease_transition (metadata_of ?ws i (lease_row_of r)) token owner now = Inr ())
        \<and> owner = auth_actor_id auth
        \<and> (\<exists>p. update_outbox (Some ?ws) (lease_held ?ws i token owner now) (f r) d = Inr p
               \<and> snd p = 1 \<and> d' = fst p))"
    unfolding settle_def Let_def result_simps by auto
  also have "\<dots> \<longleftrightarrow> ?R"
  proof -
    have "(\<exists>p. update_outbox (Some ?ws) (lease_held ?ws i token owner now) (f r) d = Inr p
             \<and> snd p = 1 \<and> d' = fst p)
        \<longleftrightarrow> outbox_checks (f r r) \<and> d' = d\<lparr>outbox := update_where (\<lambda>x. o_id x = i) (f r) (outbox d)\<rparr>"
      if "r \<in> set (outbox d)" "lease_held ?ws i token owner now r" for r
      by (auto simp: held [OF that])
    then show ?thesis unfolding found by blast
  qed
  finally show ?thesis .
qed

lemma outbox_row_checks:
  "outbox_checks r \<Longrightarrow> outbox_checks (leased_row now u tok own r)"
  "outbox_checks r \<Longrightarrow> outbox_checks (delivered_row now r)"
  "outbox_checks r \<Longrightarrow> outbox_checks (failure_row f l r) \<longleftrightarrow> text_at_most 4000 (fc_error_message f)"
  by (simp_all add: outbox_checks_def leased_row_def delivered_row_def failure_row_def Let_def
      dead_letter_row_def failed_row_def)

text \<open>Leasing under the schema: what is chosen, what is returned, what changes.\<close>

definition due_in_order :: "uuid set \<Rightarrow> uuid \<Rightarrow> timestamp \<Rightarrow> db \<Rightarrow> outbox_row list" where
  "due_in_order locked ws now d =
     filter (\<lambda>r. o_id r \<notin> locked)
       (sort_key (\<lambda>r. (o_available_at r, o_id r))
         (filter (\<lambda>r. o_workspace_id r = ws \<and> lease_due now r) (outbox d)))"

definition lease_choice :: "uuid set \<Rightarrow> uuid \<Rightarrow> timestamp \<Rightarrow> int \<Rightarrow> db \<Rightarrow> uuid set" where
  "lease_choice locked ws now n d = o_id ` set (take (nat n) (due_in_order locked ws now d))"

definition message_of_row :: "uuid \<Rightarrow> uuid \<Rightarrow> timestamp \<Rightarrow> outbox_row \<Rightarrow> outbox_message" where
  "message_of_row token owner until r =
     \<lparr>om_id = o_id r, om_workspace_id = o_workspace_id r, om_event_id = o_event_id r,
      om_event_type = o_event_type r, om_aggregate_type = o_aggregate_type r,
      om_aggregate_id = o_aggregate_id r, om_correlation_id = o_correlation_id r,
      om_payload = o_payload r, om_attempts = o_attempts r, om_lease_token = token,
      om_lease_owner = owner, om_leased_until = until\<rparr>"

lemma outbox_message_of_leased:
  "outbox_message_of (leased_row now until token owner r) = Inr (message_of_row token owner until r)"
  by (simp add: outbox_message_of_def leased_row_def message_of_row_def)

lemma lease_candidates_due:
  "lease_candidates (Some ws) locked ws now n (outbox d) = take n (due_in_order locked ws now d)"
  by (simp add: lease_candidates_def due_in_order_def visible_workspace)

lemma lease_choice_row:
  assumes "unique_key o_id (outbox d)" "r \<in> set (outbox d)" "o_id r \<in> lease_choice locked ws now n d"
  shows "o_workspace_id r = ws \<and> lease_due now r \<and> o_id r \<notin> locked"
proof -
  obtain x where x: "x \<in> set (due_in_order locked ws now d)" "o_id x = o_id r"
    using assms(3) by (auto simp: lease_choice_def dest: in_set_takeD)
  then have "x \<in> set (outbox d)" by (auto simp: due_in_order_def)
  with unique_keyD [OF assms(1) _ assms(2)] x have "x = r" by simp
  with x show ?thesis by (auto simp: due_in_order_def)
qed

lemma filter_update_where:
  "(\<And>r. r \<in> set rs \<Longrightarrow> P r \<Longrightarrow> P (f r)) \<Longrightarrow>
     filter P (update_where P f rs) = map f (filter P rs)"
  by (induction rs) (auto simp: update_where_def)

lemma lease_statement_Ok:
  assumes "outbox_ok d" "0 \<le> n"
  shows "lease_statement locked ws token owner now until n (Some ws) d =
    (let C = (\<lambda>r. o_id r \<in> lease_choice locked ws now n d) in
     Inr (d\<lparr>outbox := update_where C (leased_row now until token owner) (outbox d)\<rparr>,
          map (message_of_row token owner until) (filter C (outbox d))))"
proof -
  let ?C = "\<lambda>r. o_id r \<in> lease_choice locked ws now n d"
  let ?f = "leased_row now until token owner"
  let ?V = "\<lambda>r. tenant_visible (Some ws) (o_workspace_id r) \<and> ?C r"
  have uk: "unique_key o_id (outbox d)" and chk: "outbox_checks r" if "r \<in> set (outbox d)" for r
    using assms(1) that by (auto simp: outbox_ok_def outbox_row_ok_def)
  have vis: "tenant_visible (Some ws) (o_workspace_id r)" if "r \<in> set (outbox d)" "?C r" for r
    using lease_choice_row [OF uk that] that by (simp add: tenant_visible_def)
  then have V: "?V r \<longleftrightarrow> ?C r" if "r \<in> set (outbox d)" for r
    using that by blast
  have keeps: "o_id (?f r) = o_id r" "o_workspace_id (?f r) = o_workspace_id r" for r
    by (simp_all add: leased_row_def)
  have upd: "update_outbox (Some ws) ?C ?f d =
      Inr (d\<lparr>outbox := update_where ?C ?f (outbox d)\<rparr>, rows_affected ?V (outbox d))"
  proof -
    have "\<not> list_ex (\<lambda>r. ?V r \<and> \<not> outbox_checks (?f r)) (outbox d)"
      using chk outbox_row_checks(1) by (auto simp: list_ex_iff)
    moreover have "update_where ?V ?f (outbox d) = update_where ?C ?f (outbox d)"
      by (rule update_where_cong) (simp_all add: V)
    ultimately show ?thesis by (simp add: update_outbox_def Let_def)
  qed
  have "filter ?V (update_where ?C ?f (outbox d)) = filter ?C (update_where ?C ?f (outbox d))"
    using vis by (intro filter_cong) (auto simp: set_update_where keeps)
  also have "\<dots> = map ?f (filter ?C (outbox d))"
    by (rule filter_update_where) (simp add: keeps)
  finally have ret: "filter ?V (update_where ?C ?f (outbox d)) = map ?f (filter ?C (outbox d))" .
  have "collect_ok (map outbox_message_of (map ?f (filter ?C (outbox d))))
      = Inr (map (message_of_row token owner until) (filter ?C (outbox d)))"
    by (simp add: comp_def outbox_message_of_leased collect_ok_map)
  then show ?thesis
    using assms(2) upd ret
    by (simp add: lease_statement_def Let_def lease_candidates_due lease_choice_def comp_def)
qed

end
