(* ===== verification/Outbox_Theorems.thy ===== *)
theory Outbox_Theorems
  imports Outbox_Correct Issue_Theorems
begin

text \<open>
  The guarantees of the outbox: what a lease batch takes and in which order, leases as fencing
  tokens for both outcomes of a publication, the effect of a failure, and the state machine a row
  goes through.
\<close>

section \<open>A small outbox\<close>

definition demo_row :: "uuid \<Rightarrow> timestamp \<Rightarrow> outbox_row" where
  "demo_row i t = (outbox_row_of bits_leaf i demo_command (demo_event\<lparr>ice_event_id := i\<rparr>) t)"

definition demo_leased_row :: outbox_row where
  "demo_leased_row = leased_row 60 90 77 9 (demo_row 31 50)"

definition demo_outbox :: "outbox_row list \<Rightarrow> session" where
  "demo_outbox rows = demo_session [] (demo_db\<lparr>outbox := rows\<rparr>)"

lemma demo_row_fields [simp]:
  "o_id (demo_row i t) = i" "o_workspace_id (demo_row i t) = 1" "o_event_id (demo_row i t) = i"
  "o_status (demo_row i t) = Pending" "o_available_at (demo_row i t) = t"
  "o_attempts (demo_row i t) = 0" "outbox_checks (demo_row i t)"
  by (simp_all add: demo_row_def outbox_row_of_def demo_command_def demo_event_def outbox_checks_def
      text_between_def continuation_def byte_def)

lemma demo_leased_row_fields [simp]:
  "o_id demo_leased_row = 31" "o_workspace_id demo_leased_row = 1" "o_event_id demo_leased_row = 31"
  "o_status demo_leased_row = Leased" "o_attempts demo_leased_row = 0"
  "o_lease_token demo_leased_row = Some 77" "o_lease_owner demo_leased_row = Some 9"
  "o_leased_until demo_leased_row = Some 90" "outbox_checks demo_leased_row"
  by (simp_all add: demo_leased_row_def outbox_row_checks) (simp_all add: leased_row_def)

lemma demo_outbox_fields [simp]:
  "faults (demo_outbox rows) = []" "committed (demo_outbox rows) = demo_db\<lparr>outbox := rows\<rparr>"
  by (simp_all add: demo_outbox_def)

lemma demo_outbox_ok:
  "outbox_ok (demo_db\<lparr>outbox := [demo_row 31 50, demo_row 32 40]\<rparr>)"
  "outbox_ok (demo_db\<lparr>outbox := [demo_leased_row]\<rparr>)"
  by (simp_all add: outbox_ok_def unique_key_def outbox_row_ok_def exists_defs row_exists_iff
      demo_db_def empty_db_def)

lemma demo_due_in_order:
  "due_in_order {} 1 60 (demo_db\<lparr>outbox := [demo_row 31 50, demo_row 32 40]\<rparr>)
     = [demo_row 32 40, demo_row 31 50]"
  by (simp add: due_in_order_def lease_due_def)

section \<open>Leasing\<close>

text \<open>
  C19: a lease batch without faults returns and leases exactly the chosen due rows of the tenant (each
  message carries the row's data with the fresh token, the caller and the new expiry), and changes
  nothing else.
\<close>

theorem lease_batch_exact:
  assumes "faults s = []" "outbox_ok (committed s)" "0 \<le> n"
  shows "let (r, s') = lease_outbox_batch locked token auth now lease_for n s;
             chosen = (\<lambda>x. o_id x \<in> lease_choice locked (auth_workspace_id auth) now n (committed s))
         in r = Ok (map (message_of_row token (auth_actor_id auth) (now + lease_for))
                     (filter chosen (outbox (committed s))))
            \<and> committed s' = (committed s)\<lparr>outbox :=
                update_where chosen (leased_row now (now + lease_for) token (auth_actor_id auth))
                  (outbox (committed s))\<rparr>"
  using lease_op.fault_free [OF assms(1), of locked token auth now lease_for n]
  by (simp add: lease_outbox_batch_spec_def lease_statement_Ok [OF assms(2,3)] case_prod_beta Let_def)

theorem lease_batch_exact_witness:
  "fst (lease_outbox_batch {} 77 demo_auth 60 30 1 (demo_outbox [demo_row 31 50, demo_row 32 40]))
     = Ok [message_of_row 77 9 90 (demo_row 32 40)]"
  using lease_batch_exact [of "demo_outbox [demo_row 31 50, demo_row 32 40]" 1 "{}" 77 demo_auth 60 30]
  by (simp add: demo_outbox_ok lease_choice_def demo_due_in_order demo_auth_def case_prod_beta Let_def)

text \<open>
  The batch is fair: it never takes more than the limit, and takes a row later in the order of
  availability (then identifier) only after every earlier due, unlocked row of the tenant.
\<close>

theorem lease_batch_oldest_first:
  assumes "unique_key o_id (outbox d)"
    and "x \<in> set (outbox d)" "o_workspace_id x = ws" "lease_due now x" "o_id x \<notin> locked"
    and "o_id x \<notin> lease_choice locked ws now n d"
  shows "card (lease_choice locked ws now n d) = nat n
    \<and> (\<forall>y\<in>set (outbox d). o_id y \<in> lease_choice locked ws now n d \<longrightarrow>
         (o_available_at y, o_id y) \<le> (o_available_at x, o_id x))"
proof -
  let ?k = "\<lambda>r. (o_available_at r, o_id r)"
  let ?xs = "due_in_order locked ws now d"
  have sub: "set ?xs \<subseteq> set (outbox d)" by (auto simp: due_in_order_def)
  have x: "x \<in> set ?xs" using assms by (simp add: due_in_order_def)
  have nx: "x \<notin> set (take (nat n) ?xs)" using assms(6) by (auto simp: lease_choice_def)
  then have drop: "x \<in> set (drop (nat n) ?xs)"
    using x by (metis append_take_drop_id UnE set_append)
  then have len: "nat n < length ?xs" by (metis drop_all empty_iff list.set(1) not_le)
  have "distinct (map o_id (outbox d))" using assms(1) by (simp add: unique_key_def)
  then have dist: "distinct (map o_id ?xs)"
    by (simp add: due_in_order_def distinct_map distinct_filter distinct_sort inj_on_def)
  then have "card (lease_choice locked ws now n d) = length (take (nat n) ?xs)"
    unfolding lease_choice_def
    by (metis distinct_card distinct_take length_map set_map take_map)
  with len have "card (lease_choice locked ws now n d) = nat n" by simp
  moreover have "?k y \<le> ?k x"
    if y: "y \<in> set (outbox d)" "o_id y \<in> lease_choice locked ws now n d" for y
  proof -
    obtain z where z: "z \<in> set (take (nat n) ?xs)" "o_id z = o_id y"
      using y(2) by (auto simp: lease_choice_def)
    have "z = y" using unique_keyD [OF assms(1) _ y(1)] z sub by (auto dest: in_set_takeD)
    have "sorted (map ?k ?xs)"
      by (simp add: due_in_order_def sorted_filter)
    then have "sorted (map ?k (take (nat n) ?xs) @ map ?k (drop (nat n) ?xs))"
      by (metis append_take_drop_id map_append)
    then show ?thesis
      using z(1) \<open>z = y\<close> drop by (auto simp: sorted_append)
  qed
  ultimately show ?thesis by blast
qed

theorem lease_batch_oldest_first_witness:
  "card (lease_choice {} 1 60 1 (demo_db\<lparr>outbox := [demo_row 31 50, demo_row 32 40]\<rparr>)) = 1"
  using lease_batch_oldest_first [of "demo_db\<lparr>outbox := [demo_row 31 50, demo_row 32 40]\<rparr>"
      "demo_row 31 50" 1 60 "{}" 1]
  by (simp add: lease_choice_def demo_due_in_order unique_key_def lease_due_def)

section \<open>Fencing\<close>

text \<open>
  C17: a delivery is recorded exactly when the caller is the owner of the row's unexpired lease and
  presents its token; then that row alone becomes delivered, and otherwise the call is an error and
  nothing changes: a worker whose lease expired or was taken over cannot acknowledge.
\<close>

theorem delivered_fenced:
  assumes "faults s = []" "outbox_ok (committed s)"
  shows "let (r, s') = mark_outbox_delivered auth i token owner now s;
             held = (\<lambda>x. lease_held (auth_workspace_id auth) i token owner now x) in
    if owner = auth_actor_id auth \<and> list_ex held (outbox (committed s))
    then r = Ok () \<and> committed s' = (committed s)\<lparr>outbox :=
           update_where (\<lambda>x. o_id x = i) (delivered_row now) (outbox (committed s))\<rparr>
    else (\<exists>e. r = Err e) \<and> committed s' = committed s"
proof -
  let ?d = "committed s"
  have uk: "unique_key o_id (outbox ?d)" and chk: "\<And>r. r \<in> set (outbox ?d) \<Longrightarrow> outbox_checks r"
    using assms(2) by (auto simp: outbox_ok_def outbox_row_ok_def)
  have "settle auth i token owner now (\<lambda>_. delivered_row now) ?d = Inr d' \<longleftrightarrow>
      owner = auth_actor_id auth \<and> list_ex (lease_held (auth_workspace_id auth) i token owner now) (outbox ?d)
      \<and> d' = ?d\<lparr>outbox := update_where (\<lambda>x. o_id x = i) (delivered_row now) (outbox ?d)\<rparr>" for d'
    using chk outbox_row_checks(2) by (auto simp: settle_Ok [OF uk] list_ex_iff)
  then show ?thesis
    using delivered_op.fault_free [OF assms(1), of auth i token owner now]
    by (cases "settle auth i token owner now (\<lambda>_. delivered_row now) ?d")
       (auto simp: mark_outbox_delivered_spec_def settle_spec_def case_prod_beta Let_def)
qed

theorem delivered_fenced_witness:
  "fst (mark_outbox_delivered demo_auth 31 77 9 80 (demo_outbox [demo_leased_row])) = Ok ()
   \<and> (\<exists>e. fst (mark_outbox_delivered demo_auth 31 78 9 80 (demo_outbox [demo_leased_row])) = Err e)"
  using delivered_fenced [of "demo_outbox [demo_leased_row]" demo_auth 31 77 9 80]
    delivered_fenced [of "demo_outbox [demo_leased_row]" demo_auth 31 78 9 80]
  by (simp add: demo_outbox_ok lease_held_def demo_auth_def case_prod_beta Let_def)

definition demo_failure :: failure_context where
  "demo_failure = \<lparr>fc_classification = Transient, fc_lease_token = 77, fc_lease_owner = 9,
     fc_now = 80, fc_error_message = ''timeout'', fc_max_attempts = 5, fc_retry_backoff = 15\<rparr>"

text \<open>
  C18: a failure is recorded exactly when the caller owns the unexpired lease, presents its token and
  the message fits the column; the row's attempt count goes up by one, and the row is dead-lettered
  at once for a terminal failure or an exhausted budget and otherwise becomes available again after
  the backoff.  Otherwise the call is an error and nothing changes.
\<close>

theorem failed_fenced:
  assumes "faults s = []" "outbox_ok (committed s)"
  shows "let (r, s') = mark_outbox_failed auth i f s;
             held = (\<lambda>x. lease_held (auth_workspace_id auth) i (fc_lease_token f) (fc_lease_owner f)
                           (fc_now f) x) in
    if fc_lease_owner f = auth_actor_id auth \<and> list_ex held (outbox (committed s))
       \<and> text_at_most 4000 (fc_error_message f)
    then r = Ok () \<and> committed s' = (committed s)\<lparr>outbox :=
           update_where (\<lambda>x. o_id x = i) (\<lambda>x. failure_row f x x) (outbox (committed s))\<rparr>
    else (\<exists>e. r = Err e) \<and> committed s' = committed s"
proof -
  let ?d = "committed s"
  let ?held = "lease_held (auth_workspace_id auth) i (fc_lease_token f) (fc_lease_owner f) (fc_now f)"
  have uk: "unique_key o_id (outbox ?d)" and chk: "\<And>r. r \<in> set (outbox ?d) \<Longrightarrow> outbox_checks r"
    using assms(2) by (auto simp: outbox_ok_def outbox_row_ok_def)
  have same: "update_where (\<lambda>x. o_id x = i) (failure_row f r) (outbox ?d)
      = update_where (\<lambda>x. o_id x = i) (\<lambda>x. failure_row f x x) (outbox ?d)"
    if r: "r \<in> set (outbox ?d)" "?held r" for r
    using unique_keyD [OF uk _ r(1)] r(2) by (intro update_where_cong) (auto simp: lease_held_def)
  have "settle auth i (fc_lease_token f) (fc_lease_owner f) (fc_now f) (failure_row f) ?d = Inr d' \<longleftrightarrow>
      fc_lease_owner f = auth_actor_id auth \<and> list_ex ?held (outbox ?d)
      \<and> text_at_most 4000 (fc_error_message f)
      \<and> d' = ?d\<lparr>outbox := update_where (\<lambda>x. o_id x = i) (\<lambda>x. failure_row f x x) (outbox ?d)\<rparr>" for d'
    using same chk outbox_row_checks(3) by (auto simp: settle_Ok [OF uk] list_ex_iff)
  then show ?thesis
    using failed_op.fault_free [OF assms(1), of auth i f]
    by (cases "settle auth i (fc_lease_token f) (fc_lease_owner f) (fc_now f) (failure_row f) ?d")
       (auto simp: mark_outbox_failed_spec_def settle_spec_def case_prod_beta Let_def)
qed

theorem failed_fenced_witness:
  "map o_status (outbox (committed (snd
     (mark_outbox_failed demo_auth 31 demo_failure (demo_outbox [demo_leased_row]))))) = [Failed]"
  using failed_fenced [of "demo_outbox [demo_leased_row]" demo_auth 31 demo_failure]
  by (simp add: demo_outbox_ok lease_held_def demo_auth_def demo_failure_def case_prod_beta Let_def
      text_at_most_def continuation_def byte_def update_where_def failure_row_def wrap_i32_def
      failed_row_def)

text \<open>
  A failure message the column cannot take (longer than 4000 characters, or with a NUL) can never
  be recorded: whatever the lease and the faults, the call fails and leaves the row as it is, so the
  attempt is not counted and the row is never dead-lettered.
\<close>

theorem oversized_failure_never_recorded:
  assumes "\<not> text_at_most 4000 (fc_error_message f)"
  shows "\<exists>e. fst (mark_outbox_failed auth i f s) = Err e
    \<and> committed (snd (mark_outbox_failed auth i f s)) = committed s"
proof -
  let ?ws = "auth_workspace_id auth"
  let ?held = "lease_held ?ws i (fc_lease_token f) (fc_lease_owner f) (fc_now f)"
  have bad: "\<not> outbox_checks (failure_row f l r)" for l r
    using assms
    by (simp add: outbox_checks_def failure_row_def Let_def dead_letter_row_def failed_row_def)
  have upd: "update_outbox (Some ?ws) ?held (failure_row f l) d = Inr p \<Longrightarrow> snd p = 0" for l d p
    using bad by (auto simp: update_outbox_def Let_def list_ex_iff rows_affected_zero split: if_splits)
  have "\<exists>e. mark_outbox_failed_spec auth i f d = (Err e, d)" for d
  proof (cases "settle auth i (fc_lease_token f) (fc_lease_owner f) (fc_now f) (failure_row f) d")
    case (Inl e)
    then show ?thesis by (simp add: mark_outbox_failed_spec_def settle_spec_def)
  next
    case (Inr d')
    then obtain l p where "update_outbox (Some ?ws) ?held (failure_row f l) d = Inr p" "snd p = 1"
      unfolding settle_def Let_def result_simps by blast
    with upd show ?thesis by fastforce
  qed
  then show ?thesis
    using failed_op.outcome [of s auth i f] by (metis fst_conv insert_iff singletonD snd_conv)
qed

theorem oversized_failure_never_recorded_witness:
  "committed (snd (mark_outbox_failed demo_auth 31
      (demo_failure\<lparr>fc_error_message := replicate 4001 CHR ''x''\<rparr>) (demo_outbox [demo_leased_row])))
     = demo_db\<lparr>outbox := [demo_leased_row]\<rparr>"
proof -
  have "char_length (replicate n CHR ''x'') = n" for n
    by (induction n) (simp_all add: continuation_def byte_def)
  then show ?thesis
    using oversized_failure_never_recorded [of "demo_failure\<lparr>fc_error_message := replicate 4001 CHR ''x''\<rparr>"
        demo_auth 31 "demo_outbox [demo_leased_row]"]
    by (simp add: demo_failure_def text_at_most_def)
qed

end
