(* ===== verification/Tenant_Store.thy ===== *)
theory Tenant_Store
  imports Demo
begin

text \<open>
  The workspace and project repositories, \<open>repositories/workspace.rs\<close> and
  \<open>repositories/project.rs\<close>, with their specifications and guarantees.  They run on the same
  connection through SeaORM, whose errors are the constructor \<open>SeaOrm\<close>.  The columns left to their
  defaults take version 0 and the server's clock, the argument \<open>db_now\<close>.
\<close>

section \<open>Workspaces\<close>

text \<open>The trailing two bytes of the identifier, big endian, modulo the number of buckets.\<close>

definition shard_bucket_for :: "uuid \<Rightarrow> int" where
  "shard_bucket_for i = int (unat (ucast i :: 16 word) mod 1024)"

record workspace_write_input =
  wi_workspace_id :: uuid
  wi_name :: string

definition map_workspace_model :: "workspace_row \<Rightarrow> workspace" where
  "map_workspace_model model =
     \<lparr>ws_id = w_id model, ws_name = w_name model, ws_row_version = w_row_version model,
      ws_created_at = w_created_at model, ws_updated_at = w_updated_at model\<rparr>"

definition workspace_row_of :: "timestamp \<Rightarrow> workspace_write_input \<Rightarrow> workspace_row" where
  "workspace_row_of db_now input =
     \<lparr>w_id = wi_workspace_id input, w_name = wi_name input,
      w_shard_bucket = shard_bucket_for (wi_workspace_id input), w_row_version = 0,
      w_created_at = db_now, w_updated_at = db_now\<rparr>"

definition create_workspace :: "timestamp \<Rightarrow> auth_context \<Rightarrow> workspace_write_input \<Rightarrow> workspace tx" where
  "create_workspace db_now auth input =
     tx_bind (pg_begin SeaOrm) (\<lambda>_.
     tx_bind (set_workspace_context SeaOrm (auth_workspace_id auth)) (\<lambda>_.
     tx_bind
       (pg_query SeaOrm (\<lambda>setting d.
          map_ok (\<lambda>d'. (d', workspace_row_of db_now input))
            (insert_workspace_row setting (workspace_row_of db_now input) d))) (\<lambda>model.
     tx_bind (pg_commit SeaOrm) (\<lambda>_.
     tx_return (map_workspace_model model)))))"

definition get_workspace :: "auth_context \<Rightarrow> uuid \<Rightarrow> workspace option tx" where
  "get_workspace auth workspace_id =
     tx_bind (pg_begin SeaOrm) (\<lambda>_.
     tx_bind (set_workspace_context SeaOrm (auth_workspace_id auth)) (\<lambda>_.
     tx_bind
       (pg_select SeaOrm (\<lambda>setting d.
          fetch_optional (\<lambda>r. tenant_visible setting (w_id r) \<and> w_id r = workspace_id)
            (workspaces d))) (\<lambda>model.
     tx_bind (pg_commit SeaOrm) (\<lambda>_.
     tx_return (map_option map_workspace_model model)))))"

section \<open>Projects\<close>

record project_write_input =
  pi_project_id :: uuid
  pi_workspace_id :: uuid
  pi_name :: string
  pi_workflow_version_id :: uuid

definition map_project_model :: "project_row \<Rightarrow> project" where
  "map_project_model model =
     \<lparr>prj_id = p_id model, prj_workspace_id = p_workspace_id model, prj_name = p_name model,
      prj_workflow_version_id = p_workflow_version_id model, prj_row_version = p_row_version model,
      prj_created_at = p_created_at model, prj_updated_at = p_updated_at model\<rparr>"

definition project_row_of :: "timestamp \<Rightarrow> project_write_input \<Rightarrow> project_row" where
  "project_row_of db_now input =
     \<lparr>p_id = pi_project_id input, p_workspace_id = pi_workspace_id input, p_name = pi_name input,
      p_workflow_version_id = pi_workflow_version_id input, p_row_version = 0,
      p_created_at = db_now, p_updated_at = db_now\<rparr>"

definition create_project :: "timestamp \<Rightarrow> auth_context \<Rightarrow> project_write_input \<Rightarrow> project tx" where
  "create_project db_now auth input =
     tx_bind (pg_begin SeaOrm) (\<lambda>_.
     tx_bind (set_workspace_context SeaOrm (auth_workspace_id auth)) (\<lambda>_.
     tx_bind
       (pg_select SeaOrm (\<lambda>setting d.
          fetch_optional (\<lambda>r. tenant_visible setting (wv_workspace_id r)
                            \<and> wv_workspace_id r = pi_workspace_id input
                            \<and> wv_id r = pi_workflow_version_id input)
            (workflow_versions d) \<noteq> None)) (\<lambda>workflow_exists.
     if \<not> workflow_exists then tx_lift (Err WorkflowVersionNotFound)
     else
       tx_bind
         (pg_query SeaOrm (\<lambda>setting d.
            map_ok (\<lambda>d'. (d', project_row_of db_now input))
              (insert_project_row setting (project_row_of db_now input) d))) (\<lambda>model.
       tx_bind (pg_commit SeaOrm) (\<lambda>_.
       tx_return (map_project_model model))))))"

definition get_project :: "auth_context \<Rightarrow> uuid \<Rightarrow> project option tx" where
  "get_project auth project_id =
     tx_bind (pg_begin SeaOrm) (\<lambda>_.
     tx_bind (set_workspace_context SeaOrm (auth_workspace_id auth)) (\<lambda>_.
     tx_bind
       (pg_select SeaOrm (\<lambda>setting d.
          fetch_optional (\<lambda>r. tenant_visible setting (p_workspace_id r) \<and> p_id r = project_id)
            (projects d))) (\<lambda>model.
     tx_bind (pg_commit SeaOrm) (\<lambda>_.
     tx_return (map_option map_project_model model)))))"

section \<open>Specifications\<close>

definition create_workspace_spec ::
  "timestamp \<Rightarrow> auth_context \<Rightarrow> workspace_write_input \<Rightarrow> db \<Rightarrow> (store_error + workspace) \<times> db" where
  "create_workspace_spec db_now auth input d =
     (case insert_workspace_row (Some (auth_workspace_id auth)) (workspace_row_of db_now input) d of
        Inl e \<Rightarrow> (Err (SeaOrm e), d)
      | Inr d' \<Rightarrow> (Ok (map_workspace_model (workspace_row_of db_now input)), d'))"

definition get_workspace_spec :: "auth_context \<Rightarrow> uuid \<Rightarrow> db \<Rightarrow> (store_error + workspace option) \<times> db" where
  "get_workspace_spec auth workspace_id d =
     (Ok (map_option map_workspace_model
        (fetch_optional (\<lambda>r. tenant_visible (Some (auth_workspace_id auth)) (w_id r)
           \<and> w_id r = workspace_id) (workspaces d))), d)"

definition create_project_spec ::
  "timestamp \<Rightarrow> auth_context \<Rightarrow> project_write_input \<Rightarrow> db \<Rightarrow> (store_error + project) \<times> db" where
  "create_project_spec db_now auth input d =
     (if \<not> (auth_workspace_id auth = pi_workspace_id input
             \<and> workflow_version_exists d (pi_workspace_id input) (pi_workflow_version_id input))
      then (Err WorkflowVersionNotFound, d)
      else case insert_project_row (Some (auth_workspace_id auth)) (project_row_of db_now input) d of
             Inl e \<Rightarrow> (Err (SeaOrm e), d)
           | Inr d' \<Rightarrow> (Ok (map_project_model (project_row_of db_now input)), d'))"

definition get_project_spec :: "auth_context \<Rightarrow> uuid \<Rightarrow> db \<Rightarrow> (store_error + project option) \<times> db" where
  "get_project_spec auth project_id d =
     (Ok (map_option map_project_model
        (fetch_optional (\<lambda>r. tenant_visible (Some (auth_workspace_id auth)) (p_workspace_id r)
           \<and> p_id r = project_id) (projects d))), d)"

interpretation create_workspace_op: store_operation SeaOrm
  "create_workspace db_now auth input" "create_workspace_spec db_now auth input" for db_now auth input
  unfolding create_workspace_def
  by (rule store_operationI, rule finishes_bind, rule runs_query, rule finishes_commit_return)
     (auto simp: create_workspace_spec_def result_simps split: sum.splits)

interpretation get_workspace_op: store_operation SeaOrm
  "get_workspace auth workspace_id" "get_workspace_spec auth workspace_id" for auth workspace_id
  unfolding get_workspace_def
  by (rule store_operationI, rule finishes_bind, rule runs_select, rule finishes_commit_return)
     (simp add: get_workspace_spec_def)

interpretation get_project_op: store_operation SeaOrm
  "get_project auth project_id" "get_project_spec auth project_id" for auth project_id
  unfolding get_project_def
  by (rule store_operationI, rule finishes_bind, rule runs_select, rule finishes_commit_return)
     (simp add: get_project_spec_def)

interpretation create_project_op: store_operation SeaOrm
  "create_project db_now auth input" "create_project_spec db_now auth input" for db_now auth input
proof -
  have "auth_workspace_id auth = pi_workspace_id input
        \<and> workflow_version_exists d (pi_workspace_id input) (pi_workflow_version_id input)
      \<longleftrightarrow> fetch_optional (\<lambda>r. tenant_visible (Some (auth_workspace_id auth)) (wv_workspace_id r)
            \<and> wv_workspace_id r = pi_workspace_id input \<and> wv_id r = pi_workflow_version_id input)
          (workflow_versions d) \<noteq> None" for d
    by (auto simp: fetch_optional_None_exists workflow_version_exists_def row_exists_iff
        tenant_visible_def)
  note guard = this
  show "store_operation SeaOrm (create_project db_now auth input) (create_project_spec db_now auth input)"
    unfolding create_project_def
    apply (rule store_operationI)
     apply (rule runs_select runs_query finishes_commit_return finishes_early finishes_bind finishes_if)+
    unfolding create_project_spec_def guard
    apply (auto simp: result_simps split: sum.splits)
    done
qed

section \<open>Guarantees\<close>

lemma shard_bucket_bounds: "0 \<le> shard_bucket_for i \<and> shard_bucket_for i \<le> 1023"
proof -
  have "unat (ucast i :: 16 word) mod 1024 < 1024" by simp
  then show ?thesis by (simp add: shard_bucket_for_def)
qed

text \<open>
  A workspace whose command passed validation never fails a check of the schema: the tenant's
  first attempt under a new identifier succeeds, with a bucket inside the partition range.
\<close>

theorem validated_workspace_created:
  assumes "faults s = []" "CreateWorkspace_validate c = Ok ()" "valid_utf8 (cw_name c)" "storable (cw_name c)"
    and "\<not> row_exists (\<lambda>r. w_id r = cw_workspace_id c) (workspaces (committed s))"
    and "auth_workspace_id auth = cw_workspace_id c"
  shows "let input = \<lparr>wi_workspace_id = cw_workspace_id c, wi_name = cw_name c\<rparr>;
             row = workspace_row_of db_now input;
             (r, s') = create_workspace db_now auth input s
         in r = Ok (map_workspace_model row) \<and> 0 \<le> w_shard_bucket row \<and> w_shard_bucket row \<le> 1023
            \<and> committed s' = (committed s)\<lparr>workspaces := workspaces (committed s) @ [row]\<rparr>"
proof -
  let ?input = "\<lparr>wi_workspace_id = cw_workspace_id c, wi_name = cw_name c\<rparr>"
  let ?row = "workspace_row_of db_now ?input"
  have "\<not> blank (cw_name c)" "length (cw_name c) \<le> 200"
    using assms(2) by (auto simp: CreateWorkspace_validate_def max_lengths split: if_splits)
  then have "text_between 1 200 (cw_name c)"
    using assms(3,4) by (intro text_betweenI) (auto dest: not_blank_nonempty)
  then have "insert_workspace_row (Some (auth_workspace_id auth)) ?row (committed s)
      = Inr ((committed s)\<lparr>workspaces := workspaces (committed s) @ [?row]\<rparr>)"
    using assms(5,6) shard_bucket_bounds
    by (simp add: insert_workspace_row_Ok workspace_checks_def workspace_row_of_def)
  then show ?thesis
    using create_workspace_op.fault_free [OF assms(1), of db_now auth ?input] shard_bucket_bounds
    by (simp add: create_workspace_spec_def case_prod_beta Let_def workspace_row_of_def)
qed

definition demo_workspace_command :: create_workspace_command where
  "demo_workspace_command =
     \<lparr>cw_command_id = 40, cw_workspace_id = 5, cw_name = ''ops'', cw_actor_id = 9\<rparr>"

theorem validated_workspace_created_witness:
  "length (workspaces (committed (snd (create_workspace 70 \<lparr>auth_workspace_id = 5, auth_actor_id = 9\<rparr>
      \<lparr>wi_workspace_id = 5, wi_name = ''ops''\<rparr> (demo_session [] demo_db))))) = 2"
proof -
  have "CreateWorkspace_validate demo_workspace_command = Ok ()"
    by (simp add: CreateWorkspace_validate_def demo_workspace_command_def max_lengths blank_def
        trim_def trim_start_def trim_end_def strip_seqs.simps ws_seqs_def)
  moreover have "valid_utf8 (cw_name demo_workspace_command)" "storable (cw_name demo_workspace_command)"
    by (simp_all add: demo_workspace_command_def valid_utf8.simps byte_def Let_def)
  ultimately show ?thesis
    using validated_workspace_created [of "demo_session [] demo_db" demo_workspace_command
        "\<lparr>auth_workspace_id = 5, auth_actor_id = 9\<rparr>" 70]
    by (simp add: demo_workspace_command_def case_prod_beta Let_def)
       (simp add: demo_db_def empty_db_def row_exists_def)
qed

text \<open>
  A project is created only in the caller's own workspace, on a workflow version of that
  workspace, and the creation adds exactly its row.
\<close>

theorem project_within_tenant:
  assumes "create_project db_now auth input s = (Ok p, s')"
  shows "prj_workspace_id p = auth_workspace_id auth
    \<and> workflow_version_exists (committed s) (auth_workspace_id auth) (prj_workflow_version_id p)
    \<and> committed s' = (committed s)\<lparr>projects := projects (committed s) @ [project_row_of db_now input]\<rparr>"
proof -
  have "create_project_spec db_now auth input (committed s) = (Ok p, committed s')"
    using create_project_op.returned [of db_now auth input s "Ok p"] assms by simp
  then show ?thesis
    by (auto simp: create_project_spec_def insert_project_row_Ok map_project_model_def
        project_row_of_def split: if_splits sum.splits)
qed

theorem project_within_tenant_witness:
  "\<exists>p s'. create_project 70 demo_auth \<lparr>pi_project_id = 41, pi_workspace_id = 1, pi_name = ''api'',
       pi_workflow_version_id = 2\<rparr> (demo_session [] demo_db) = (Ok p, s') \<and> prj_workspace_id p = 1"
proof -
  let ?input = "\<lparr>pi_project_id = 41, pi_workspace_id = 1, pi_name = ''api'', pi_workflow_version_id = 2\<rparr>"
  have "fst (create_project_spec 70 demo_auth ?input demo_db)
      = Ok (map_project_model (project_row_of 70 ?input))"
    by (simp add: create_project_spec_def insert_project_row_def project_row_of_def tenant_visible_def
        project_checks_def text_between_def continuation_def byte_def exists_defs row_exists_def
        demo_auth_def demo_db_def empty_db_def)
  then obtain s' where run: "create_project 70 demo_auth ?input (demo_session [] demo_db)
      = (Ok (map_project_model (project_row_of 70 ?input)), s')"
    using create_project_op.fault_free(1) [of "demo_session [] demo_db" 70 demo_auth ?input]
    by (cases "create_project 70 demo_auth ?input (demo_session [] demo_db)") simp
  from project_within_tenant [OF run] run show ?thesis by (auto simp: demo_auth_def)
qed

end
