(* ===== verification/Partition_Store.thy ===== *)
theory Partition_Store
  imports Demo
begin

text \<open>
  Partition leases, \<open>repositories/partition.rs\<close> and the SQL function of the last migration: which
  worker process looks after which workspaces.  The table has no row level security and the
  statements run on the pool, each its own transaction.  The \<open>SECURITY DEFINER\<close> function reads all
  workspaces: its owner is taken to be exempt from their policy (\<open>Row_Security\<close> has the other case).
\<close>

section \<open>Operations\<close>

record shard_bucket_range =
  sbr_min :: int
  sbr_max :: int

definition MAX_BUCKET :: int where "MAX_BUCKET = 1023"

definition ShardBucketRange_new :: "int \<Rightarrow> int \<Rightarrow> store_error + shard_bucket_range" where
  "ShardBucketRange_new mn mx =
     (if \<not> (0 \<le> mn \<and> mn \<le> MAX_BUCKET) \<or> \<not> (0 \<le> mx \<and> mx \<le> MAX_BUCKET) then
        Err (InvalidInput (''shard bucket range '' @ show_int mn @ ''..'' @ show_int mx
               @ '' out of bounds [0,'' @ show_int MAX_BUCKET @ '']''))
      else if mx < mn then
        Err (InvalidInput (''shard bucket range min ('' @ show_int mn @ '') exceeds max (''
               @ show_int mx @ '')''))
      else Ok \<lparr>sbr_min = mn, sbr_max = mx\<rparr>)"

definition ShardBucketRange_full :: shard_bucket_range where
  "ShardBucketRange_full = \<lparr>sbr_min = 0, sbr_max = MAX_BUCKET\<rparr>"

definition list_workspace_ids_for_partition_lease ::
  "int \<Rightarrow> int \<Rightarrow> int \<Rightarrow> db \<Rightarrow> db_error + (uuid \<times> int) list" where
  "list_workspace_ids_for_partition_lease bucket_min bucket_max max_rows d =
     (if max_rows < 0 then Err InvalidLimit
      else Ok (map (\<lambda>w. (w_id w, w_shard_bucket w))
        (take (nat max_rows)
          (sort_key (\<lambda>w. (w_shard_bucket w, w_id w))
            (filter (\<lambda>w. bucket_min \<le> w_shard_bucket w \<and> w_shard_bucket w \<le> bucket_max)
              (workspaces d))))))"

definition partition_row_of ::
  "uuid \<Rightarrow> timestamp \<Rightarrow> timestamp \<Rightarrow> uuid \<times> int \<Rightarrow> partition_lease_row" where
  "partition_row_of owner_id now lease_until w =
     \<lparr>l_workspace_id = fst w, l_shard_bucket = snd w, l_lease_owner = owner_id, l_leased_at = now,
      l_leased_until = lease_until, l_updated_at = now\<rparr>"

text \<open>\<open>INSERT \<dots> ON CONFLICT (workspace_id) DO UPDATE \<dots> WHERE \<dots> RETURNING\<close>, one row of it.\<close>

definition upsert_partition_lease :: "partition_lease_row \<Rightarrow> db \<Rightarrow> db_error + (db \<times> bool)" where
  "upsert_partition_lease r d =
     (if \<not> partition_lease_checks r then Err CheckViolation
      else case fetch_optional (\<lambda>l. l_workspace_id l = l_workspace_id r) (partition_leases d) of
        None \<Rightarrow>
          if \<not> workspace_exists d (l_workspace_id r) then Err ForeignKeyViolation
          else Ok (d\<lparr>partition_leases := partition_leases d @ [r]\<rparr>, True)
      | Some l \<Rightarrow>
          if l_leased_until l \<le> l_leased_at r \<or> l_lease_owner l = l_lease_owner r
          then Ok (d\<lparr>partition_leases :=
                 update_where (\<lambda>l. l_workspace_id l = l_workspace_id r)
                   (\<lambda>l. l\<lparr>l_shard_bucket := l_shard_bucket r, l_lease_owner := l_lease_owner r,
                        l_leased_at := l_leased_at r, l_leased_until := l_leased_until r,
                        l_updated_at := l_updated_at r\<rparr>) (partition_leases d)\<rparr>, True)
          else Ok (d, False))"

fun upsert_partition_leases :: "partition_lease_row list \<Rightarrow> db \<Rightarrow> db_error + (db \<times> uuid list)" where
  "upsert_partition_leases [] d = Ok (d, [])"
| "upsert_partition_leases (r # rs) d =
     and_then (upsert_partition_lease r d) (\<lambda>(d', taken).
       map_ok (\<lambda>(d'', ids). (d'', if taken then l_workspace_id r # ids else ids))
         (upsert_partition_leases rs d'))"

text \<open>The \<open>NOT EXISTS\<close> of the candidates.\<close>

definition held_by_other :: "uuid \<Rightarrow> timestamp \<Rightarrow> db \<Rightarrow> uuid \<Rightarrow> bool" where
  "held_by_other owner_id now d w \<longleftrightarrow>
     row_exists (\<lambda>l. l_workspace_id l = w \<and> now < l_leased_until l \<and> l_lease_owner l \<noteq> owner_id)
       (partition_leases d)"

definition acquire_statement ::
  "uuid \<Rightarrow> timestamp \<Rightarrow> timestamp \<Rightarrow> int \<Rightarrow> shard_bucket_range \<Rightarrow> db \<Rightarrow> db_error + (db \<times> uuid list)" where
  "acquire_statement owner_id now lease_until scan_limit buckets d =
     and_then (list_workspace_ids_for_partition_lease (sbr_min buckets) (sbr_max buckets) scan_limit d)
       (\<lambda>ws. upsert_partition_leases
          (map (partition_row_of owner_id now lease_until)
             (sort_key (\<lambda>w. (snd w, fst w)) (filter (\<lambda>w. \<not> held_by_other owner_id now d (fst w)) ws)))
          d)"

text \<open>\<open>i32::try_from(limit.min(i64::from(i32::MAX))).unwrap_or(i32::MAX)\<close>.\<close>

definition scan_limit_of :: "int \<Rightarrow> int" where
  "scan_limit_of limit =
     (let m = min limit (2 ^ 31 - 1) in if in_i32 m then m else 2 ^ 31 - 1)"

definition acquire_partitions ::
  "uuid \<Rightarrow> timestamp \<Rightarrow> timestamp \<Rightarrow> int \<Rightarrow> shard_bucket_range \<Rightarrow> uuid list tx" where
  "acquire_partitions owner_id now lease_until limit buckets =
     pg_autocommit Sqlx (acquire_statement owner_id now lease_until (scan_limit_of limit) buckets)"

definition renew_partitions ::
  "uuid \<Rightarrow> uuid list \<Rightarrow> timestamp \<Rightarrow> timestamp \<Rightarrow> uuid list tx" where
  "renew_partitions owner_id workspace_ids now new_lease_until =
     (if workspace_ids = [] then tx_lift (Ok [])
      else pg_autocommit Sqlx (\<lambda>d.
        let Q = (\<lambda>l. l_workspace_id l \<in> set workspace_ids \<and> l_lease_owner l = owner_id
                   \<and> now < l_leased_until l)
        in Ok (d\<lparr>partition_leases :=
                 update_where Q (\<lambda>l. l\<lparr>l_leased_until := new_lease_until, l_updated_at := now\<rparr>)
                   (partition_leases d)\<rparr>,
               map l_workspace_id (filter Q (partition_leases d)))))"

definition release_partitions :: "uuid \<Rightarrow> uuid list \<Rightarrow> nat tx" where
  "release_partitions owner_id workspace_ids =
     (if workspace_ids = [] then tx_lift (Ok 0)
      else pg_autocommit Sqlx (\<lambda>d.
        let Q = (\<lambda>l. l_workspace_id l \<in> set workspace_ids \<and> l_lease_owner l = owner_id)
        in Ok (d\<lparr>partition_leases := delete_where Q (partition_leases d)\<rparr>,
               rows_affected Q (partition_leases d))))"

section \<open>Specifications\<close>

definition acquire_partitions_spec ::
  "uuid \<Rightarrow> timestamp \<Rightarrow> timestamp \<Rightarrow> int \<Rightarrow> shard_bucket_range \<Rightarrow> db
    \<Rightarrow> (store_error + uuid list) \<times> db" where
  "acquire_partitions_spec owner_id now lease_until limit buckets d =
     (case acquire_statement owner_id now lease_until (scan_limit_of limit) buckets d of
        Inl e \<Rightarrow> (Err (Sqlx e), d) | Inr (d', ids) \<Rightarrow> (Ok ids, d'))"

definition own_live :: "uuid \<Rightarrow> uuid list \<Rightarrow> timestamp \<Rightarrow> partition_lease_row \<Rightarrow> bool" where
  "own_live owner_id ids now l \<longleftrightarrow>
     l_workspace_id l \<in> set ids \<and> l_lease_owner l = owner_id \<and> now < l_leased_until l"

definition renew_partitions_spec ::
  "uuid \<Rightarrow> uuid list \<Rightarrow> timestamp \<Rightarrow> timestamp \<Rightarrow> db \<Rightarrow> (store_error + uuid list) \<times> db" where
  "renew_partitions_spec owner_id ids now new_lease_until d =
     (Ok (map l_workspace_id (filter (own_live owner_id ids now) (partition_leases d))),
      d\<lparr>partition_leases := update_where (own_live owner_id ids now)
          (\<lambda>l. l\<lparr>l_leased_until := new_lease_until, l_updated_at := now\<rparr>) (partition_leases d)\<rparr>)"

definition release_partitions_spec :: "uuid \<Rightarrow> uuid list \<Rightarrow> db \<Rightarrow> (store_error + nat) \<times> db" where
  "release_partitions_spec owner_id ids d =
     (let Q = (\<lambda>l. l_workspace_id l \<in> set ids \<and> l_lease_owner l = owner_id)
      in (Ok (rows_affected Q (partition_leases d)),
          d\<lparr>partition_leases := delete_where Q (partition_leases d)\<rparr>))"

interpretation acquire_op: store_operation Sqlx
  "acquire_partitions owner_id now lease_until limit buckets"
  "acquire_partitions_spec owner_id now lease_until limit buckets"
  for owner_id now lease_until limit buckets
  unfolding acquire_partitions_def
  by (rule store_operation_autocommit) (simp add: acquire_partitions_spec_def)

interpretation renew_op: store_operation Sqlx
  "renew_partitions owner_id ids now new_lease_until"
  "renew_partitions_spec owner_id ids now new_lease_until" for owner_id ids now new_lease_until
  unfolding renew_partitions_def
  apply (rule store_operation_if)
   apply (rule store_operation_return, simp add: renew_partitions_spec_def own_live_def update_where_none)
  apply (rule store_operation_autocommit, simp add: renew_partitions_spec_def own_live_def [abs_def] Let_def)
  done

interpretation release_op: store_operation Sqlx
  "release_partitions owner_id ids" "release_partitions_spec owner_id ids" for owner_id ids
  unfolding release_partitions_def
  apply (rule store_operation_if)
   apply (rule store_operation_return)
   apply (simp add: release_partitions_spec_def rows_affected_zero delete_where_def rows_affected_def)
  apply (rule store_operation_autocommit, simp add: release_partitions_spec_def Let_def)
  done

section \<open>What an acquisition does\<close>

definition lease_of :: "db \<Rightarrow> uuid \<Rightarrow> partition_lease_row option" where
  "lease_of d w = fetch_optional (\<lambda>l. l_workspace_id l = w) (partition_leases d)"

text \<open>
  A table that is written by key: the lookup law of an upsert.  The lease table obeys it for the
  rows the conflict clause lets through.
\<close>

locale keyed_upsert =
  fixes key :: "'r \<Rightarrow> 'k"
    and get :: "'t \<Rightarrow> 'k \<Rightarrow> 'r option"
    and admits :: "'r \<Rightarrow> 't \<Rightarrow> bool"
    and put :: "'r \<Rightarrow> 't \<Rightarrow> 'e + ('t \<times> bool)"
    and put_all :: "'r list \<Rightarrow> 't \<Rightarrow> 'e + ('t \<times> 'k list)"
  assumes put_admitted: "admits r t \<Longrightarrow>
      \<exists>t'. put r t = Inr (t', True) \<and> (\<forall>k. get t' k = (if k = key r then Some r else get t k))
         \<and> (\<forall>x. key x \<noteq> key r \<longrightarrow> admits x t' = admits x t)"
    and put_all_Nil: "put_all [] t = Inr (t, [])"
    and put_all_Cons: "put r t = Inr (t', True) \<Longrightarrow>
      put_all (r # rs) t = map_ok (\<lambda>(t'', ks). (t'', key r # ks)) (put_all rs t')"
begin

lemma put_all_admitted:
  assumes "distinct (map key rs)" "\<forall>r\<in>set rs. admits r t"
  shows "\<exists>t'. put_all rs t = Inr (t', map key rs)
    \<and> (\<forall>k. get t' k = (case find (\<lambda>r. key r = k) rs of Some r \<Rightarrow> Some r | None \<Rightarrow> get t k))"
  using assms
proof (induction rs arbitrary: t)
  case Nil
  then show ?case by (simp add: put_all_Nil)
next
  case (Cons r rs)
  obtain t1 where t1: "put r t = Inr (t1, True)"
    "\<forall>k. get t1 k = (if k = key r then Some r else get t k)"
    "\<forall>x. key x \<noteq> key r \<longrightarrow> admits x t1 = admits x t"
    using put_admitted [of r t] Cons.prems by auto
  have "\<forall>x\<in>set rs. admits x t1"
    using t1(3) Cons.prems by (metis distinct.simps(2) image_eqI list.set_intros(2) list.set_map list.simps(9))
  then obtain t' where t': "put_all rs t1 = Inr (t', map key rs)"
    "\<forall>k. get t' k = (case find (\<lambda>r. key r = k) rs of Some r \<Rightarrow> Some r | None \<Rightarrow> get t1 k)"
    using Cons.IH [of t1] Cons.prems by auto
  have "get t' k = (case find (\<lambda>r. key r = k) (r # rs) of Some r \<Rightarrow> Some r | None \<Rightarrow> get t k)" for k
  proof (cases "key r = k")
    case True
    then have "find (\<lambda>r. key r = k) rs = None"
      using Cons.prems(1) by (simp add: find_None_iff) (metis image_eqI)
    with True t'(2) t1(2) show ?thesis by simp
  next
    case False
    with t'(2) t1(2) show ?thesis by (auto split: option.splits)
  qed
  with t'(1) put_all_Cons [OF t1(1)] show ?case by simp
qed

end

definition lease_admitted :: "partition_lease_row \<Rightarrow> db \<Rightarrow> bool" where
  "lease_admitted r d \<longleftrightarrow>
     partition_lease_checks r \<and> workspace_exists d (l_workspace_id r)
     \<and> (case lease_of d (l_workspace_id r) of None \<Rightarrow> True
        | Some l \<Rightarrow> l_leased_until l \<le> l_leased_at r \<or> l_lease_owner l = l_lease_owner r)"

lemma fetch_update_key:
  "(\<And>l. k (f l) = k l) \<Longrightarrow> fetch_optional (\<lambda>l. k l = w) (update_where (\<lambda>l. k l = v) f ls)
     = (if w = v then map_option f (fetch_optional (\<lambda>l. k l = w) ls)
        else fetch_optional (\<lambda>l. k l = w) ls)"
  by (induction ls) (auto simp: fetch_optional_def update_where_def)

lemma upsert_admitted:
  assumes "lease_admitted r d"
  shows "\<exists>d'. upsert_partition_lease r d = Inr (d', True)
    \<and> (\<forall>w. lease_of d' w = (if w = l_workspace_id r then Some r else lease_of d w))
    \<and> (\<forall>x. l_workspace_id x \<noteq> l_workspace_id r \<longrightarrow> lease_admitted x d' = lease_admitted x d)"
proof (cases "lease_of d (l_workspace_id r)")
  case None
  then have "upsert_partition_lease r d = Inr (d\<lparr>partition_leases := partition_leases d @ [r]\<rparr>, True)"
    using assms by (simp add: upsert_partition_lease_def lease_admitted_def lease_of_def)
  moreover have "lease_of (d\<lparr>partition_leases := partition_leases d @ [r]\<rparr>) w
      = (if w = l_workspace_id r then Some r else lease_of d w)" for w
    using None by (auto simp: lease_of_def fetch_optional_append split: option.splits)
  ultimately show ?thesis by (auto simp: lease_admitted_def exists_defs)
next
  case (Some l)
  let ?f = "\<lambda>l. l\<lparr>l_shard_bucket := l_shard_bucket r, l_lease_owner := l_lease_owner r,
       l_leased_at := l_leased_at r, l_leased_until := l_leased_until r, l_updated_at := l_updated_at r\<rparr>"
  let ?d = "d\<lparr>partition_leases := update_where (\<lambda>l. l_workspace_id l = l_workspace_id r) ?f
      (partition_leases d)\<rparr>"
  have up: "upsert_partition_lease r d = Inr (?d, True)"
    using assms Some by (simp add: upsert_partition_lease_def lease_admitted_def lease_of_def)
  have "l_workspace_id l = l_workspace_id r"
    using Some by (auto simp: lease_of_def dest: fetch_optional_SomeD)
  then have "?f l = r" by simp
  then have get: "lease_of ?d w = (if w = l_workspace_id r then Some r else lease_of d w)" for w
    using Some by (simp add: lease_of_def fetch_update_key)
  have "lease_admitted x ?d = lease_admitted x d" if "l_workspace_id x \<noteq> l_workspace_id r" for x
    using that unfolding lease_admitted_def get by (simp add: exists_defs)
  with up get show ?thesis by blast
qed

interpretation lease_table: keyed_upsert l_workspace_id lease_of lease_admitted
  upsert_partition_lease upsert_partition_leases
proof unfold_locales
  show "lease_admitted r t \<Longrightarrow> \<exists>t'. upsert_partition_lease r t = Inr (t', True)
      \<and> (\<forall>k. lease_of t' k = (if k = l_workspace_id r then Some r else lease_of t k))
      \<and> (\<forall>x. l_workspace_id x \<noteq> l_workspace_id r \<longrightarrow> lease_admitted x t' = lease_admitted x t)" for r t
    by (rule upsert_admitted)
qed simp_all

text \<open>The workspaces an acquisition looks at: the first \<open>limit\<close> of its window.\<close>

definition partition_window :: "int \<Rightarrow> shard_bucket_range \<Rightarrow> db \<Rightarrow> workspace_row list" where
  "partition_window limit buckets d =
     take (nat limit) (sort_key (\<lambda>w. (w_shard_bucket w, w_id w))
       (filter (\<lambda>w. sbr_min buckets \<le> w_shard_bucket w \<and> w_shard_bucket w \<le> sbr_max buckets)
         (workspaces d)))"

definition partitions_taken :: "uuid \<Rightarrow> timestamp \<Rightarrow> int \<Rightarrow> shard_bucket_range \<Rightarrow> db \<Rightarrow> workspace_row list" where
  "partitions_taken owner_id now limit buckets d =
     filter (\<lambda>w. \<not> held_by_other owner_id now d (w_id w)) (partition_window limit buckets d)"

lemma partition_window_workspaces: "set (partition_window limit buckets d) \<subseteq> set (workspaces d)"
  by (auto simp: partition_window_def dest!: in_set_takeD)

lemma partitions_taken_sorted:
  "sorted (map (\<lambda>w. (w_shard_bucket w, w_id w)) (partitions_taken owner_id now limit buckets d))"
  unfolding partitions_taken_def partition_window_def
  by (intro sorted_filter) (simp add: take_map [symmetric] sorted_wrt_take)

lemma held_by_other_lease:
  assumes "unique_key l_workspace_id (partition_leases d)"
  shows "held_by_other owner_id now d w \<longleftrightarrow>
    (\<exists>l. lease_of d w = Some l \<and> now < l_leased_until l \<and> l_lease_owner l \<noteq> owner_id)"
proof
  assume "held_by_other owner_id now d w"
  then obtain l where l: "l \<in> set (partition_leases d)" "l_workspace_id l = w"
    "now < l_leased_until l" "l_lease_owner l \<noteq> owner_id"
    by (auto simp: held_by_other_def row_exists_iff)
  then have "lease_of d w = Some l"
    unfolding lease_of_def by (intro fetch_optional_unique [OF assms]) auto
  with l show "\<exists>l. lease_of d w = Some l \<and> now < l_leased_until l \<and> l_lease_owner l \<noteq> owner_id"
    by blast
qed (auto simp: held_by_other_def lease_of_def row_exists_iff dest: fetch_optional_SomeD)

lemma upsert_partition_leases_frame:
  "upsert_partition_leases rs d = Inr (d', ids) \<Longrightarrow> \<exists>ls. d' = d\<lparr>partition_leases := ls\<rparr>"
proof (induction rs arbitrary: d ids)
  case Nil
  then show ?case by (auto intro: exI [of _ "partition_leases d"])
next
  case (Cons r rs)
  then obtain d1 taken ids1 where u: "upsert_partition_lease r d = Inr (d1, taken)"
    "upsert_partition_leases rs d1 = Inr (d', ids1)"
    by (auto simp: result_simps split: prod.splits)
  have "\<exists>ls. d1 = d\<lparr>partition_leases := ls\<rparr>"
    using u(1) by (cases "taken") (auto simp: upsert_partition_lease_def
        intro: exI [of _ "partition_leases d"] split: if_splits option.splits)
  then obtain ls where "d1 = d\<lparr>partition_leases := ls\<rparr>" ..
  moreover obtain ls' where "d' = d1\<lparr>partition_leases := ls'\<rparr>" using Cons.IH [OF u(2)] ..
  ultimately have "d' = d\<lparr>partition_leases := ls'\<rparr>" by simp
  then show ?case ..
qed

lemma acquire_statement_Ok:
  assumes "schema_ok d" "0 \<le> limit"
  shows "\<exists>d'. acquire_statement owner_id now lease_until limit buckets d
      = Inr (d', map w_id (partitions_taken owner_id now limit buckets d))
    \<and> (\<exists>ls. d' = d\<lparr>partition_leases := ls\<rparr>)
    \<and> (\<forall>w. lease_of d' w =
         (case find (\<lambda>x. w_id x = w) (partitions_taken owner_id now limit buckets d) of
            None \<Rightarrow> lease_of d w
          | Some x \<Rightarrow> Some (partition_row_of owner_id now lease_until (w_id x, w_shard_bucket x))))"
proof -
  let ?taken = "partitions_taken owner_id now limit buckets d"
  let ?row = "\<lambda>x. partition_row_of owner_id now lease_until (w_id x, w_shard_bucket x)"
  have uw: "unique_key w_id (workspaces d)" and cw: "\<And>w. w \<in> set (workspaces d) \<Longrightarrow> workspace_checks w"
    and ul: "unique_key l_workspace_id (partition_leases d)"
    using assms(1) by (auto simp: schema_ok_def workspaces_ok_def partition_leases_ok_def)
  have sub: "set ?taken \<subseteq> set (workspaces d)"
    using partition_window_workspaces by (fastforce simp: partitions_taken_def)
  have keys: "map l_workspace_id (map ?row ?taken) = map w_id ?taken"
    by (simp add: partition_row_of_def)
  have "distinct (map w_id (sort_key k (filter P (workspaces d))))" for k :: "workspace_row \<Rightarrow> int \<times> uuid" and P
    using uw by (simp add: unique_key_def distinct_map inj_on_def)
  then have "distinct (map w_id ?taken)"
    unfolding partitions_taken_def partition_window_def
    by (intro distinct_map_filter) (simp add: take_map [symmetric] distinct_take)
  then have dist: "distinct (map l_workspace_id (map ?row ?taken))" unfolding keys .
  have adm: "\<forall>r\<in>set (map ?row ?taken). lease_admitted r d"
  proof
    fix r assume "r \<in> set (map ?row ?taken)"
    then obtain x where x: "x \<in> set ?taken" "r = ?row x" by auto
    have "\<not> held_by_other owner_id now d (w_id x)" using x(1) by (simp add: partitions_taken_def)
    moreover have "workspace_checks x" "workspace_exists d (w_id x)"
      using x(1) sub cw by (auto simp: exists_defs row_exists_iff)
    ultimately show "lease_admitted r d"
      using x(2) by (auto simp: lease_admitted_def partition_lease_checks_def workspace_checks_def
          partition_row_of_def held_by_other_lease [OF ul] split: option.splits)
  qed
  obtain d' where d': "upsert_partition_leases (map ?row ?taken) d = Inr (d', map w_id ?taken)"
    "\<forall>w. lease_of d' w = (case find (\<lambda>r. l_workspace_id r = w) (map ?row ?taken) of
        Some r \<Rightarrow> Some r | None \<Rightarrow> lease_of d w)"
    using lease_table.put_all_admitted [OF dist adm] unfolding keys by blast
  have fnd: "find (\<lambda>r. l_workspace_id r = w) (map ?row xs) = map_option ?row (find (\<lambda>x. w_id x = w) xs)" for w xs
    by (induction xs) (auto simp: partition_row_of_def)
  have "filter (\<lambda>w. \<not> held_by_other owner_id now d (fst w))
        (map (\<lambda>w. (w_id w, w_shard_bucket w)) (partition_window limit buckets d))
      = map (\<lambda>w. (w_id w, w_shard_bucket w)) ?taken"
    by (simp add: partitions_taken_def filter_map comp_def)
  moreover have "sort_key (\<lambda>w. (snd w, fst w)) (map (\<lambda>w. (w_id w, w_shard_bucket w)) ?taken)
      = map (\<lambda>w. (w_id w, w_shard_bucket w)) ?taken"
    using partitions_taken_sorted by (intro sort_key_id_if_sorted) (simp add: comp_def)
  ultimately have "acquire_statement owner_id now lease_until limit buckets d
      = upsert_partition_leases (map ?row ?taken) d"
    using assms(2)
    by (simp add: acquire_statement_def list_workspace_ids_for_partition_lease_def
        partition_window_def comp_def)
  then have run: "acquire_statement owner_id now lease_until limit buckets d = Inr (d', map w_id ?taken)"
    using d'(1) by simp
  have look: "\<forall>w. lease_of d' w = (case find (\<lambda>x. w_id x = w) ?taken of
      None \<Rightarrow> lease_of d w | Some x \<Rightarrow> Some (?row x))"
  proof
    fix w
    show "lease_of d' w = (case find (\<lambda>x. w_id x = w) ?taken of
      None \<Rightarrow> lease_of d w | Some x \<Rightarrow> Some (?row x))"
      using d'(2) by (cases "find (\<lambda>x. w_id x = w) ?taken") (simp_all add: fnd)
  qed
  show ?thesis
    using run look upsert_partition_leases_frame [OF d'(1)] by blast
qed

lemma update_partition_leases_schema:
  assumes "schema_ok d" "\<And>l. l \<in> set (partition_leases d) \<Longrightarrow> P l \<Longrightarrow>
      l_workspace_id (f l) = l_workspace_id l \<and> partition_lease_checks (f l)"
  shows "schema_ok (d\<lparr>partition_leases := update_where P f (partition_leases d)\<rparr>)" (is "schema_ok ?d")
proof -
  have "partition_leases_ok ?d"
    using assms unfolding schema_ok_def partition_leases_ok_def exists_defs
    by (auto simp: set_update_where intro!: unique_key_update_where)
  then show ?thesis
    using assms(1) unfolding schema_ok_def table_ok_defs exists_defs by simp
qed

lemma upsert_partition_lease_schema:
  assumes "schema_ok d" "upsert_partition_lease r d = Inr (d', taken)"
  shows "schema_ok d'"
proof (cases "lease_of d (l_workspace_id r)")
  case None
  then have d': "d' = d\<lparr>partition_leases := partition_leases d @ [r]\<rparr>" "partition_lease_checks r"
    "workspace_exists d (l_workspace_id r)"
    using assms(2) by (auto simp: upsert_partition_lease_def lease_of_def split: if_splits)
  have "\<not> row_exists (\<lambda>l. l_workspace_id l = l_workspace_id r) (partition_leases d)"
    using None by (simp add: lease_of_def fetch_optional_None_exists)
  then have "partition_leases_ok d'"
    using assms(1) d' unfolding schema_ok_def partition_leases_ok_def exists_defs
    by (auto intro!: unique_key_insert)
  then show ?thesis
    using assms(1) unfolding d'(1) schema_ok_def table_ok_defs exists_defs by simp
next
  case (Some l)
  then show ?thesis
    using assms
    by (auto simp: upsert_partition_lease_def lease_of_def partition_lease_checks_def
        split: if_splits intro!: update_partition_leases_schema)
qed

lemma upsert_partition_leases_schema:
  "schema_ok d \<Longrightarrow> upsert_partition_leases rs d = Inr (d', ids) \<Longrightarrow> schema_ok d'"
proof (induction rs arbitrary: d ids)
  case (Cons r rs)
  then obtain d1 taken ids1 where "upsert_partition_lease r d = Inr (d1, taken)"
    "upsert_partition_leases rs d1 = Inr (d', ids1)"
    by (auto simp: result_simps split: prod.splits)
  with Cons.IH [of d1 ids1] upsert_partition_lease_schema [OF Cons.prems(1)] show ?case by blast
qed simp

lemma acquire_spec_schema:
  "schema_ok d \<Longrightarrow> schema_ok (snd (acquire_partitions_spec owner_id now lease_until limit buckets d))"
  by (auto simp: acquire_partitions_spec_def acquire_statement_def result_simps
      intro: upsert_partition_leases_schema split: sum.splits)

lemma renew_spec_schema:
  assumes "schema_ok d"
  shows "schema_ok (snd (renew_partitions_spec owner_id ids now new_lease_until d))"
  unfolding renew_partitions_spec_def snd_conv
  by (rule update_partition_leases_schema [OF assms])
     (use assms in \<open>simp add: schema_ok_def partition_leases_ok_def partition_lease_checks_def\<close>)

lemma release_spec_schema:
  assumes "schema_ok d"
  shows "schema_ok (snd (release_partitions_spec owner_id ids d))"
proof -
  have "partition_leases_ok (snd (release_partitions_spec owner_id ids d))"
    using assms unfolding schema_ok_def partition_leases_ok_def exists_defs release_partitions_spec_def
    by (auto simp: Let_def set_delete_where intro: unique_key_delete_where)
  then show ?thesis
    using assms unfolding schema_ok_def table_ok_defs exists_defs release_partitions_spec_def
    by (simp add: Let_def)
qed

lemma scan_limit_small: "0 \<le> limit \<Longrightarrow> limit < 2 ^ 31 \<Longrightarrow> scan_limit_of limit = limit"
  by (simp add: scan_limit_of_def in_i32_def Let_def min_def)

section \<open>Guarantees\<close>

text \<open>
  An acquisition takes exactly the workspaces among the first \<open>limit\<close> of its window, in bucket
  order, that no other worker holds with an unexpired lease; each of them is then leased to the
  caller until the requested time, every other lease is as before, and no other table changes.
\<close>

theorem acquire_partitions_exact:
  assumes "faults s = []" "schema_ok (committed s)" "0 \<le> limit" "limit < 2 ^ 31"
  shows "let (r, s') = acquire_partitions owner_id now lease_until limit buckets s;
             taken = partitions_taken owner_id now limit buckets (committed s)
         in r = Ok (map w_id taken)
            \<and> (\<forall>w. lease_of (committed s') w =
                 (case find (\<lambda>x. w_id x = w) taken of
                    None \<Rightarrow> lease_of (committed s) w
                  | Some x \<Rightarrow> Some (partition_row_of owner_id now lease_until (w_id x, w_shard_bucket x))))
            \<and> (\<exists>ls. committed s' = (committed s)\<lparr>partition_leases := ls\<rparr>)"
  using acquire_op.fault_free [OF assms(1), of owner_id now lease_until limit buckets]
    acquire_statement_Ok [OF assms(2,3), of owner_id now lease_until buckets]
  by (auto simp: acquire_partitions_spec_def scan_limit_small [OF assms(3,4)] case_prod_beta Let_def)

definition two_workspaces :: db where
  "two_workspaces = empty_db\<lparr>
     workspaces := [\<lparr>w_id = 1, w_name = ''a'', w_shard_bucket = 1, w_row_version = 0,
                     w_created_at = 0, w_updated_at = 0\<rparr>,
                    \<lparr>w_id = 2, w_name = ''b'', w_shard_bucket = 2, w_row_version = 0,
                     w_created_at = 0, w_updated_at = 0\<rparr>],
     partition_leases := [\<lparr>l_workspace_id = 1, l_shard_bucket = 1, l_lease_owner = 8,
                     l_leased_at = 10, l_leased_until = 100, l_updated_at = 10\<rparr>]\<rparr>"

lemma two_workspaces_ok: "schema_ok two_workspaces"
  by (simp add: schema_ok_def table_ok_defs two_workspaces_def empty_db_def unique_key_def
      workspace_checks_def text_between_def continuation_def byte_def exists_defs row_exists_def
      partition_lease_checks_def)

lemma two_workspaces_window:
  "partition_window 1 ShardBucketRange_full two_workspaces = [workspaces two_workspaces ! 0]"
  "partition_window 2 ShardBucketRange_full two_workspaces = workspaces two_workspaces"
  by (simp_all add: partition_window_def two_workspaces_def empty_db_def ShardBucketRange_full_def
      MAX_BUCKET_def)

theorem acquire_partitions_exact_witness:
  "fst (acquire_partitions 7 50 90 2 ShardBucketRange_full (demo_session [] two_workspaces)) = Ok [2]"
proof -
  have "partitions_taken 7 50 2 ShardBucketRange_full two_workspaces = [workspaces two_workspaces ! 1]"
    by (simp add: partitions_taken_def two_workspaces_window)
       (simp add: held_by_other_def row_exists_def two_workspaces_def empty_db_def)
  then show ?thesis
    using acquire_partitions_exact [of "demo_session [] two_workspaces" 2 7 50 90 ShardBucketRange_full]
    by (simp add: two_workspaces_ok case_prod_beta Let_def) (simp add: two_workspaces_def empty_db_def)
qed

text \<open>
  C34: a workspace one worker acquired is not acquired by another worker while the lease runs,
  whatever window, limit and lease time the other asks for.
\<close>

theorem partition_lease_exclusive:
  assumes "faults s = []" "schema_ok (committed s)" "0 \<le> limit" "limit < 2 ^ 31"
    and "acquire_partitions owner_id now lease_until limit buckets s = (Ok ids, s')"
    and "0 \<le> limit'" "limit' < 2 ^ 31"
    and "acquire_partitions other now' lease_until' limit' buckets' s' = (Ok ids', s'')"
    and "other \<noteq> owner_id" "now' < lease_until"
  shows "set ids \<inter> set ids' = {}"
proof -
  let ?taken = "partitions_taken owner_id now limit buckets (committed s)"
  obtain d' where d': "acquire_statement owner_id now lease_until limit buckets (committed s)
      = Inr (d', map w_id ?taken)"
    and look: "\<forall>w. lease_of d' w = (case find (\<lambda>x. w_id x = w) ?taken of
         None \<Rightarrow> lease_of (committed s) w
       | Some x \<Rightarrow> Some (partition_row_of owner_id now lease_until (w_id x, w_shard_bucket x)))"
    using acquire_statement_Ok [OF assms(2,3), of owner_id now lease_until buckets] by blast
  have one: "ids = map w_id ?taken" "committed s' = d'" "faults s' = []"
    using acquire_op.fault_free [OF assms(1), of owner_id now lease_until limit buckets] assms(5) d'
    by (simp_all add: acquire_partitions_spec_def scan_limit_small [OF assms(3,4)])
  have ok: "schema_ok d'"
    using acquire_spec_schema [OF assms(2), of owner_id now lease_until limit buckets] d'
    by (simp add: acquire_partitions_spec_def scan_limit_small [OF assms(3,4)])
  have two: "ids' = map w_id (partitions_taken other now' limit' buckets' d')"
    using acquire_op.fault_free [OF one(3), of other now' lease_until' limit' buckets'] assms(8)
      acquire_statement_Ok [OF ok assms(6), of other now' lease_until' buckets']
    by (auto simp: acquire_partitions_spec_def scan_limit_small [OF assms(6,7)] one(2))
  have "held_by_other other now' d' w" if "w \<in> set ids" for w
  proof -
    obtain y where "y \<in> set ?taken" "w_id y = w" using \<open>w \<in> set ids\<close> one(1) by auto
    then have "find (\<lambda>x. w_id x = w) ?taken \<noteq> None" by (auto simp: find_None_iff)
    then obtain x where "find (\<lambda>x. w_id x = w) ?taken = Some x" by blast
    then have "lease_of d' w = Some (partition_row_of owner_id now lease_until (w_id x, w_shard_bucket x))"
      using look by simp
    then show ?thesis
      using ok assms(9,10)
      by (subst held_by_other_lease) (auto simp: schema_ok_def partition_leases_ok_def partition_row_of_def)
  qed
  then show ?thesis
    unfolding two by (auto simp: partitions_taken_def)
qed

theorem partition_lease_exclusive_witness:
  "\<exists>s' s''. acquire_partitions 7 50 90 2 ShardBucketRange_full (demo_session [] two_workspaces) = (Ok [2], s')
     \<and> acquire_partitions 6 60 99 2 ShardBucketRange_full s' = (Ok [], s'') \<and> set [2::uuid] \<inter> set [] = {}"
proof -
  let ?s = "demo_session [] two_workspaces"
  have t: "partitions_taken 7 50 2 ShardBucketRange_full two_workspaces = [workspaces two_workspaces ! 1]"
    by (simp add: partitions_taken_def two_workspaces_window)
       (simp add: held_by_other_def row_exists_def two_workspaces_def empty_db_def)
  obtain s' where run: "acquire_partitions 7 50 90 2 ShardBucketRange_full ?s = (Ok [2], s')"
    and c: "committed s' = two_workspaces\<lparr>partition_leases := partition_leases two_workspaces
        @ [partition_row_of 7 50 90 (2, 2)]\<rparr>" "faults s' = []"
    by (simp add: acquire_partitions_def pg_autocommit_def server_does_run acquire_statement_def
        scan_limit_small list_workspace_ids_for_partition_lease_def demo_session_def two_workspaces_def
        empty_db_def ShardBucketRange_full_def MAX_BUCKET_def held_by_other_def row_exists_def
        upsert_partition_lease_def partition_row_of_def partition_lease_checks_def fetch_optional_def
        workspace_exists_def)
  obtain s'' where run': "acquire_partitions 6 60 99 2 ShardBucketRange_full s' = (Ok [], s'')"
    by (simp add: acquire_partitions_def pg_autocommit_def server_does_run c acquire_statement_def
        scan_limit_small list_workspace_ids_for_partition_lease_def two_workspaces_def
        empty_db_def ShardBucketRange_full_def MAX_BUCKET_def held_by_other_def row_exists_def
        partition_row_of_def)
  have "set [2] \<inter> set ([] :: uuid list) = {}"
    by (rule partition_lease_exclusive [OF _ _ _ _ run _ _ run']) (simp_all add: two_workspaces_ok)
  with run run' show ?thesis by blast
qed

lemma sorted_before_index:
  assumes "sorted (map k xs)" "i < length xs"
  shows "length (filter (\<lambda>x. k x < k (xs ! i)) xs) \<le> i"
proof -
  have "k (xs ! i) \<le> k x" if x: "x \<in> set (drop i xs)" for x
  proof -
    obtain j where "j < length xs - i" "x = xs ! (i + j)"
      using x by (auto simp: in_set_conv_nth)
    then show ?thesis using assms sorted_nth_mono [of "map k xs" i "i + j"] by simp
  qed
  then have "filter (\<lambda>x. k x < k (xs ! i)) (drop i xs) = []"
    by (auto simp: filter_empty_conv not_less)
  then have "filter (\<lambda>x. k x < k (xs ! i)) xs = filter (\<lambda>x. k x < k (xs ! i)) (take i xs)"
    by (metis append_Nil2 append_take_drop_id filter_append)
  then show ?thesis by (metis length_filter_le length_take min.bounded_iff order.trans)
qed

text \<open>An acquisition sees no workspace that has \<open>limit\<close> others before it in its bucket range.\<close>

lemma acquire_within_window:
  assumes "fst (acquire_partitions owner_id now lease_until limit buckets s) = Ok ids"
    and "schema_ok (committed s)" "0 \<le> limit" "limit < 2 ^ 31" "w \<in> set (workspaces (committed s))"
    and "nat limit \<le> length (filter
           (\<lambda>x. sbr_min buckets \<le> w_shard_bucket x \<and> w_shard_bucket x \<le> sbr_max buckets
              \<and> (w_shard_bucket x, w_id x) < (w_shard_bucket w, w_id w)) (workspaces (committed s)))"
  shows "w_id w \<notin> set ids"
proof
  let ?d = "committed s" and ?k = "\<lambda>w. (w_shard_bucket w, w_id w)"
  let ?in = "filter (\<lambda>w. sbr_min buckets \<le> w_shard_bucket w \<and> w_shard_bucket w \<le> sbr_max buckets) (workspaces ?d)"
  assume "w_id w \<in> set ids"
  moreover have "acquire_partitions_spec owner_id now lease_until limit buckets ?d =
      (Ok ids, committed (snd (acquire_partitions owner_id now lease_until limit buckets s)))"
    by (rule acquire_op.returned [OF assms(1)]) simp
  ultimately have "w_id w \<in> w_id ` set (partition_window limit buckets ?d)"
    using acquire_statement_Ok [OF assms(2,3), of owner_id now lease_until buckets]
    by (auto simp: acquire_partitions_spec_def scan_limit_small [OF assms(3,4)] partitions_taken_def)
  then obtain x where x: "x \<in> set (partition_window limit buckets ?d)" "w_id x = w_id w" by auto
  have "distinct (map w_id (workspaces ?d))"
    using assms(2) by (simp add: schema_ok_def workspaces_ok_def unique_key_def)
  then have "inj_on w_id (set (workspaces ?d))" by (simp add: distinct_map)
  then have "x = w" using x partition_window_workspaces assms(5) by (meson inj_onD subsetD)
  then obtain i where i: "i < nat limit" "i < length (sort_key ?k ?in)" "sort_key ?k ?in ! i = w"
    using x(1) by (auto simp: partition_window_def in_set_conv_nth)
  have "mset (filter (\<lambda>x. ?k x < ?k w) (sort_key ?k ?in)) = mset (filter (\<lambda>x. ?k x < ?k w) ?in)"
    by (simp only: mset_filter mset_sort)
  then have "length (filter (\<lambda>x. ?k x < ?k w) ?in) = length (filter (\<lambda>x. ?k x < ?k w) (sort_key ?k ?in))"
    by (rule mset_eq_length [symmetric])
  also have "\<dots> \<le> i" using sorted_before_index [OF sorted_sort_key i(2)] i(3) by simp
  finally have "length (filter (\<lambda>x. ?k x < ?k w) ?in) < nat limit" using i(1) by linarith
  moreover have "filter (\<lambda>x. ?k x < ?k w) ?in = filter
      (\<lambda>x. sbr_min buckets \<le> w_shard_bucket x \<and> w_shard_bucket x \<le> sbr_max buckets \<and> ?k x < ?k w) (workspaces ?d)"
    by (rule trans [OF filter_filter]) (rule filter_cong, auto)
  ultimately show False using assms(6) by simp
qed

text \<open>
  A worker whose first \<open>limit\<close> workspaces are held by others gets nothing and writes nothing,
  however many free workspaces its window has beyond them: the limit is applied before the leased
  ones are set aside.
\<close>

theorem acquire_starves_behind_held:
  assumes "faults s = []" "schema_ok (committed s)" "0 \<le> limit" "limit < 2 ^ 31"
    and "\<forall>w\<in>set (partition_window limit buckets (committed s)).
           held_by_other owner_id now (committed s) (w_id w)"
  shows "fst (acquire_partitions owner_id now lease_until limit buckets s) = Ok []"
proof -
  have "partitions_taken owner_id now limit buckets (committed s) = []"
    using assms(5) by (simp add: partitions_taken_def filter_empty_conv)
  then show ?thesis
    using acquire_op.fault_free [OF assms(1), of owner_id now lease_until limit buckets]
      acquire_statement_Ok [OF assms(2,3), of owner_id now lease_until buckets]
    by (auto simp: acquire_partitions_spec_def scan_limit_small [OF assms(3,4)])
qed

theorem acquire_starves_behind_held_witness:
  "fst (acquire_partitions 7 50 90 1 ShardBucketRange_full (demo_session [] two_workspaces)) = Ok []
   \<and> lease_of two_workspaces 2 = None"
  using acquire_starves_behind_held [of "demo_session [] two_workspaces" 1 ShardBucketRange_full 7 50 90]
  by (simp add: two_workspaces_ok two_workspaces_window)
     (simp add: two_workspaces_def empty_db_def held_by_other_def row_exists_def lease_of_def
       fetch_optional_def)

end
