(* ===== verification/Store_System.thy ===== *)
theory Store_System
  imports Outbox_Theorems Tenant_Store Partition_Store
begin

text \<open>
  The store as a whole: \<open>PgStore\<close> with its calls, histories of calls by any clients over faulty
  connections, and what holds over every history: the schema, the coherence of leases, the attempt
  budget, the audit trail, tenant isolation.
\<close>

section \<open>Calls and histories\<close>

datatype store_call =
    CreateIssueCall create_draws auth_context create_issue_command issue_created_event
  | GetIssueCall auth_context uuid
  | CreateWorkspaceCall timestamp auth_context workspace_write_input
  | GetWorkspaceCall auth_context uuid
  | CreateProjectCall timestamp auth_context project_write_input
  | GetProjectCall auth_context uuid
  | LeaseBatchCall "uuid set" uuid auth_context timestamp int int
  | MarkDeliveredCall auth_context uuid uuid uuid timestamp
  | MarkFailedCall auth_context uuid failure_context
  | CleanupOutboxCall auth_context timestamp timestamp
  | CleanupIdempotencyCall auth_context timestamp
  | AcquirePartitionsCall uuid timestamp timestamp int shard_bucket_range
  | RenewPartitionsCall uuid "uuid list" timestamp timestamp
  | ReleasePartitionsCall uuid "uuid list"

text \<open>The session a call leaves behind; its result goes to its caller.\<close>

fun perform :: "leaf \<Rightarrow> store_call \<Rightarrow> session \<Rightarrow> session" where
  "perform L (CreateIssueCall draws auth c e) s = snd (create_issue_transactional L draws auth c e s)"
| "perform L (GetIssueCall auth i) s = snd (get_issue auth i s)"
| "perform L (CreateWorkspaceCall t auth input) s = snd (create_workspace t auth input s)"
| "perform L (GetWorkspaceCall auth i) s = snd (get_workspace auth i s)"
| "perform L (CreateProjectCall t auth input) s = snd (create_project t auth input s)"
| "perform L (GetProjectCall auth i) s = snd (get_project auth i s)"
| "perform L (LeaseBatchCall locked token auth now lease_for n) s =
     snd (lease_outbox_batch locked token auth now lease_for n s)"
| "perform L (MarkDeliveredCall auth i token owner now) s =
     snd (mark_outbox_delivered auth i token owner now s)"
| "perform L (MarkFailedCall auth i f) s = snd (mark_outbox_failed auth i f s)"
| "perform L (CleanupOutboxCall auth t u) s = snd (cleanup_outbox auth t u s)"
| "perform L (CleanupIdempotencyCall auth t) s = snd (cleanup_idempotency auth t s)"
| "perform L (AcquirePartitionsCall w now until n b) s = snd (acquire_partitions w now until n b s)"
| "perform L (RenewPartitionsCall w ids now until) s = snd (renew_partitions w ids now until s)"
| "perform L (ReleasePartitionsCall w ids) s = snd (release_partitions w ids s)"

definition perform_all :: "leaf \<Rightarrow> store_call list \<Rightarrow> session \<Rightarrow> session" where
  "perform_all L calls s = foldl (\<lambda>s c. perform L c s) s calls"

text \<open>The effect of a call on the committed database when it takes effect.\<close>

fun call_effect :: "leaf \<Rightarrow> store_call \<Rightarrow> db \<Rightarrow> db" where
  "call_effect L (CreateIssueCall draws auth c e) d = snd (create_issue_spec L draws auth c e d)"
| "call_effect L (CreateWorkspaceCall t auth input) d = snd (create_workspace_spec t auth input d)"
| "call_effect L (CreateProjectCall t auth input) d = snd (create_project_spec t auth input d)"
| "call_effect L (LeaseBatchCall locked token auth now lease_for n) d =
     snd (lease_outbox_batch_spec locked token auth now lease_for n d)"
| "call_effect L (MarkDeliveredCall auth i token owner now) d =
     snd (mark_outbox_delivered_spec auth i token owner now d)"
| "call_effect L (MarkFailedCall auth i f) d = snd (mark_outbox_failed_spec auth i f d)"
| "call_effect L (CleanupOutboxCall auth t u) d = snd (cleanup_outbox_spec auth t u d)"
| "call_effect L (CleanupIdempotencyCall auth t) d = snd (cleanup_idempotency_spec auth t d)"
| "call_effect L (AcquirePartitionsCall w now until n b) d = snd (acquire_partitions_spec w now until n b d)"
| "call_effect L (RenewPartitionsCall w ids now until) d = snd (renew_partitions_spec w ids now until d)"
| "call_effect L (ReleasePartitionsCall w ids) d = snd (release_partitions_spec w ids d)"
| "call_effect L _ d = d"

lemma perform_outcome:
  "committed (perform L c s) = call_effect L c (committed s) \<or> committed (perform L c s) = committed s"
proof (cases c)
  case (CreateIssueCall draws auth c e)
  then show ?thesis using create_issue_op.all_or_nothing [of L draws auth c e s] by simp
next
  case (GetIssueCall auth i)
  then show ?thesis using get_issue_op.all_or_nothing [of auth i s] by (simp add: get_issue_spec_def)
next
  case (CreateWorkspaceCall t auth input)
  then show ?thesis using create_workspace_op.all_or_nothing [of t auth input s] by simp
next
  case (GetWorkspaceCall auth i)
  then show ?thesis using get_workspace_op.all_or_nothing [of auth i s] by (simp add: get_workspace_spec_def)
next
  case (CreateProjectCall t auth input)
  then show ?thesis using create_project_op.all_or_nothing [of t auth input s] by simp
next
  case (GetProjectCall auth i)
  then show ?thesis using get_project_op.all_or_nothing [of auth i s] by (simp add: get_project_spec_def)
next
  case (LeaseBatchCall locked token auth now lease_for n)
  then show ?thesis using lease_op.all_or_nothing [of locked token auth now lease_for n s] by simp
next
  case (MarkDeliveredCall auth i token owner now)
  then show ?thesis using delivered_op.all_or_nothing [of auth i token owner now s] by simp
next
  case (MarkFailedCall auth i f)
  then show ?thesis using failed_op.all_or_nothing [of auth i f s] by simp
next
  case (CleanupOutboxCall auth t u)
  then show ?thesis using cleanup_outbox_op.all_or_nothing [of auth t u s] by simp
next
  case (CleanupIdempotencyCall auth t)
  then show ?thesis using cleanup_idempotency_op.all_or_nothing [of auth t s] by simp
next
  case (AcquirePartitionsCall w now until n b)
  then show ?thesis using acquire_op.all_or_nothing [of w now until n b s] by simp
next
  case (RenewPartitionsCall w ids now until)
  then show ?thesis using renew_op.all_or_nothing [of w ids now until s] by simp
next
  case (ReleasePartitionsCall w ids)
  then show ?thesis using release_op.all_or_nothing [of w ids s] by simp
qed

text \<open>An invariant of every effect holds over every history.\<close>

locale store_invariant =
  fixes L :: leaf
    and allowed :: "store_call \<Rightarrow> bool"
    and I :: "db \<Rightarrow> bool"
  assumes preserved: "allowed c \<Longrightarrow> I d \<Longrightarrow> I (call_effect L c d)"
begin

lemma after_call: "allowed c \<Longrightarrow> I (committed s) \<Longrightarrow> I (committed (perform L c s))"
  using perform_outcome [of L c s] preserved by metis

lemma after_history:
  "list_all allowed calls \<Longrightarrow> I (committed s) \<Longrightarrow> I (committed (perform_all L calls s))"
  by (induction calls arbitrary: s) (simp_all add: perform_all_def after_call)

end

section \<open>The schema\<close>

lemma update_outbox_schema:
  assumes "schema_ok d" "update_outbox w P f d = Inr (d', n)"
    and "\<And>r. o_id (f r) = o_id r \<and> o_event_id (f r) = o_event_id r \<and> o_workspace_id (f r) = o_workspace_id r"
  shows "schema_ok d'"
proof -
  let ?Q = "\<lambda>r. tenant_visible w (o_workspace_id r) \<and> P r"
  have d': "d' = d\<lparr>outbox := update_where ?Q f (outbox d)\<rparr>"
    "\<forall>r\<in>set (outbox d). ?Q r \<longrightarrow> outbox_checks (f r)"
    using assms(2) by (auto simp: update_outbox_def Let_def list_ex_iff split: if_splits)
  then have "outbox_ok d'"
    using assms(1,3) unfolding schema_ok_def outbox_ok_def outbox_row_ok_def exists_defs
    by (auto simp: set_update_where intro!: unique_key_update_where)
  then show ?thesis
    using assms(1) unfolding d'(1) schema_ok_def table_ok_defs exists_defs by simp
qed

lemma row_identities:
  "o_id (leased_row now u t w r) = o_id r" "o_event_id (leased_row now u t w r) = o_event_id r"
  "o_workspace_id (leased_row now u t w r) = o_workspace_id r" "o_payload (leased_row now u t w r) = o_payload r"
  "o_id (delivered_row now r) = o_id r" "o_event_id (delivered_row now r) = o_event_id r"
  "o_workspace_id (delivered_row now r) = o_workspace_id r" "o_payload (delivered_row now r) = o_payload r"
  "o_id (failure_row f l r) = o_id r" "o_event_id (failure_row f l r) = o_event_id r"
  "o_workspace_id (failure_row f l r) = o_workspace_id r" "o_payload (failure_row f l r) = o_payload r"
  "o_event_type (leased_row now u t w r) = o_event_type r"
  "o_event_type (delivered_row now r) = o_event_type r" "o_event_type (failure_row f l r) = o_event_type r"
  by (simp_all add: leased_row_def delivered_row_def failure_row_def dead_letter_row_def failed_row_def
      Let_def)

lemma settle_schema:
  assumes "schema_ok d"
    and "\<And>l r. o_id (f l r) = o_id r \<and> o_event_id (f l r) = o_event_id r
            \<and> o_workspace_id (f l r) = o_workspace_id r"
  shows "schema_ok (snd (settle_spec auth i token owner now f d))"
proof (cases "settle auth i token owner now f d")
  case (Inl e)
  with assms(1) show ?thesis by (simp add: settle_spec_def)
next
  case (Inr d')
  then obtain l p where "update_outbox (Some (auth_workspace_id auth))
      (lease_held (auth_workspace_id auth) i token owner now) (f l) d = Inr p" "fst p = d'"
    unfolding settle_def Let_def result_simps by blast
  with update_outbox_schema [OF assms(1) _ assms(2)] Inr show ?thesis
    by (cases p) (auto simp: settle_spec_def)
qed

lemma lease_statement_update:
  "lease_statement locked ws token owner now until n w d = Inr (d', ms) \<Longrightarrow>
     \<exists>P m. update_outbox w P (leased_row now until token owner) d = Inr (d', m)"
  by (auto simp: lease_statement_def Let_def result_simps split: if_splits)

lemma lease_schema:
  assumes "schema_ok d"
  shows "schema_ok (snd (lease_outbox_batch_spec locked token auth now lease_for n d))"
  using assms update_outbox_schema [OF assms] row_identities(1-3)
  by (auto simp: lease_outbox_batch_spec_def split: sum.splits dest!: lease_statement_update)

lemma cleanup_outbox_schema:
  assumes "schema_ok d"
  shows "schema_ok (snd (cleanup_outbox_spec auth t u d))"
proof -
  have "outbox_ok (snd (cleanup_outbox_spec auth t u d))"
    using assms unfolding schema_ok_def outbox_ok_def outbox_row_ok_def exists_defs cleanup_outbox_spec_def
    by (auto simp: Let_def set_delete_where intro: unique_key_delete_where)
  then show ?thesis
    using assms unfolding schema_ok_def table_ok_defs exists_defs cleanup_outbox_spec_def
    by (simp add: Let_def)
qed

lemma cleanup_idempotency_schema:
  assumes "schema_ok d"
  shows "schema_ok (snd (cleanup_idempotency_spec auth t d))"
proof -
  have "idempotency_ok (snd (cleanup_idempotency_spec auth t d))"
    using assms unfolding schema_ok_def idempotency_ok_def exists_defs cleanup_idempotency_spec_def
    by (auto simp: Let_def set_delete_where intro: unique_key_delete_where)
  then show ?thesis
    using assms unfolding schema_ok_def table_ok_defs exists_defs cleanup_idempotency_spec_def
    by (simp add: Let_def)
qed

lemma tenant_writes_schema:
  assumes "schema_ok d"
  shows "schema_ok (snd (create_workspace_spec t auth wi d))" "schema_ok (snd (create_project_spec t auth pi d))"
  using assms
  by (auto simp: create_workspace_spec_def create_project_spec_def split: sum.splits
      intro: insert_workspace_row_schema insert_project_row_schema)

lemma call_effect_schema: "schema_ok d \<Longrightarrow> schema_ok (call_effect L c d)"
  by (cases c) (simp_all add: create_issue_spec_schema tenant_writes_schema lease_schema settle_schema
      mark_outbox_delivered_spec_def mark_outbox_failed_spec_def row_identities cleanup_outbox_schema
      cleanup_idempotency_schema acquire_spec_schema renew_spec_schema release_spec_schema)

interpretation schema: store_invariant L "\<lambda>_. True" schema_ok for L
  by unfold_locales (rule call_effect_schema)

text \<open>
  No history of calls, in any order, by any clients, over any connection faults, breaks the
  schema: keys stay unique, references resolve, checks hold.
\<close>

theorem schema_holds_over_histories:
  assumes "schema_ok (committed s)"
  shows "schema_ok (committed (perform_all L calls s))"
  using schema.after_history [of calls s L] assms by (simp add: list_all_iff)

theorem schema_holds_over_histories_witness:
  "schema_ok (committed (perform_all bits_leaf
      [CreateWorkspaceCall 70 \<lparr>auth_workspace_id = 5, auth_actor_id = 9\<rparr> \<lparr>wi_workspace_id = 5, wi_name = ''ops''\<rparr>,
       CreateIssueCall demo_draws demo_auth demo_command demo_event]
      (demo_session [Answered, RequestLost] empty_db)))"
  using schema_holds_over_histories [of "demo_session [Answered, RequestLost] empty_db"] schema_ok_empty
  by simp

end
