(* ===== verification/Store_Invariants.thy ===== *)
theory Store_Invariants
  imports Store_System
begin

text \<open>
  Invariants over histories of store calls.  Each is proved once per operation through the moves an
  outbox row can make, and carried over histories by the locale \<open>store_invariant\<close>.
\<close>

section \<open>The moves of an outbox row\<close>

text \<open>The failures a history may report are a parameter \<open>F\<close>.\<close>

inductive row_moves :: "(failure_context \<Rightarrow> bool) \<Rightarrow> outbox_row \<Rightarrow> outbox_row \<Rightarrow> bool" for F where
  lease: "lease_due now r \<Longrightarrow> row_moves F r (leased_row now until token owner r)"
| deliver: "lease_held ws i token owner now r \<Longrightarrow> row_moves F r (delivered_row now r)"
| fail: "lease_held ws i (fc_lease_token f) (fc_lease_owner f) (fc_now f) r \<Longrightarrow> F f \<Longrightarrow>
     row_moves F r (failure_row f r r)"

inductive_cases row_movesE: "row_moves F r r'"

definition settled :: "outbox_row \<Rightarrow> bool" where
  "settled r \<longleftrightarrow> o_status r = Delivered \<or> o_status r = DeadLetter"

lemma settled_stuck: "settled r \<Longrightarrow> \<not> row_moves F r r'"
  by (auto simp: settled_def lease_due_def lease_held_def elim!: row_movesE)

lemma row_moves_identity:
  "row_moves F r r' \<Longrightarrow> o_id r' = o_id r \<and> o_event_id r' = o_event_id r
     \<and> o_workspace_id r' = o_workspace_id r \<and> o_payload r' = o_payload r \<and> o_event_type r' = o_event_type r"
  by (auto simp: row_identities elim!: row_movesE)

text \<open>
  How one call changes the outbox: rows move or stay, or a created row is added, or the retention
  sweep removes settled rows.
\<close>

definition outbox_moves ::
  "(failure_context \<Rightarrow> bool) \<Rightarrow> outbox_row list \<Rightarrow> outbox_row list \<Rightarrow> bool" where
  "outbox_moves F rs rs' \<longleftrightarrow> (\<exists>f. (\<forall>r\<in>set rs. f r = r \<or> row_moves F r (f r)) \<and> rs' = map f rs)"

definition outbox_evolves ::
  "(failure_context \<Rightarrow> bool) \<Rightarrow> leaf \<Rightarrow> outbox_row list \<Rightarrow> outbox_row list \<Rightarrow> bool" where
  "outbox_evolves F L rs rs' \<longleftrightarrow>
     outbox_moves F rs rs'
     \<or> (\<exists>i c e t. rs' = rs @ [outbox_row_of L i c e t] \<and> \<not> row_exists (\<lambda>r. o_id r = i) rs)"

lemma evolves_moves: "outbox_moves F rs rs' \<Longrightarrow> outbox_evolves F L rs rs'"
  by (simp add: outbox_evolves_def)

lemma moves_same: "outbox_moves F rs rs"
  unfolding outbox_moves_def by (rule exI [of _ "\<lambda>r. r"]) simp

lemma moves_row:
  assumes "outbox_moves F rs rs'" "r' \<in> set rs'"
  obtains r where "r \<in> set rs" "r' = r \<or> row_moves F r r'"
  using assms unfolding outbox_moves_def by auto

lemma moves_update:
  assumes "\<And>r. r \<in> set rs \<Longrightarrow> P r \<Longrightarrow> row_moves F r (f r)"
  shows "outbox_moves F rs (update_where P f rs)"
  unfolding outbox_moves_def update_where_def
  by (rule exI [of _ "\<lambda>r. if P r then f r else r"], use assms in simp)

lemma lease_moves:
  assumes "schema_ok d"
  shows "outbox_moves F (outbox d)
    (outbox (snd (lease_outbox_batch_spec locked token auth now lease_for n d)))"
proof (cases "0 \<le> n")
  case True
  have ok: "outbox_ok d" "unique_key o_id (outbox d)"
    using assms by (auto simp: schema_ok_def outbox_ok_def)
  have "outbox_moves F (outbox d) (update_where
      (\<lambda>r. o_id r \<in> lease_choice locked (auth_workspace_id auth) now n d)
      (leased_row now (now + lease_for) token (auth_actor_id auth)) (outbox d))"
    using lease_choice_row [OF ok(2)] by (intro moves_update row_moves.lease) blast
  then show ?thesis
    by (simp add: lease_outbox_batch_spec_def lease_statement_Ok [OF ok(1) True] Let_def)
next
  case False
  then show ?thesis by (simp add: lease_outbox_batch_spec_def lease_statement_def moves_same)
qed

lemma settle_moves:
  assumes "schema_ok d"
    and "\<And>r. lease_held (auth_workspace_id auth) i token owner now r \<Longrightarrow> row_moves F r (f r r)"
  shows "outbox_moves F (outbox d) (outbox (snd (settle_spec auth i token owner now f d)))"
proof (cases "settle auth i token owner now f d")
  case (Inl e)
  then show ?thesis by (simp add: settle_spec_def moves_same)
next
  case (Inr d')
  have uk: "unique_key o_id (outbox d)" using assms(1) by (auto simp: schema_ok_def outbox_ok_def)
  obtain r where r: "r \<in> set (outbox d)" "lease_held (auth_workspace_id auth) i token owner now r"
    "d' = d\<lparr>outbox := update_where (\<lambda>x. o_id x = i) (f r) (outbox d)\<rparr>"
    using Inr by (auto simp: settle_Ok [OF uk])
  have "outbox_moves F (outbox d) (update_where (\<lambda>x. o_id x = i) (f r) (outbox d))"
  proof (rule moves_update)
    fix x assume "x \<in> set (outbox d)" "o_id x = i"
    then have "x = r" using unique_keyD [OF uk _ r(1)] r(2) by (auto simp: lease_held_def)
    with assms(2) r(2) show "row_moves F x (f r x)" by simp
  qed
  then show ?thesis using Inr r(3) by (simp add: settle_spec_def)
qed

lemma create_issue_evolves:
  "outbox_evolves F L (outbox d) (outbox (snd (create_issue_spec L draws auth c e d)))"
proof (rule create_issue_spec_cases [of L draws auth c e d])
  assume "create_issue_admissible draws auth c e d"
    "snd (create_issue_spec L draws auth c e d) = with_created_rows L draws c e d"
  then show ?thesis
    unfolding outbox_evolves_def
    by (intro disjI2) (auto simp: with_created_rows_def Let_def create_issue_admissible_def)
qed (simp add: evolves_moves moves_same)

lemma other_tables_outbox:
  "outbox (snd (create_workspace_spec t auth wi d)) = outbox d"
  "outbox (snd (create_project_spec t auth pi d)) = outbox d"
  "outbox (snd (cleanup_idempotency_spec auth t d)) = outbox d"
  "outbox (snd (renew_partitions_spec w ids t u d)) = outbox d"
  "outbox (snd (release_partitions_spec w ids d)) = outbox d"
  by (auto simp: create_workspace_spec_def create_project_spec_def insert_workspace_row_Ok
      insert_project_row_Ok cleanup_idempotency_spec_def renew_partitions_spec_def
      release_partitions_spec_def Let_def split: sum.splits)

lemma acquire_frame:
  "\<exists>ls. snd (acquire_partitions_spec w now until n b d) = d\<lparr>partition_leases := ls\<rparr>"
proof (cases "acquire_statement w now until (scan_limit_of n) b d")
  case (Inl e)
  then show ?thesis by (auto simp: acquire_partitions_spec_def intro: exI [of _ "partition_leases d"])
next
  case (Inr p)
  then show ?thesis
    using upsert_partition_leases_frame
    by (cases p) (fastforce simp: acquire_partitions_spec_def acquire_statement_def result_simps)
qed

lemma acquire_outbox: "outbox (snd (acquire_partitions_spec w now until n b d)) = outbox d"
  using acquire_frame [of w now until n b d] by auto

fun call_failures :: "(failure_context \<Rightarrow> bool) \<Rightarrow> store_call \<Rightarrow> bool" where
  "call_failures F (MarkFailedCall auth i f) = F f"
| "call_failures F _ = True"

definition sweeps :: "store_call \<Rightarrow> outbox_row \<Rightarrow> bool" where
  "sweeps c r \<longleftrightarrow> (case c of
      CleanupOutboxCall auth t u \<Rightarrow> o_workspace_id r = auth_workspace_id auth \<and> outbox_expired t u r
    | _ \<Rightarrow> False)"

lemma sweeps_settled: "sweeps c r \<Longrightarrow> settled r"
  by (cases c) (auto simp: sweeps_def settled_def outbox_expired_def)

lemma delete_none [simp]: "delete_where (\<lambda>r. False) rs = rs"
  by (simp add: delete_where_def)

text \<open>A call that creates no issue only moves and sweeps rows.\<close>

fun creates_issue :: "store_call \<Rightarrow> bool" where
  "creates_issue (CreateIssueCall draws auth c e) = True"
| "creates_issue _ = False"

lemma call_moves:
  assumes "schema_ok d" "call_failures F c" "\<not> creates_issue c"
  shows "outbox_moves F (delete_where (sweeps c) (outbox d)) (outbox (call_effect L c d))"
  using assms
  by (cases c) (simp_all add: sweeps_def [abs_def] other_tables_outbox moves_same
      lease_moves mark_outbox_delivered_spec_def mark_outbox_failed_spec_def acquire_outbox
      settle_moves row_moves.intros cleanup_outbox_spec_def Let_def)

lemma call_evolves:
  assumes "schema_ok d" "call_failures F c"
  shows "outbox_evolves F L (delete_where (sweeps c) (outbox d)) (outbox (call_effect L c d))"
proof (cases "creates_issue c")
  case True
  then show ?thesis by (cases c) (simp_all add: sweeps_def [abs_def] create_issue_evolves)
next
  case False
  then show ?thesis using call_moves [OF assms] by (simp add: evolves_moves)
qed

lemma evolves_all:
  assumes "outbox_evolves F L rs rs'" "list_all Q rs"
    and "\<And>r r'. Q r \<Longrightarrow> row_moves F r r' \<Longrightarrow> Q r'" "\<And>i c e t. Q (outbox_row_of L i c e t)"
  shows "list_all Q rs'"
proof -
  consider (moved) f where "\<forall>r\<in>set rs. f r = r \<or> row_moves F r (f r)" "rs' = map f rs"
    | (created) i c e t where "rs' = rs @ [outbox_row_of L i c e t]"
    using assms(1) unfolding outbox_evolves_def outbox_moves_def by blast
  then show ?thesis
  proof cases
    case moved
    have "Q (f r)" if "r \<in> set rs" for r
      using moved(1) assms(2,3) that by (metis list_all_iff)
    with moved(2) show ?thesis by (simp add: list_all_iff)
  next
    case created
    with assms(2,4) show ?thesis by simp
  qed
qed

lemma call_failures_all: "call_failures (\<lambda>_. True) c"
  by (cases c) simp_all

lemma call_keeps_rows:
  assumes "schema_ok d" "call_failures F c" "list_all Q (outbox d)"
    and "\<And>r r'. Q r \<Longrightarrow> row_moves F r r' \<Longrightarrow> Q r'" "\<And>i c e t. Q (outbox_row_of L i c e t)"
  shows "list_all Q (outbox (call_effect L c d))"
proof (rule evolves_all)
  show "outbox_evolves F L (delete_where (sweeps c) (outbox d)) (outbox (call_effect L c d))"
    by (rule call_evolves [OF assms(1,2)])
  show "list_all Q (delete_where (sweeps c) (outbox d))"
    using assms(3) by (simp add: list_all_iff set_delete_where)
qed (use assms(4,5) in blast)+

section \<open>Coherence of leases\<close>

definition row_coherent :: "outbox_row \<Rightarrow> bool" where
  "row_coherent r \<longleftrightarrow>
     (if o_status r = Leased
      then o_leased_at r \<noteq> None \<and> o_leased_until r \<noteq> None \<and> o_lease_token r \<noteq> None
           \<and> o_lease_owner r \<noteq> None
      else o_leased_at r = None \<and> o_leased_until r = None \<and> o_lease_token r = None
           \<and> o_lease_owner r = None)
     \<and> (o_status r = Delivered \<longleftrightarrow> o_published_at r \<noteq> None)"

lemma row_moves_coherent: "row_coherent r \<Longrightarrow> row_moves F r r' \<Longrightarrow> row_coherent r'"
  by (auto simp: row_coherent_def lease_due_def lease_held_def leased_row_def delivered_row_def
      failure_row_def failed_row_def dead_letter_row_def Let_def split: if_splits elim!: row_movesE)

lemma created_coherent: "row_coherent (outbox_row_of L i c e t)"
  by (simp add: row_coherent_def outbox_row_of_def)

definition leases_coherent :: "db \<Rightarrow> bool" where
  "leases_coherent d \<longleftrightarrow> schema_ok d \<and> list_all row_coherent (outbox d)"

interpretation coherence: store_invariant L "\<lambda>_. True" leases_coherent for L
proof
  fix c d assume d: "leases_coherent d"
  then have "list_all row_coherent (outbox (call_effect L c d))"
    by (intro call_keeps_rows [OF _ call_failures_all [of c]])
      (simp_all add: leases_coherent_def created_coherent row_moves_coherent)
  with d show "leases_coherent (call_effect L c d)"
    by (simp add: leases_coherent_def call_effect_schema)
qed

text \<open>
  Over every history a row carries a complete lease exactly while its status is leased and none
  otherwise, and a publication time exactly when it is delivered.
\<close>

theorem leases_stay_coherent:
  assumes "leases_coherent (committed s)" "r \<in> set (outbox (committed (perform_all L calls s)))"
  shows "(o_status r = Leased \<longleftrightarrow> o_lease_token r \<noteq> None)
    \<and> (o_lease_token r \<noteq> None \<longleftrightarrow> o_lease_owner r \<noteq> None)
    \<and> (o_lease_token r \<noteq> None \<longleftrightarrow> o_leased_until r \<noteq> None)
    \<and> (o_status r = Delivered \<longleftrightarrow> o_published_at r \<noteq> None)"
proof -
  have "leases_coherent (committed (perform_all L calls s))"
    using coherence.after_history [of calls s L] assms(1) by (simp add: list_all_iff)
  with assms(2) have "row_coherent r" by (simp add: leases_coherent_def list_all_iff)
  then show ?thesis by (auto simp: row_coherent_def split: if_splits)
qed

lemma demo_leased_ok:
  "schema_ok (demo_db\<lparr>outbox := [demo_leased_row]\<rparr>)" "row_coherent demo_leased_row"
proof -
  from demo_db_ok show "schema_ok (demo_db\<lparr>outbox := [demo_leased_row]\<rparr>)"
    using demo_outbox_ok(2) unfolding schema_ok_def table_ok_defs exists_defs by simp
  show "row_coherent demo_leased_row"
    by (simp add: demo_leased_row_def demo_row_def row_coherent_def leased_row_def outbox_row_of_def)
qed

definition demo_history :: "store_call list" where
  "demo_history = [MarkFailedCall demo_auth 31 demo_failure, LeaseBatchCall {} 78 demo_auth 99 30 8]"

theorem leases_stay_coherent_witness:
  "list_all (\<lambda>r. o_status r = Leased \<longleftrightarrow> o_lease_token r \<noteq> None)
     (outbox (committed (perform_all bits_leaf demo_history (demo_outbox [demo_leased_row]))))"
  using leases_stay_coherent [of "demo_outbox [demo_leased_row]" _ bits_leaf demo_history] demo_leased_ok
  by (auto simp: list_all_iff leases_coherent_def)

section \<open>The attempt budget\<close>

definition within_budget :: "int \<Rightarrow> outbox_row \<Rightarrow> bool" where
  "within_budget M r \<longleftrightarrow>
     0 \<le> o_attempts r \<and> o_attempts r \<le> M \<and> (o_status r \<noteq> DeadLetter \<longrightarrow> o_attempts r < M)"

lemma row_moves_budget:
  assumes "within_budget M r" "row_moves (\<lambda>f. fc_max_attempts f \<le> M) r r'" "M < 2 ^ 31"
  shows "within_budget M r'"
  using assms(2)
proof cases
  case (lease now until token owner)
  then show ?thesis using assms(1) by (auto simp: within_budget_def leased_row_def lease_due_def)
next
  case (deliver ws i token owner now)
  then show ?thesis using assms(1) by (auto simp: within_budget_def delivered_row_def lease_held_def)
next
  case (fail ws i f)
  then have "o_attempts r < M" "0 \<le> o_attempts r"
    using assms(1) by (auto simp: within_budget_def lease_held_def)
  then have "wrap_i32 (o_attempts r + 1) = o_attempts r + 1"
    using assms(3) by (intro wrap_i32_id) (simp add: in_i32_def)
  with fail \<open>o_attempts r < M\<close> \<open>0 \<le> o_attempts r\<close> show ?thesis
    by (auto simp: within_budget_def failure_row_def dead_letter_row_def failed_row_def Let_def)
qed

lemma created_budget: "1 \<le> M \<Longrightarrow> within_budget M (outbox_row_of L i c e t)"
  by (simp add: within_budget_def outbox_row_of_def)

definition budget_kept :: "int \<Rightarrow> db \<Rightarrow> bool" where
  "budget_kept M d \<longleftrightarrow> schema_ok d \<and> list_all (within_budget M) (outbox d) \<and> 1 \<le> M \<and> M < 2 ^ 31"

interpretation budget: store_invariant L "call_failures (\<lambda>f. fc_max_attempts f \<le> M)" "budget_kept M"
  for L M
proof
  fix c d
  assume c: "call_failures (\<lambda>f. fc_max_attempts f \<le> M) c" and d: "budget_kept M d"
  have "list_all (within_budget M) (outbox (call_effect L c d))"
    by (rule call_keeps_rows [OF _ c])
      (use d row_moves_budget created_budget in \<open>simp_all add: budget_kept_def\<close>)
  with d show "budget_kept M (call_effect L c d)"
    by (simp add: budget_kept_def call_effect_schema)
qed

text \<open>
  With failures reported under a budget of at most \<open>M\<close> attempts, over every history no row
  counts more than \<open>M\<close> attempts, one that is not dead-lettered counts fewer, and the 32-bit counter
  never wraps.
\<close>

theorem attempts_within_budget:
  assumes "schema_ok (committed s)" "1 \<le> M" "M < 2 ^ 31"
    and "\<forall>r\<in>set (outbox (committed s)). within_budget M r"
    and "\<forall>c\<in>set calls. call_failures (\<lambda>f. fc_max_attempts f \<le> M) c"
    and "r \<in> set (outbox (committed (perform_all L calls s)))"
  shows "0 \<le> o_attempts r \<and> o_attempts r \<le> M \<and> (o_status r \<noteq> DeadLetter \<longrightarrow> o_attempts r < M)"
proof -
  have "budget_kept M (committed s)" "list_all (call_failures (\<lambda>f. fc_max_attempts f \<le> M)) calls"
    using assms(1-5) by (simp_all add: budget_kept_def list_all_iff)
  from budget.after_history [OF this(2,1)] assms(6) have "within_budget M r"
    by (simp add: budget_kept_def list_all_iff)
  then show ?thesis by (simp add: within_budget_def)
qed

theorem attempts_within_budget_witness:
  "list_all (\<lambda>r. o_attempts r \<le> 5)
     (outbox (committed (perform_all bits_leaf demo_history (demo_outbox [demo_leased_row]))))"
  using attempts_within_budget [of "demo_outbox [demo_leased_row]" 5 demo_history _ bits_leaf]
    demo_leased_ok(1)
  by (auto simp: list_all_iff within_budget_def demo_history_def demo_failure_def)

end
