(* ===== verification/Store_Guarantees.thy ===== *)
theory Store_Guarantees
  imports Store_Invariants
begin

text \<open>
  What clients of the store rely on: settled rows are final, no event is lost, a lease protects its
  row, every issue is on the audit trail and its event decodes, tenants do not touch each other.
\<close>

section \<open>Settled rows and undelivered events\<close>

text \<open>What becomes of a row under one call that takes effect.\<close>

lemma row_after_effect:
  assumes "schema_ok d" "call_failures F c" "r \<in> set (outbox d)" "\<not> sweeps c r"
  obtains r' where "r' \<in> set (outbox (call_effect L c d))" "r' = r \<or> row_moves F r r'"
proof -
  have "r \<in> set (delete_where (sweeps c) (outbox d))" using assms(3,4) by (simp add: set_delete_where)
  then have "\<exists>r'\<in>set (outbox (call_effect L c d)). r' = r \<or> row_moves F r r'"
    using call_evolves [OF assms(1,2), of L] unfolding outbox_evolves_def outbox_moves_def by fastforce
  then show ?thesis using that by blast
qed

text \<open>
  A delivered or dead-lettered row never changes again: after any call over any connection it is
  the same row, unless the call was its own tenant's retention sweep and its age had passed.
\<close>

theorem settled_rows_are_final:
  assumes "schema_ok (committed s)" "r \<in> set (outbox (committed s))"
    and "o_status r = Delivered \<or> o_status r = DeadLetter"
  shows "r \<in> set (outbox (committed (perform L c s)))
    \<or> (\<exists>auth t u. c = CleanupOutboxCall auth t u \<and> o_workspace_id r = auth_workspace_id auth
         \<and> outbox_expired t u r)"
proof (cases "sweeps c r")
  case True
  then show ?thesis by (cases c) (auto simp: sweeps_def)
next
  case False
  have "settled r" using assms(3) by (simp add: settled_def)
  obtain r' where "r' \<in> set (outbox (call_effect L c (committed s)))"
    "r' = r \<or> row_moves (\<lambda>_. True) r r'"
    using row_after_effect [OF assms(1) call_failures_all assms(2) False] .
  with settled_stuck [OF \<open>settled r\<close>] perform_outcome [of L c s] assms(2) show ?thesis by auto
qed

theorem settled_rows_are_final_witness:
  "delivered_row 80 demo_leased_row \<in> set (outbox (committed (perform bits_leaf
      (LeaseBatchCall {} 79 demo_auth 1000 30 5) (demo_outbox [delivered_row 80 demo_leased_row]))))"
proof -
  have "schema_ok (demo_db\<lparr>outbox := [delivered_row 80 demo_leased_row]\<rparr>)"
    using demo_leased_ok(1) unfolding schema_ok_def table_ok_defs exists_defs
    by (simp add: row_identities outbox_row_checks unique_key_def)
  moreover have "o_status (delivered_row 80 demo_leased_row) = Delivered"
    by (simp add: delivered_row_def)
  ultimately show ?thesis
    using settled_rows_are_final [of "demo_outbox [delivered_row 80 demo_leased_row]"
        "delivered_row 80 demo_leased_row" bits_leaf "LeaseBatchCall {} 79 demo_auth 1000 30 5"]
    by simp
qed

lemma row_after_call:
  assumes "schema_ok (committed s)" "r \<in> set (outbox (committed s))" "\<not> settled r"
  obtains r' where "r' \<in> set (outbox (committed (perform L c s)))" "r' = r \<or> row_moves (\<lambda>_. True) r r'"
proof -
  have "\<not> sweeps c r" using assms(3) sweeps_settled by blast
  from row_after_effect [OF assms(1) call_failures_all assms(2) this] obtain r'
    where "r' \<in> set (outbox (call_effect L c (committed s)))" "r' = r \<or> row_moves (\<lambda>_. True) r r'" .
  with perform_outcome [of L c s] assms(2) that show ?thesis by metis
qed

lemma perform_all_Cons: "perform_all L (c # cs) s = perform_all L cs (perform L c s)"
  by (simp add: perform_all_def)

text \<open>
  C16: no event is lost: over every history a row of the outbox stays, with its event and payload,
  until it has been delivered or dead-lettered.
\<close>

theorem no_event_lost:
  assumes "schema_ok (committed s)" "r \<in> set (outbox (committed s))"
  shows "(\<exists>r'\<in>set (outbox (committed (perform_all L calls s))).
            o_id r' = o_id r \<and> o_event_id r' = o_event_id r \<and> o_payload r' = o_payload r)
    \<or> (\<exists>n r'. r' \<in> set (outbox (committed (perform_all L (take n calls) s)))
            \<and> o_id r' = o_id r \<and> o_event_id r' = o_event_id r \<and> settled r')"
  using assms
proof (induction calls arbitrary: s r)
  case Nil
  then show ?case by (auto simp: perform_all_def)
next
  case (Cons c cs)
  let ?s = "perform L c s"
  show ?case
  proof (cases "settled r")
    case True
    then show ?thesis
      using Cons.prems(2) by (intro disjI2 exI [of _ 0] exI [of _ r]) (simp add: perform_all_def)
  next
    case False
    have "schema_ok (committed ?s)"
      using schema.after_call [of s L c] Cons.prems(1) by simp
    moreover obtain r1 where "r1 \<in> set (outbox (committed ?s))" "r1 = r \<or> row_moves (\<lambda>_. True) r r1"
      by (rule row_after_call [OF Cons.prems False])
    moreover from this(2) have "o_id r1 = o_id r \<and> o_event_id r1 = o_event_id r \<and> o_payload r1 = o_payload r"
      using row_moves_identity by metis
    ultimately consider
        "\<exists>r'\<in>set (outbox (committed (perform_all L cs ?s))).
           o_id r' = o_id r \<and> o_event_id r' = o_event_id r \<and> o_payload r' = o_payload r"
      | n r' where "r' \<in> set (outbox (committed (perform_all L (take n cs) ?s)))"
          "o_id r' = o_id r" "o_event_id r' = o_event_id r" "settled r'"
      using Cons.IH [of ?s r1] by auto
    then show ?thesis
    proof cases
      case 1
      then show ?thesis by (simp add: perform_all_Cons)
    next
      case (2 n r')
      then show ?thesis
        by (intro disjI2 exI [of _ "Suc n"] exI [of _ r']) (simp add: perform_all_Cons)
    qed
  qed
qed

theorem no_event_lost_witness:
  "(\<exists>r'\<in>set (outbox (committed (perform_all bits_leaf demo_history (demo_outbox [demo_leased_row])))).
       o_id r' = 31)
   \<or> (\<exists>n r'. r' \<in> set (outbox (committed (perform_all bits_leaf (take n demo_history)
              (demo_outbox [demo_leased_row])))) \<and> o_id r' = 31 \<and> settled r')"
  using no_event_lost [of "demo_outbox [demo_leased_row]" demo_leased_row bits_leaf demo_history]
    demo_leased_ok(1) by auto

section \<open>Leases as fencing tokens\<close>

text \<open>A call that neither knows the token nor comes from a clock past the lease.\<close>

fun outside_lease :: "uuid \<Rightarrow> timestamp \<Rightarrow> store_call \<Rightarrow> bool" where
  "outside_lease token until (LeaseBatchCall locked t auth now lease_for n) \<longleftrightarrow> now < until"
| "outside_lease token until (MarkDeliveredCall auth i t owner now) \<longleftrightarrow> t \<noteq> token"
| "outside_lease token until (MarkFailedCall auth i f) \<longleftrightarrow> fc_lease_token f \<noteq> token"
| "outside_lease token until c \<longleftrightarrow> True"

lemma settle_outside:
  assumes "schema_ok d" "r \<in> set (outbox d)" "o_lease_token r = Some token" "t \<noteq> token"
  shows "r \<in> set (outbox (snd (settle_spec auth i t owner now f d)))"
proof (cases "settle auth i t owner now f d")
  case (Inl e)
  with assms(2) show ?thesis by (simp add: settle_spec_def)
next
  case (Inr d')
  have uk: "unique_key o_id (outbox d)" using assms(1) by (auto simp: schema_ok_def outbox_ok_def)
  obtain x where x: "x \<in> set (outbox d)" "lease_held (auth_workspace_id auth) i t owner now x"
    "d' = d\<lparr>outbox := update_where (\<lambda>x. o_id x = i) (f x) (outbox d)\<rparr>"
    using Inr by (auto simp: settle_Ok [OF uk])
  have "o_id r \<noteq> i"
    using unique_keyD [OF uk assms(2) x(1)] x(2) assms(3,4) by (auto simp: lease_held_def)
  with assms(2) Inr x(3) show ?thesis by (auto simp: settle_spec_def set_update_where)
qed

lemma effect_outside_lease:
  assumes "schema_ok d" "r \<in> set (outbox d)" "o_status r = Leased" "o_lease_token r = Some token"
    and "o_leased_until r = Some until" "outside_lease token until c"
  shows "r \<in> set (outbox (call_effect L c d))"
proof (cases c)
  case (LeaseBatchCall locked t auth now lease_for n)
  have ok: "outbox_ok d" "unique_key o_id (outbox d)"
    using assms(1) by (auto simp: schema_ok_def outbox_ok_def)
  have "o_id r \<notin> lease_choice locked (auth_workspace_id auth) now n d"
    using lease_choice_row [OF ok(2) assms(2), of locked "auth_workspace_id auth" now n] assms
      LeaseBatchCall by (auto simp: lease_due_def)
  then show ?thesis
    using LeaseBatchCall assms(2) lease_statement_Ok [OF ok(1)]
    by (cases "0 \<le> n") (auto simp: lease_outbox_batch_spec_def set_update_where Let_def
        lease_statement_def)
next
  case (MarkDeliveredCall auth i t owner now)
  then show ?thesis using settle_outside assms by (simp add: mark_outbox_delivered_spec_def)
next
  case (MarkFailedCall auth i f)
  then show ?thesis using settle_outside assms by (simp add: mark_outbox_failed_spec_def)
next
  case (CreateIssueCall draws auth c e)
  then show ?thesis
    using assms(2)
    by (cases rule: create_issue_spec_cases [of L draws auth c e d])
       (simp_all add: with_created_rows_def Let_def)
next
  case (CleanupOutboxCall auth t u)
  then show ?thesis using assms(2,3)
    by (simp add: cleanup_outbox_spec_def Let_def set_delete_where outbox_expired_def)
qed (use assms(2) in \<open>simp_all add: other_tables_outbox acquire_outbox\<close>)

text \<open>
  C15: while a lease runs its row is untouched by everyone else: over every history in which the
  lease batches read a clock before its end and nobody presents its token, the row stays exactly as
  it was leased, so no second worker receives its event.
\<close>

theorem lease_protects_row:
  assumes "schema_ok (committed s)" "r \<in> set (outbox (committed s))" "o_status r = Leased"
    and "o_lease_token r = Some token" "o_leased_until r = Some until"
    and "list_all (outside_lease token until) calls"
  shows "r \<in> set (outbox (committed (perform_all L calls s)))"
  using assms(1,2,6)
proof (induction calls arbitrary: s)
  case (Cons c cs)
  have "r \<in> set (outbox (committed (perform L c s)))"
    using effect_outside_lease [OF Cons.prems(1,2) assms(3-5), of c L] Cons.prems(2,3)
      perform_outcome [of L c s] by auto
  moreover have "schema_ok (committed (perform L c s))"
    using schema.after_call [of s L c] Cons.prems(1) by simp
  ultimately show ?case using Cons.IH Cons.prems(3) by (simp add: perform_all_Cons)
qed (simp add: perform_all_def)

theorem lease_protects_row_witness:
  "demo_leased_row \<in> set (outbox (committed (perform_all bits_leaf
      [LeaseBatchCall {} 78 demo_auth 89 30 5, MarkDeliveredCall demo_auth 31 78 9 89]
      (demo_outbox [demo_leased_row]))))"
  using lease_protects_row [of "demo_outbox [demo_leased_row]" demo_leased_row 77 90
      "[LeaseBatchCall {} 78 demo_auth 89 30 5, MarkDeliveredCall demo_auth 31 78 9 89]" bits_leaf]
    demo_leased_ok(1) by simp

section \<open>The audit trail\<close>

definition announces :: "leaf \<Rightarrow> outbox_row \<Rightarrow> bool" where
  "announces L r \<longleftrightarrow> o_event_type r = event_type_as_str IssueCreatedV1
     \<and> (\<exists>e. o_payload r = issue_created_ser L e \<and> o_event_id r = ice_event_id e)"

text \<open>The activities of an issue are the one that records its creation.\<close>

definition audited :: "activity_row list \<Rightarrow> issue_row \<Rightarrow> bool" where
  "audited as i \<longleftrightarrow>
     (\<exists>a. filter (\<lambda>a. a_issue_id a = Some (i_id i)) as = [a]
        \<and> a_workspace_id a = i_workspace_id i \<and> a_project_id a = i_project_id i
        \<and> a_event_type a = event_type_as_str IssueCreatedV1 \<and> a_created_at a = i_created_at i)"

definition replayable :: "leaf \<Rightarrow> idempotency_row \<Rightarrow> bool" where
  "replayable L k \<longleftrightarrow> (\<exists>c t. k_response_payload k = idempotency_response_ser L (opened_issue c t))"

definition trail_kept :: "leaf \<Rightarrow> db \<Rightarrow> bool" where
  "trail_kept L d \<longleftrightarrow> schema_ok d \<and> list_all (announces L) (outbox d)
     \<and> list_all (audited (activities d)) (issues d) \<and> list_all (replayable L) (idempotency d)"

lemma announces_moves: "announces L r \<Longrightarrow> row_moves F r r' \<Longrightarrow> announces L r'"
  using row_moves_identity by (simp add: announces_def)

lemma announces_created: "announces L (outbox_row_of L i c e t)"
  by (auto simp: announces_def outbox_row_of_def)

lemma update_outbox_frame:
  "update_outbox w P f d = Inr (d', n) \<Longrightarrow> \<exists>rs. d' = d\<lparr>outbox := rs\<rparr>"
  by (auto simp: update_outbox_def Let_def split: if_splits)

lemma same_outbox: "\<exists>rs. d = d\<lparr>outbox := rs\<rparr>"
  by (rule exI [of _ "outbox d"]) simp

lemma outbox_ops_frame:
  "\<exists>rs. snd (lease_outbox_batch_spec locked token auth now lease_for n d) = d\<lparr>outbox := rs\<rparr>"
  "\<exists>rs. snd (settle_spec auth i token owner now f d) = d\<lparr>outbox := rs\<rparr>"
proof -
  show "\<exists>rs. snd (lease_outbox_batch_spec locked token auth now lease_for n d) = d\<lparr>outbox := rs\<rparr>"
    by (cases "lease_statement locked (auth_workspace_id auth) token (auth_actor_id auth) now
             (now + lease_for) n (Some (auth_workspace_id auth)) d")
       (auto simp: lease_outbox_batch_spec_def same_outbox dest!: lease_statement_update update_outbox_frame)
  show "\<exists>rs. snd (settle_spec auth i token owner now f d) = d\<lparr>outbox := rs\<rparr>"
  proof (cases "settle auth i token owner now f d")
    case (Inl e)
    then show ?thesis using same_outbox by (simp add: settle_spec_def)
  next
    case (Inr d')
    then obtain l p where "update_outbox (Some (auth_workspace_id auth))
        (lease_held (auth_workspace_id auth) i token owner now) (f l) d = Inr p" "fst p = d'"
      unfolding settle_def Let_def result_simps by blast
    then show ?thesis using Inr update_outbox_frame by (cases p) (fastforce simp: settle_spec_def)
  qed
qed

lemma other_calls_log:
  assumes "\<not> creates_issue c"
  shows "issues (call_effect L c d) = issues d \<and> activities (call_effect L c d) = activities d
    \<and> set (idempotency (call_effect L c d)) \<subseteq> set (idempotency d)"
proof (cases c)
  case (LeaseBatchCall locked token auth now lease_for n)
  then show ?thesis using outbox_ops_frame(1) [of locked token auth now lease_for n d] by auto
next
  case (MarkDeliveredCall auth i token owner now)
  then show ?thesis
    using outbox_ops_frame(2) [of auth i token owner now "\<lambda>_. delivered_row now" d]
    by (auto simp: mark_outbox_delivered_spec_def)
next
  case (MarkFailedCall auth i f)
  then show ?thesis
    using outbox_ops_frame(2) [of auth i "fc_lease_token f" "fc_lease_owner f" "fc_now f"
        "failure_row f" d]
    by (auto simp: mark_outbox_failed_spec_def)
next
  case (AcquirePartitionsCall w now until n b)
  then show ?thesis using acquire_frame [of w now until n b d] by auto
qed (use assms in \<open>auto simp: create_workspace_spec_def create_project_spec_def insert_workspace_row_Ok
    insert_project_row_Ok cleanup_outbox_spec_def cleanup_idempotency_spec_def renew_partitions_spec_def
    release_partitions_spec_def Let_def set_delete_where split: sum.splits\<close>)

text \<open>A creation either leaves the database as it is or logs a new issue.\<close>

lemma creation_log:
  assumes "creates_issue c" "call_effect L c d \<noteq> d"
  obtains draws auth cmd e where "c = CreateIssueCall draws auth cmd e"
    "ci_workspace_id cmd = auth_workspace_id auth"
    "ci_issue_id cmd \<notin> i_id ` set (issues d)" "call_effect L c d = with_created_rows L draws cmd e d"
proof (cases c)
  case (CreateIssueCall draws auth cmd e)
  have "create_issue_admissible draws auth cmd e d \<and> call_effect L c d = with_created_rows L draws cmd e d"
    using assms(2)
    unfolding CreateIssueCall
    by (cases rule: create_issue_spec_cases [of L draws auth cmd e d]) simp_all
  then show thesis
    by (intro that [OF CreateIssueCall]) (auto simp: create_issue_admissible_def row_exists_iff)
qed (use assms(1) in simp_all)

lemma fresh_issue_unlogged:
  assumes "schema_ok d" "i \<notin> i_id ` set (issues d)"
  shows "filter (\<lambda>a. a_issue_id a = Some i) (activities d) = []"
  using assms
  by (auto simp: filter_empty_conv schema_ok_def activities_ok_def activity_row_ok_def exists_defs row_exists_iff)

lemma call_keeps_trail:
  assumes "schema_ok d" "list_all (audited (activities d)) (issues d)" "list_all (replayable L) (idempotency d)"
  shows "list_all (audited (activities (call_effect L c d))) (issues (call_effect L c d))
    \<and> list_all (replayable L) (idempotency (call_effect L c d))"
proof (cases "creates_issue c \<and> call_effect L c d \<noteq> d")
  case True
  then obtain draws auth cmd e where c: "ci_issue_id cmd \<notin> i_id ` set (issues d)"
    "call_effect L c d = with_created_rows L draws cmd e d"
    by (elim conjE creation_log)
  let ?a = "activity_row_of L (dr_activity_id draws) cmd e (ice_occurred_at e)"
  have "audited (activities d @ [?a]) i" if "i \<in> set (issues d)" for i
  proof -
    have "a_issue_id ?a \<noteq> Some (i_id i)" using c(1) that by (auto simp: activity_row_of_def)
    then show ?thesis using assms(2) that by (auto simp: audited_def list_all_iff)
  qed
  moreover have "audited (activities d @ [?a]) (issue_row_of cmd (ice_occurred_at e))"
    using fresh_issue_unlogged [OF assms(1) c(1)]
    by (simp add: audited_def activity_row_of_def issue_row_of_def)
  moreover have "replayable L (final_idempotency_row L draws cmd t)" for t by (auto simp: replayable_def)
  ultimately show ?thesis
    using assms(3) by (simp add: c(2) with_created_rows_def Let_def list_all_iff)
next
  case False
  then show ?thesis using assms(2,3) other_calls_log [of c L d] by (auto simp: list_all_iff)
qed

interpretation trail: store_invariant L "\<lambda>_. True" "trail_kept L" for L
proof
  fix c d assume d: "trail_kept L d"
  then have "list_all (announces L) (outbox (call_effect L c d))"
    by (intro call_keeps_rows [OF _ call_failures_all [of c]])
      (simp_all add: trail_kept_def announces_created announces_moves)
  with d call_keeps_trail [of d L c] show "trail_kept L (call_effect L c d)"
    by (simp add: trail_kept_def call_effect_schema)
qed

text \<open>Where an issue comes from: a call of the history, which its activity records.\<close>

definition traced :: "leaf \<Rightarrow> store_call list \<Rightarrow> activity_row list \<Rightarrow> issue_row \<Rightarrow> bool" where
  "traced L calls as i \<longleftrightarrow>
     (\<exists>draws auth c e. CreateIssueCall draws auth c e \<in> set calls
        \<and> i = issue_row_of c (ice_occurred_at e) \<and> i_workspace_id i = auth_workspace_id auth
        \<and> activity_row_of L (dr_activity_id draws) c e (ice_occurred_at e) \<in> set as)"

lemma traced_mono: "traced L calls as i \<Longrightarrow> set calls \<subseteq> set calls' \<Longrightarrow> set as \<subseteq> set as' \<Longrightarrow> traced L calls' as' i"
  unfolding traced_def by blast

lemma effect_traced:
  "set (activities d) \<subseteq> set (activities (call_effect L c d))
   \<and> (\<forall>i\<in>set (issues (call_effect L c d)).
        i \<in> set (issues d) \<or> traced L [c] (activities (call_effect L c d)) i)"
proof (cases "creates_issue c \<and> call_effect L c d \<noteq> d")
  case True
  then obtain draws auth cmd e where c: "c = CreateIssueCall draws auth cmd e"
    "ci_workspace_id cmd = auth_workspace_id auth" "call_effect L c d = with_created_rows L draws cmd e d"
    by (elim conjE creation_log)
  have "traced L [c] (activities d @ [activity_row_of L (dr_activity_id draws) cmd e (ice_occurred_at e)])
      (issue_row_of cmd (ice_occurred_at e))"
    using c(1,2) by (auto simp: traced_def issue_row_of_def)
  then show ?thesis by (auto simp: c(3) with_created_rows_def Let_def)
next
  case False
  then show ?thesis using other_calls_log [of c L d] by auto
qed

lemma history_traced:
  "set (activities (committed s)) \<subseteq> set (activities (committed (perform_all L calls s)))
   \<and> (\<forall>i\<in>set (issues (committed (perform_all L calls s))).
        i \<in> set (issues (committed s)) \<or> traced L calls (activities (committed (perform_all L calls s))) i)"
proof (induction calls arbitrary: s)
  case Nil
  then show ?case by (simp add: perform_all_def)
next
  case (Cons c cs)
  let ?s = "perform L c s" and ?as = "activities (committed (perform_all L cs (perform L c s)))"
  have step: "set (activities (committed s)) \<subseteq> set (activities (committed ?s))
      \<and> (\<forall>i\<in>set (issues (committed ?s)).
           i \<in> set (issues (committed s)) \<or> traced L [c] (activities (committed ?s)) i)"
    using perform_outcome [of L c s] effect_traced [of "committed s" L c] by auto
  have "i \<in> set (issues (committed s)) \<or> traced L (c # cs) ?as i"
    if "i \<in> set (issues (committed (perform_all L cs ?s)))" for i
    using Cons.IH [of ?s] step that traced_mono [of L cs ?as i "c # cs" ?as]
      traced_mono [of L "[c]" "activities (committed ?s)" i "c # cs" ?as] by auto
  then show ?case using Cons.IH [of ?s] step by (auto simp: perform_all_Cons)
qed

text \<open>
  C20: from any database that satisfies the schema and whose issues, outbox and records are complete in
  this sense (a fresh one with its projects is), over every history: each issue has exactly one activity,
  the record of its creation in its own workspace and project at its own time; an issue that was not there
  before comes from a call of the history in its workspace, and that activity records the command, the
  actor and the event of the call; each outbox row carries an event that decodes to the event it is stored
  under; and each committed idempotency record replays as an issue: the reservation's placeholder is
  never committed.
\<close>

theorem audit_trail_complete:
  assumes "leaf_ok L" "schema_ok (committed s)"
    and "\<forall>i\<in>set (issues (committed s)). audited (activities (committed s)) i"
    and "\<forall>r\<in>set (outbox (committed s)). announces L r"
    and "\<forall>k\<in>set (idempotency (committed s)). replayable L k"
  shows "let d = committed (perform_all L calls s) in
      (\<forall>i\<in>set (issues d). audited (activities d) i
         \<and> (i \<in> set (issues (committed s)) \<or> traced L calls (activities d) i))
      \<and> (\<forall>r\<in>set (outbox d). \<exists>e. issue_created_de L (o_payload r) = Some e \<and> ice_event_id e = o_event_id r)
      \<and> (\<forall>k\<in>set (idempotency d). \<exists>i. idempotency_response_de L (k_response_payload k) = Some i)"
proof -
  let ?d = "committed (perform_all L calls s)"
  have "trail_kept L (committed s)" using assms(2-5) by (simp add: trail_kept_def list_all_iff)
  then have "trail_kept L ?d"
    using trail.after_history [of calls L s] by (simp add: list_all_iff)
  then have k: "\<forall>i\<in>set (issues ?d). audited (activities ?d) i"
    "\<forall>r\<in>set (outbox ?d). announces L r" "\<forall>k\<in>set (idempotency ?d). replayable L k"
    by (simp_all add: trail_kept_def list_all_iff)
  have "\<exists>e. issue_created_de L (o_payload r) = Some e \<and> ice_event_id e = o_event_id r"
    if "announces L r" for r
    using that issue_created_de_ser [OF assms(1)] by (auto simp: announces_def)
  moreover have "\<exists>i. idempotency_response_de L (k_response_payload k) = Some i"
    if "replayable L k" for k
    using that idempotency_response_de_ser [OF assms(1), of "opened_issue c t" for c t]
    by (auto simp: replayable_def opened_issue_def in_i64_def)
  ultimately show ?thesis using k history_traced [of s L calls] unfolding Let_def by blast
qed

text \<open>The demonstration command on its database: one issue, its one activity, one event.\<close>

theorem audit_trail_complete_witness:
  "let d = committed (perform_all bits_leaf
       [CreateIssueCall demo_draws demo_auth demo_command demo_event] (demo_session [] demo_db))
   in map i_id (issues d) = [21] \<and> length (activities d) = 1 \<and> list_all (audited (activities d)) (issues d)
      \<and> (\<exists>e. issue_created_de bits_leaf (o_payload (hd (outbox d))) = Some e \<and> ice_event_id e = 22)"
proof -
  let ?calls = "[CreateIssueCall demo_draws demo_auth demo_command demo_event]"
  let ?d = "committed (perform_all bits_leaf ?calls (demo_session [] demo_db))"
  have d: "?d = with_created_rows bits_leaf demo_draws demo_command demo_event demo_db"
    using demo_first_attempt(1) by (simp add: perform_all_def)
  have empty: "issues demo_db = []" "activities demo_db = []" "outbox demo_db = []" "idempotency demo_db = []"
    by (simp_all add: demo_db_def empty_db_def)
  have rows: "map i_id (issues ?d) = [21]" "length (activities ?d) = 1" "map o_event_id (outbox ?d) = [22]"
    unfolding d with_created_rows_def Let_def
    by (simp_all add: empty issue_row_of_def outbox_row_of_def) (simp_all add: demo_command_def demo_event_def)
  then have "hd (outbox ?d) \<in> set (outbox ?d)" "o_event_id (hd (outbox ?d)) = 22"
    by (cases "outbox ?d"; simp)+
  with audit_trail_complete [OF bits_leaf_ok, of "demo_session [] demo_db" ?calls] demo_db_ok empty rows
  show ?thesis by (force simp: Let_def list_all_iff)
qed

end
