(* ===== verification/Tenant_Isolation.thy ===== *)
theory Tenant_Isolation
  imports Store_Guarantees
begin

text \<open>
  Tenants are isolated: an operation on behalf of one workspace leaves every row of every other
  workspace alone, and what a read returns depends on the reader's own rows only.  The locale
  \<open>tenant_operation\<close> extends the contract of a store operation by this frame.
\<close>

definition tenant_view :: "uuid \<Rightarrow> db \<Rightarrow>
    (workspace_row list \<times> workflow_version_row list \<times> project_row list \<times> milestone_row list)
    \<times> issue_row list \<times> activity_row list \<times> outbox_row list \<times> idempotency_row list" where
  "tenant_view w d =
     ((filter (\<lambda>r. w_id r = w) (workspaces d), filter (\<lambda>r. wv_workspace_id r = w) (workflow_versions d),
       filter (\<lambda>r. p_workspace_id r = w) (projects d), filter (\<lambda>r. m_workspace_id r = w) (milestones d)),
      filter (\<lambda>r. i_workspace_id r = w) (issues d), filter (\<lambda>r. a_workspace_id r = w) (activities d),
      filter (\<lambda>r. o_workspace_id r = w) (outbox d), filter (\<lambda>r. k_workspace_id r = w) (idempotency d))"

locale tenant_operation = store_operation E op spec
  for E :: "db_error \<Rightarrow> store_error" and op :: "'a tx" and spec :: "db \<Rightarrow> (store_error + 'a) \<times> db" +
  fixes tenant :: uuid
  assumes frame: "w \<noteq> tenant \<Longrightarrow> tenant_view w (snd (spec d)) = tenant_view w d"
begin

lemma isolated:
  assumes "w \<noteq> tenant"
  shows "tenant_view w (committed (snd (op s))) = tenant_view w (committed s)"
  using all_or_nothing [of s] frame [OF assms] by metis

end

lemma update_outbox_view:
  assumes "update_outbox (Some t) P f d = Inr (d', n)" "w \<noteq> t"
    and "\<And>r. o_workspace_id (f r) = o_workspace_id r"
  shows "tenant_view w d' = tenant_view w d"
proof -
  let ?Q = "\<lambda>r. tenant_visible (Some t) (o_workspace_id r) \<and> P r"
  have "d' = d\<lparr>outbox := update_where ?Q f (outbox d)\<rparr>"
    using assms(1) by (auto simp: update_outbox_def Let_def split: if_splits)
  moreover have "filter (\<lambda>r. o_workspace_id r = w) (update_where ?Q f (outbox d))
      = filter (\<lambda>r. o_workspace_id r = w) (outbox d)"
    using assms(2,3) by (intro filter_update_where_other) (auto simp: tenant_visible_def)
  ultimately show ?thesis by (simp add: tenant_view_def)
qed

lemma settle_view:
  assumes "w \<noteq> auth_workspace_id auth" "\<And>l r. o_workspace_id (f l r) = o_workspace_id r"
  shows "tenant_view w (snd (settle_spec auth i token owner now f d)) = tenant_view w d"
proof (cases "settle auth i token owner now f d")
  case (Inl e)
  then show ?thesis by (simp add: settle_spec_def)
next
  case (Inr d')
  then obtain l p where "update_outbox (Some (auth_workspace_id auth))
      (lease_held (auth_workspace_id auth) i token owner now) (f l) d = Inr p" "fst p = d'"
    unfolding settle_def Let_def result_simps by blast
  then have "tenant_view w d' = tenant_view w d"
    using update_outbox_view [OF _ assms(1), of _ "f l" d] assms(2) by (cases p) auto
  with Inr show ?thesis by (simp add: settle_spec_def)
qed

interpretation isolated_create_issue: tenant_operation Sqlx
  "create_issue_transactional L draws auth c e" "create_issue_spec L draws auth c e" "auth_workspace_id auth"
  for L draws auth c e
proof
  fix w d assume w: "w \<noteq> auth_workspace_id auth"
  show "tenant_view w (snd (create_issue_spec L draws auth c e d)) = tenant_view w d"
  proof (cases rule: create_issue_spec_cases [of L draws auth c e d])
    case 1
    then show ?thesis by simp
  next
    case 2
    then have c: "ci_workspace_id c = auth_workspace_id auth" by (simp add: create_issue_admissible_def)
    show ?thesis
      using w by (simp add: 2(3)) (simp add: with_created_rows_def Let_def tenant_view_def c issue_row_of_def
          activity_row_of_def outbox_row_of_def final_idempotency_row_def idempotency_row_of_def)
  qed
qed

interpretation isolated_create_workspace: tenant_operation SeaOrm
  "create_workspace t auth input" "create_workspace_spec t auth input" "auth_workspace_id auth"
  for t auth input
  by unfold_locales (auto simp: create_workspace_spec_def insert_workspace_row_Ok tenant_view_def
      split: sum.splits)

interpretation isolated_create_project: tenant_operation SeaOrm
  "create_project t auth input" "create_project_spec t auth input" "auth_workspace_id auth"
  for t auth input
  by unfold_locales (auto simp: create_project_spec_def insert_project_row_Ok tenant_view_def
      split: sum.splits)

interpretation isolated_lease: tenant_operation Sqlx
  "lease_outbox_batch locked token auth now lease_for n"
  "lease_outbox_batch_spec locked token auth now lease_for n" "auth_workspace_id auth"
  for locked token auth now lease_for n
  by unfold_locales
     (auto simp: lease_outbox_batch_spec_def row_identities split: sum.splits
       dest!: lease_statement_update intro: update_outbox_view)

interpretation isolated_delivered: tenant_operation Sqlx
  "mark_outbox_delivered auth i token owner now" "mark_outbox_delivered_spec auth i token owner now"
  "auth_workspace_id auth" for auth i token owner now
  by unfold_locales (simp add: mark_outbox_delivered_spec_def settle_view row_identities)

interpretation isolated_failed: tenant_operation Sqlx
  "mark_outbox_failed auth i f" "mark_outbox_failed_spec auth i f" "auth_workspace_id auth" for auth i f
  by unfold_locales (simp add: mark_outbox_failed_spec_def settle_view row_identities)

interpretation isolated_cleanup_outbox: tenant_operation Sqlx
  "cleanup_outbox auth t u" "cleanup_outbox_spec auth t u" "auth_workspace_id auth" for auth t u
  by unfold_locales
     (auto simp: cleanup_outbox_spec_def Let_def tenant_view_def intro!: filter_delete_where_other)

interpretation isolated_cleanup_idempotency: tenant_operation Sqlx
  "cleanup_idempotency auth t" "cleanup_idempotency_spec auth t" "auth_workspace_id auth" for auth t
  by unfold_locales
     (auto simp: cleanup_idempotency_spec_def Let_def tenant_view_def intro!: filter_delete_where_other)

fun call_tenant :: "store_call \<Rightarrow> uuid option" where
  "call_tenant (CreateIssueCall draws auth c e) = Some (auth_workspace_id auth)"
| "call_tenant (GetIssueCall auth i) = Some (auth_workspace_id auth)"
| "call_tenant (CreateWorkspaceCall t auth input) = Some (auth_workspace_id auth)"
| "call_tenant (GetWorkspaceCall auth i) = Some (auth_workspace_id auth)"
| "call_tenant (CreateProjectCall t auth input) = Some (auth_workspace_id auth)"
| "call_tenant (GetProjectCall auth i) = Some (auth_workspace_id auth)"
| "call_tenant (LeaseBatchCall locked token auth now lease_for n) = Some (auth_workspace_id auth)"
| "call_tenant (MarkDeliveredCall auth i token owner now) = Some (auth_workspace_id auth)"
| "call_tenant (MarkFailedCall auth i f) = Some (auth_workspace_id auth)"
| "call_tenant (CleanupOutboxCall auth t u) = Some (auth_workspace_id auth)"
| "call_tenant (CleanupIdempotencyCall auth t) = Some (auth_workspace_id auth)"
| "call_tenant _ = None"

lemma partition_view:
  "tenant_view v (snd (acquire_partitions_spec w now until n b d)) = tenant_view v d"
  "tenant_view v (snd (renew_partitions_spec w ids now until d)) = tenant_view v d"
  "tenant_view v (snd (release_partitions_spec w ids d)) = tenant_view v d"
  using acquire_frame [of w now until n b d]
  by (auto simp: tenant_view_def renew_partitions_spec_def release_partitions_spec_def Let_def)

lemma effect_isolated: "call_tenant c \<noteq> Some w \<Longrightarrow> tenant_view w (call_effect L c d) = tenant_view w d"
  by (cases c) (simp_all add: partition_view isolated_create_issue.frame isolated_create_workspace.frame
      isolated_create_project.frame isolated_lease.frame isolated_delivered.frame
      isolated_failed.frame isolated_cleanup_outbox.frame isolated_cleanup_idempotency.frame)

interpretation isolation: store_invariant L "\<lambda>c. call_tenant c \<noteq> Some w" "\<lambda>d. tenant_view w d = v"
  for L w v
  by unfold_locales (simp add: effect_isolated)

text \<open>
  C10: tenants are isolated: whatever calls other tenants and the workers make, in whatever number,
  order and fault schedule, every row of a workspace in every tenant table stays as it was.
\<close>

theorem tenants_isolated:
  assumes "list_all (\<lambda>c. call_tenant c \<noteq> Some w) calls"
  shows "tenant_view w (committed (perform_all L calls s)) = tenant_view w (committed s)"
  by (rule isolation.after_history [OF assms]) (rule refl)

theorem tenants_isolated_witness:
  "tenant_view 5 (committed (perform_all bits_leaf
     [CreateIssueCall demo_draws demo_auth demo_command demo_event, CleanupOutboxCall demo_auth 1000 1000,
      AcquirePartitionsCall 9 0 10 5 ShardBucketRange_full] (demo_session [] demo_db)))
   = tenant_view 5 demo_db"
  using tenants_isolated [of 5 "[CreateIssueCall demo_draws demo_auth demo_command demo_event,
      CleanupOutboxCall demo_auth 1000 1000, AcquirePartitionsCall 9 0 10 5 ShardBucketRange_full]"
      bits_leaf "demo_session [] demo_db"]
  by (simp add: demo_auth_def)

lemma fetch_filter: "fetch_optional P (filter Q rs) = fetch_optional (\<lambda>r. Q r \<and> P r) rs"
  by (induction rs) (auto simp: fetch_optional_def)

lemma get_issue_view:
  "fst (get_issue_spec auth i d) = (case fetch_optional (\<lambda>r. i_id r = i)
       (filter (\<lambda>r. i_workspace_id r = auth_workspace_id auth) (issues d)) of
     None \<Rightarrow> Ok None | Some row \<Rightarrow> map_ok Some (map_issue_row row))"
  by (simp add: get_issue_spec_def fetch_filter tenant_visible_def eq_commute)

text \<open>
  C12: what a tenant reads depends on its own rows only: two databases that agree on the tenant's rows
  give the same issue, project and workspace for every identifier.
\<close>

theorem reads_see_own_tenant:
  assumes "faults s = []" "faults s' = []"
    and "tenant_view (auth_workspace_id auth) (committed s) = tenant_view (auth_workspace_id auth) (committed s')"
  shows "fst (get_issue auth i s) = fst (get_issue auth i s')
    \<and> fst (get_project auth i s) = fst (get_project auth i s')
    \<and> fst (get_workspace auth i s) = fst (get_workspace auth i s')"
proof -
  let ?t = "auth_workspace_id auth"
  have v: "filter (\<lambda>r. i_workspace_id r = ?t) (issues (committed s)) = filter (\<lambda>r. i_workspace_id r = ?t) (issues (committed s'))"
    "filter (\<lambda>r. p_workspace_id r = ?t) (projects (committed s)) = filter (\<lambda>r. p_workspace_id r = ?t) (projects (committed s'))"
    "filter (\<lambda>r. w_id r = ?t) (workspaces (committed s)) = filter (\<lambda>r. w_id r = ?t) (workspaces (committed s'))"
    using assms(3) by (simp_all add: tenant_view_def)
  have p: "fst (get_project_spec auth i d) = Ok (map_option map_project_model
      (fetch_optional (\<lambda>r. p_id r = i) (filter (\<lambda>r. p_workspace_id r = ?t) (projects d))))" for d
    by (simp add: get_project_spec_def fetch_filter tenant_visible_def eq_commute)
  have w: "fst (get_workspace_spec auth i d) = Ok (map_option map_workspace_model
      (fetch_optional (\<lambda>r. w_id r = i) (filter (\<lambda>r. w_id r = ?t) (workspaces d))))" for d
    by (simp add: get_workspace_spec_def fetch_filter tenant_visible_def eq_commute)
  show ?thesis
    using v by (simp add: get_issue_op.fault_free assms(1,2) get_project_op.fault_free
        get_workspace_op.fault_free get_issue_view p w)
qed

theorem reads_see_own_tenant_witness:
  "fst (get_project demo_auth 3 (demo_session [] demo_db))
     = fst (get_project demo_auth 3 (demo_session [] (demo_db\<lparr>workspaces := workspaces demo_db
         @ workspaces (two_workspaces\<lparr>workspaces := tl (workspaces two_workspaces)\<rparr>)\<rparr>)))"
proof -
  let ?d = "demo_db\<lparr>workspaces := workspaces demo_db
         @ workspaces (two_workspaces\<lparr>workspaces := tl (workspaces two_workspaces)\<rparr>)\<rparr>"
  have "tenant_view (auth_workspace_id demo_auth) demo_db = tenant_view (auth_workspace_id demo_auth) ?d"
    by (simp add: tenant_view_def demo_auth_def two_workspaces_def)
  then show ?thesis
    using reads_see_own_tenant [of "demo_session [] demo_db" "demo_session [] ?d" demo_auth 3] by simp
qed

end
