(* ===== verification/Transport.thy ===== *)
theory Transport
  imports Adapters Auth Tenant_Isolation
begin

text \<open>
  The two transports: the REST handlers of \<open>dandori-api/src/lib.rs\<close> and the JSON-RPC server of
  \<open>dandori-mcp/src/lib.rs\<close>.  JSON text is parsed by \<open>serde_json\<close>, the parameter \<open>wire\<close>; HTTP and the
  line protocol around the handlers belong to the frameworks.
\<close>

section \<open>REST\<close>

record wire =
  wire_parse :: "string \<Rightarrow> json option"
  wire_error :: "string \<Rightarrow> string"

text \<open>What both servers hold: the policy of the issue service and the authenticator.\<close>

record 'k server =
  sv_leaf :: leaf
  sv_hashing :: hashing
  sv_wire :: wire
  sv_policy :: evaluator
  sv_jose :: "'k jose"
  sv_jwt :: "'k authenticator"

definition auth_context_of_claims :: "authenticated_claims \<Rightarrow> auth_context" where
  "auth_context_of_claims claims =
     \<lparr>auth_workspace_id = ac_workspace_id claims, auth_actor_id = ac_actor_id claims\<rparr>"

text \<open>The value of the \<open>authorization\<close> header, when there is one and it is visible ASCII.\<close>

definition auth_context_from_header ::
  "'k server \<Rightarrow> string option \<Rightarrow> (nat \<times> string) + auth_context" where
  "auth_context_from_header self authorization =
     and_then (ok_or (Option.bind authorization (strip_prefix ''Bearer ''))
                 (401, ''authentication failed'')) (\<lambda>token.
     and_then (map_err (\<lambda>error. (401, ''authentication failed''))
                 (authenticate_token (sv_leaf self) (sv_jose self) (sv_jwt self) token)) (\<lambda>claims.
     Ok (auth_context_of_claims claims)))"

definition transport_err :: "uuid \<Rightarrow> nat \<Rightarrow> string \<Rightarrow> string \<Rightarrow> nat \<times> 'a envelope" where
  "transport_err cid status code message =
     (status, EnvelopeErr \<lparr>ee_code = code, ee_message = message, ee_correlation_id = Some cid\<rparr>)"

text \<open>Reading a struct straight from text, a member that comes twice is an error.\<close>

definition request_from_slice :: "'k server \<Rightarrow> string \<Rightarrow> create_issue_request option" where
  "request_from_slice self body =
     Option.bind (wire_parse (sv_wire self) body) (\<lambda>j.
       if (case j of
             JObj members \<Rightarrow>
               \<not> distinct (filter (\<lambda>k. k \<in> set create_issue_request_fields) (map fst members))
           | _ \<Rightarrow> False)
       then None else create_issue_request_de (sv_leaf self) j)"

definition status_or_500 :: "nat \<Rightarrow> nat" where
  "status_or_500 status = (if 100 \<le> status \<and> status < 1000 then status else 500)"

definition rest_create_issue ::
  "'k server \<Rightarrow> uuid \<Rightarrow> service_draws \<Rightarrow> string option \<Rightarrow> string \<Rightarrow> session
    \<Rightarrow> (nat \<times> create_issue_response envelope) \<times> session" where
  "rest_create_issue self cid sd authorization body s =
     (case auth_context_from_header self authorization of
        Inl (status, message) \<Rightarrow> (transport_err cid status ''unauthorized'' message, s)
      | Inr auth \<Rightarrow>
          (case request_from_slice self body of
             None \<Rightarrow>
               (transport_err cid 422 ''invalid_payload''
                  (''invalid request payload: '' @ wire_error (sv_wire self) body), s)
           | Some request \<Rightarrow>
               let ((status_code, envelope), s') = handle_rest_create_issue (sv_leaf self)
                     (sv_hashing self) (sv_policy self) sd auth request s
               in ((status_or_500 status_code, envelope), s')))"

definition rest_get_issue ::
  "'k server \<Rightarrow> uuid \<Rightarrow> string option \<Rightarrow> string \<Rightarrow> session
    \<Rightarrow> (nat \<times> get_issue_response envelope) \<times> session" where
  "rest_get_issue self cid authorization issue_id s =
     (case auth_context_from_header self authorization of
        Inl (status, message) \<Rightarrow> (transport_err cid status ''unauthorized'' message, s)
      | Inr auth \<Rightarrow>
          (case uuid_parse (sv_leaf self) issue_id of
             Inl error \<Rightarrow>
               (transport_err cid 422 ''invalid_issue_id''
                  (''issue_id must be a valid UUID: '' @ error), s)
           | Inr issue_id \<Rightarrow>
               let ((status_code, envelope), s') =
                     handle_rest_get_issue (sv_leaf self) (sv_policy self) cid auth issue_id s
               in ((status_or_500 status_code, envelope), s')))"

section \<open>MCP\<close>

record json_rpc_request =
  jq_jsonrpc :: string
  jq_id :: json
  jq_method :: string
  jq_params :: json

record json_rpc_error =
  jx_code :: int
  jx_message :: string

record json_rpc_response =
  jp_jsonrpc :: string
  jp_id :: json
  jp_result :: "json option"
  jp_error :: "json_rpc_error option"

record tool_call_params =
  tc_name :: string
  tc_token :: string
  tc_arguments :: json

text \<open>The last field of both structs has \<open>#[serde(default)]\<close>: an array may leave it out.\<close>

fun de_fields_default :: "string list \<Rightarrow> json \<Rightarrow> json option list option" where
  "de_fields_default names (JArr vs) =
     (if length vs = length names then Some (map Some vs)
      else if Suc (length vs) = length names then Some (map Some vs @ [None])
      else None)"
| "de_fields_default names j = de_fields names j"

definition json_rpc_request_de :: "json \<Rightarrow> json_rpc_request option" where
  "json_rpc_request_de j =
     (case de_fields_default [''jsonrpc'', ''id'', ''method'', ''params''] j of
        Some [v1, v2, v3, v4] \<Rightarrow>
          Option.bind (de_required de_string v1) (\<lambda>x1.
          Option.bind (de_required Some v2) (\<lambda>x2.
          Option.bind (de_required de_string v3) (\<lambda>x3.
          Some \<lparr>jq_jsonrpc = x1, jq_id = x2, jq_method = x3,
                jq_params = (case v4 of None \<Rightarrow> JNull | Some v \<Rightarrow> v)\<rparr>)))
      | _ \<Rightarrow> None)"

definition tool_call_params_de :: "json \<Rightarrow> tool_call_params option" where
  "tool_call_params_de j =
     (case de_fields_default [''name'', ''token'', ''arguments''] j of
        Some [v1, v2, v3] \<Rightarrow>
          Option.bind (de_required de_string v1) (\<lambda>x1.
          Option.bind (de_required de_string v2) (\<lambda>x2.
          Some \<lparr>tc_name = x1, tc_token = x2,
                tc_arguments = (case v3 of None \<Rightarrow> JNull | Some v \<Rightarrow> v)\<rparr>))
      | _ \<Rightarrow> None)"

definition rpc_ok :: "json \<Rightarrow> json \<Rightarrow> json_rpc_response" where
  "rpc_ok request_id result =
     \<lparr>jp_jsonrpc = ''2.0'', jp_id = request_id, jp_result = Some result, jp_error = None\<rparr>"

definition rpc_error :: "json \<Rightarrow> int \<Rightarrow> string \<Rightarrow> json_rpc_response" where
  "rpc_error request_id code message =
     \<lparr>jp_jsonrpc = ''2.0'', jp_id = request_id, jp_result = None,
      jp_error = Some \<lparr>jx_code = code, jx_message = message\<rparr>\<rparr>"

definition invalid_request :: "json \<Rightarrow> string \<Rightarrow> json_rpc_response" where
  "invalid_request request_id message = rpc_error request_id (-32600) message"

definition method_not_found :: "json \<Rightarrow> string \<Rightarrow> json_rpc_response" where
  "method_not_found request_id method_name = rpc_error request_id (-32601) (''method not found: '' @ method_name)"

definition invalid_params :: "json \<Rightarrow> string \<Rightarrow> json_rpc_response" where
  "invalid_params request_id message = rpc_error request_id (-32602) message"

definition string_type :: json where
  "string_type = JObj [(''type'', JStr ''string'')]"

definition nullable_string :: json where
  "nullable_string = JArr [JStr ''string'', JStr ''null'']"

definition tools_list_payload :: json where
  "tools_list_payload = JObj [(''tools'', JArr
     [JObj [(''name'', JStr ''issue.create''),
            (''description'', JStr ''Create an issue in the authenticated workspace''),
            (''inputSchema'', JObj
              [(''type'', JStr ''object''),
               (''required'', JArr (map JStr [''idempotency_key'', ''project_id'', ''title'', ''priority''])),
               (''properties'', JObj
                 [(''idempotency_key'', string_type),
                  (''project_id'', JObj [(''type'', JStr ''string''), (''format'', JStr ''uuid'')]),
                  (''milestone_id'', JObj [(''type'', nullable_string), (''format'', JStr ''uuid'')]),
                  (''title'', string_type),
                  (''description'', JObj [(''type'', nullable_string)]),
                  (''priority'', JObj [(''type'', JStr ''string''),
                     (''enum'', JArr (map JStr [''low'', ''medium'', ''high'', ''urgent'']))])])])],
      JObj [(''name'', JStr ''issue.get''),
            (''description'', JStr ''Get an issue from the authenticated workspace''),
            (''inputSchema'', JObj
              [(''type'', JStr ''object''),
               (''required'', JArr [JStr ''issue_id'']),
               (''properties'', JObj
                 [(''issue_id'', JObj [(''type'', JStr ''string''), (''format'', JStr ''uuid'')])])])]])]"

definition initialize_payload :: json where
  "initialize_payload = JObj
     [(''protocolVersion'', JStr ''2026-04-15''),
      (''serverInfo'', JObj [(''name'', JStr ''dandori-mcp''), (''version'', JStr ''0.1.0'')]),
      (''capabilities'', JObj [(''tools'', JObj [])])]"

definition handle_tool_call ::
  "'k server \<Rightarrow> uuid \<Rightarrow> service_draws \<Rightarrow> string \<Rightarrow> string \<Rightarrow> json \<Rightarrow> session \<Rightarrow> json envelope \<times> session"
where
  "handle_tool_call self cid sd tool_name token params s =
     (case authenticate_token (sv_leaf self) (sv_jose self) (sv_jwt self) token of
        Inl error \<Rightarrow>
          (EnvelopeErr \<lparr>ee_code = ''unauthorized'', ee_message = ''authentication failed'',
                        ee_correlation_id = Some cid\<rparr>, s)
      | Inr claims \<Rightarrow>
          let auth = auth_context_of_claims claims in
          if tool_name = ''issue.create'' then
            handle_mcp_create_issue (sv_leaf self) (sv_hashing self) (sv_policy self) sd auth params s
          else if tool_name = ''issue.get'' then
            handle_mcp_get_issue (sv_leaf self) (sv_policy self) cid auth params s
          else
            (EnvelopeErr \<lparr>ee_code = ''unknown_tool'',
                          ee_message = ''unknown MCP tool '' @ quoted tool_name,
                          ee_correlation_id = Some cid\<rparr>, s))"

definition handle_json_rpc ::
  "'k server \<Rightarrow> uuid \<Rightarrow> service_draws \<Rightarrow> json_rpc_request \<Rightarrow> session \<Rightarrow> json_rpc_response \<times> session" where
  "handle_json_rpc self cid sd request s =
     (let request_id = jq_id request; method_name = jq_method request in
      if jq_jsonrpc request \<noteq> ''2.0'' then
        (invalid_request request_id (''jsonrpc must be exactly '' @ quoted ''2.0''), s)
      else if method_name = ''initialize'' then (rpc_ok request_id initialize_payload, s)
      else if method_name = ''tools/list'' then (rpc_ok request_id tools_list_payload, s)
      else if method_name = ''tools/call'' then
        (case tool_call_params_de (jq_params request) of
           None \<Rightarrow>
             (invalid_params request_id
                (''invalid tools/call params: '' @ serde_err (sv_leaf self) (jq_params request)), s)
         | Some params \<Rightarrow>
             let (envelope, s') = handle_tool_call self cid sd (tc_name params) (tc_token params)
                                    (tc_arguments params) s
             in (rpc_ok request_id (JObj [(''envelope'', envelope_ser (sv_leaf self) (\<lambda>data. data) envelope)]), s'))
      else (method_not_found request_id method_name, s))"

text \<open>
  One line of the MCP server's loop: a blank line has no answer.  The text of a request that does not
  parse is answered under the null identifier.
\<close>

definition request_from_str :: "'k server \<Rightarrow> string \<Rightarrow> json_rpc_request option" where
  "request_from_str self line =
     Option.bind (wire_parse (sv_wire self) line) (\<lambda>j.
       if (case j of
             JObj members \<Rightarrow>
               \<not> distinct (filter (\<lambda>k. k \<in> {''jsonrpc'', ''id'', ''method'', ''params''}) (map fst members))
           | _ \<Rightarrow> False)
       then None else json_rpc_request_de j)"

definition serve_line ::
  "'k server \<Rightarrow> uuid \<Rightarrow> service_draws \<Rightarrow> string \<Rightarrow> session \<Rightarrow> json_rpc_response option \<times> session" where
  "serve_line self cid sd line s =
     (if blank line then (None, s)
      else case request_from_str self line of
             Some request \<Rightarrow>
               let (response, s') = handle_json_rpc self cid sd request s in (Some response, s')
           | None \<Rightarrow>
               (Some (invalid_request JNull
                  (''invalid JSON-RPC request: '' @ wire_error (sv_wire self) line)), s))"

definition json_rpc_response_ser :: "json_rpc_response \<Rightarrow> json" where
  "json_rpc_response_ser r = JObj
     ([(''jsonrpc'', JStr (jp_jsonrpc r)), (''id'', jp_id r)]
      @ (case jp_result r of None \<Rightarrow> [] | Some v \<Rightarrow> [(''result'', v)])
      @ (case jp_error r of
           None \<Rightarrow> []
         | Some e \<Rightarrow> [(''error'', JObj [(''code'', JInt (jx_code e)), (''message'', JStr (jx_message e))])]))"

lemma envelope_ser_value: "envelope_ser L (\<lambda>data. data) (envelope_value f e) = envelope_ser L f e"
  by (cases e) simp_all

lemma request_from_slice_ser:
  assumes "leaf_ok (sv_leaf self)"
    and "wire_parse (sv_wire self) body = Some (create_issue_request_ser (sv_leaf self) request)"
  shows "request_from_slice self body = Some request"
  using create_issue_request_de_ser [OF assms(1)]
  by (simp add: request_from_slice_def assms(2))
     (simp add: create_issue_request_ser_def create_issue_request_fields_def)

section \<open>A server to run\<close>

definition demo_server :: "nat server" where
  "demo_server =
     \<lparr>sv_leaf = bits_leaf, sv_hashing = demo_hashing,
      sv_wire = \<lparr>wire_parse = (\<lambda>body. Some (create_issue_request_ser bits_leaf demo_request)),
                 wire_error = (\<lambda>body. ''expected value'')\<rparr>,
      sv_policy = standard_policy, sv_jose = demo_jose,
      sv_jwt = \<lparr>au_issuer = ''iss'', au_audience = ''aud'', au_allowed_algorithms = [RS256],
                au_keyset = \<lparr>ks_keys = [(''k1'', \<lparr>je_decoding_key = 1, je_algorithm = Some RS256\<rparr>)],
                             ks_fallback_key = None\<rparr>\<rparr>\<rparr>"

lemma demo_server_fields [simp]:
  "sv_leaf demo_server = bits_leaf"
  "wire_parse (sv_wire demo_server) body = Some (create_issue_request_ser bits_leaf demo_request)"
  by (simp_all add: demo_server_def)

lemma demo_token:
  "auth_context_from_header demo_server (Some (''Bearer '' @ token)) = Ok demo_auth"
  by (simp add: auth_context_from_header_def authenticate_token_def demo_server_def demo_jose_def
      select_key_def guard_err_def leaf_uuid_parse [OF bits_leaf_ok] auth_context_of_claims_def
      demo_auth_def del: append.simps)

lemma demo_rest:
  "snd (rest_create_issue demo_server cid demo_service_draws (Some (''Bearer '' @ token)) body s)
   = snd (handle_rest_create_issue bits_leaf demo_hashing standard_policy demo_service_draws demo_auth
       demo_request s)"
  unfolding rest_create_issue_def demo_token
  using request_from_slice_ser [of demo_server body demo_request] bits_leaf_ok
  by (simp add: case_prod_beta) (simp add: demo_server_def)

section \<open>Both transports do the same\<close>

text \<open>
  C32: an issue is created alike over both transports: the same token and the same request as the body
  of a \<open>POST /v1/issues\<close> and as the arguments of the MCP tool \<open>issue.create\<close> leave the store in the
  same state, and the MCP result carries the very envelope REST answers with, errors included.
\<close>

theorem transports_agree:
  assumes "leaf_ok (sv_leaf self)"
    and "wire_parse (sv_wire self) body = Some (create_issue_request_ser (sv_leaf self) request)"
  shows "let ((status, envelope), s1) = rest_create_issue self cid sd (Some (''Bearer '' @ token)) body s;
             (response, s2) = handle_json_rpc self cid sd
               \<lparr>jq_jsonrpc = ''2.0'', jq_id = i, jq_method = ''tools/call'',
                jq_params = JObj [(''name'', JStr ''issue.create''), (''token'', JStr token),
                                  (''arguments'', create_issue_request_ser (sv_leaf self) request)]\<rparr> s
         in s2 = s1
            \<and> response = rpc_ok i (JObj [(''envelope'',
                envelope_ser (sv_leaf self) (create_issue_response_ser (sv_leaf self)) envelope)])"
proof (cases "authenticate_token (sv_leaf self) (sv_jose self) (sv_jwt self) token")
  case (Inl error)
  then show ?thesis
    by (simp add: rest_create_issue_def auth_context_from_header_def transport_err_def handle_json_rpc_def
        tool_call_params_de_def handle_tool_call_def Let_def del: append.simps)
next
  case (Inr claims)
  have h: "auth_context_from_header self (Some (''Bearer '' @ token)) = Ok (auth_context_of_claims claims)"
    using Inr by (simp add: auth_context_from_header_def del: append.simps)
  obtain status envelope s' where run: "handle_rest_create_issue (sv_leaf self) (sv_hashing self)
      (sv_policy self) sd (auth_context_of_claims claims) request s = ((status, envelope), s')"
    by (metis prod.exhaust)
  show ?thesis
    unfolding rest_create_issue_def h
    by (simp add: Inr request_from_slice_ser [OF assms] run handle_json_rpc_def tool_call_params_de_def
        handle_tool_call_def Let_def handle_mcp_create_issue_def create_issue_request_de_ser [OF assms(1)]
        envelope_ser_value)
qed

theorem transports_agree_witness:
  "snd (handle_json_rpc demo_server 5 demo_service_draws
       \<lparr>jq_jsonrpc = ''2.0'', jq_id = JInt 1, jq_method = ''tools/call'',
        jq_params = JObj [(''name'', JStr ''issue.create''), (''token'', JStr ''t''),
                          (''arguments'', create_issue_request_ser bits_leaf demo_request)]\<rparr>
       (demo_session [] demo_db))
   = snd (rest_create_issue demo_server 5 demo_service_draws (Some (''Bearer '' @ ''t'')) [] (demo_session [] demo_db))"
  using transports_agree [of demo_server "[]" demo_request 5 demo_service_draws "''t''" "demo_session [] demo_db" "JInt 1"]
    bits_leaf_ok
  by (simp add: case_prod_beta Let_def del: append.simps)

section \<open>No effect without a verified token\<close>

text \<open>
  C9: a request over REST changes the database only with a bearer token that authenticates, and then
  only rows of the workspace in the token's verified claims: every table of every other tenant stays
  as it was, whatever the body asks for.
\<close>

theorem effect_needs_verified_token:
  assumes "rest_create_issue self cid sd authorization body s = (answer, s')"
    and "committed s' \<noteq> committed s"
  shows "\<exists>token claims. authorization = Some (''Bearer '' @ token)
    \<and> authenticate_token (sv_leaf self) (sv_jose self) (sv_jwt self) token = Ok claims
    \<and> (\<forall>w. w \<noteq> ac_workspace_id claims \<longrightarrow> tenant_view w (committed s') = tenant_view w (committed s))"
proof -
  obtain auth where auth: "auth_context_from_header self authorization = Ok auth"
    using assms by (cases "auth_context_from_header self authorization")
      (auto simp: rest_create_issue_def split: prod.splits)
  then obtain token claims where t: "authorization = Some (''Bearer '' @ token)"
    "authenticate_token (sv_leaf self) (sv_jose self) (sv_jwt self) token = Ok claims"
    "auth = auth_context_of_claims claims"
    by (auto simp: auth_context_from_header_def result_simps bind_eq_Some_conv strip_prefix_Some)
  obtain request where "s' = snd (handle_rest_create_issue (sv_leaf self) (sv_hashing self)
      (sv_policy self) sd auth request s)"
    using assms auth by (auto simp: rest_create_issue_def case_prod_beta split: option.splits)
  with assms(2) obtain c where "s' = snd (create_issue_transactional (sv_leaf self) (sd_store sd) auth c
      (event_of_command sd c) s)"
    by (cases "prepare_create (sv_leaf self) (sv_hashing self) (sv_policy self) sd auth request")
       (auto simp: handle_refused handle_prepared case_prod_beta)
  then have "tenant_view w (committed s') = tenant_view w (committed s)" if "w \<noteq> ac_workspace_id claims" for w
    using isolated_create_issue.isolated [of w auth] that t(3) by (simp add: auth_context_of_claims_def)
  with t show ?thesis by blast
qed

theorem effect_needs_verified_token_witness:
  "\<exists>claims. authenticate_token bits_leaf demo_jose (sv_jwt demo_server) ''t'' = Ok claims
     \<and> tenant_view 5 (committed (snd (rest_create_issue demo_server 5 demo_service_draws
          (Some (''Bearer '' @ ''t'')) [] (demo_session [] demo_db)))) = tenant_view 5 demo_db"
proof -
  let ?r = "rest_create_issue demo_server 5 demo_service_draws (Some (''Bearer '' @ ''t'')) [] (demo_session [] demo_db)"
  have ne: "committed (snd ?r) \<noteq> committed (demo_session [] demo_db)"
    unfolding demo_rest using demo_service_run(1) by simp
  obtain answer s' where run: "?r = (answer, s')" by (cases ?r)
  from effect_needs_verified_token [OF run ne [unfolded run snd_conv]] obtain token claims where
    t: "Some (''Bearer '' @ ''t'') = Some (''Bearer '' @ token)"
    "authenticate_token bits_leaf (sv_jose demo_server) (sv_jwt demo_server) token = Ok claims"
    "\<forall>w. w \<noteq> ac_workspace_id claims \<longrightarrow> tenant_view w (committed s') = tenant_view w demo_db"
    by auto
  have "auth_context_of_claims claims = demo_auth"
    using demo_token [of token] t(2) by (simp add: auth_context_from_header_def del: append.simps)
  then have "ac_workspace_id claims = 1" by (simp add: auth_context_of_claims_def demo_auth_def)
  moreover have "sv_jose demo_server = demo_jose" by (simp add: demo_server_def)
  ultimately show ?thesis using t unfolding run snd_conv by (auto intro!: exI [of _ claims])
qed

section \<open>Replies\<close>

text \<open>
  Every JSON-RPC reply is for version 2.0, carries the identifier of its request and exactly one
  of a result and an error; a request that is not a tool call leaves the store alone.
\<close>

theorem rpc_reply_well_formed:
  "let (response, s') = handle_json_rpc self cid sd request s in
     jp_id response = jq_id request \<and> jp_jsonrpc response = ''2.0''
     \<and> (jp_result response = None) = (jp_error response \<noteq> None)
     \<and> (if jq_jsonrpc request = ''2.0'' \<and> jq_method request = ''tools/call'' then True else s' = s)"
  by (auto simp: handle_json_rpc_def rpc_ok_def rpc_error_def invalid_request_def invalid_params_def
      method_not_found_def Let_def split: option.splits prod.splits)

end
