(* ===== verification/Worker_Registry.thy ===== *)
theory Worker_Registry
  imports Outbox_Store
begin

text \<open>
  The event dispatcher of the outbox worker, \<open>worker/registry.rs\<close>: handlers keyed on event type and
  schema version, and the resolution of a message to a handler.  A handler is any value; its trait
  methods \<open>event_type\<close> and \<open>schema_version\<close> are the arguments \<open>et\<close> and \<open>sv\<close>.
\<close>

section \<open>The registry\<close>

type_synonym version = "32 word"

record 'h outbox_registry =
  by_key :: "(string \<times> version) \<rightharpoonup> 'h"
  by_type :: "string \<rightharpoonup> (version \<times> 'h) list"

definition OutboxRegistry_new :: "'h outbox_registry" where
  "OutboxRegistry_new = \<lparr>by_key = Map.empty, by_type = Map.empty\<rparr>"

definition register ::
  "('h \<Rightarrow> string) \<Rightarrow> ('h \<Rightarrow> version) \<Rightarrow> 'h outbox_registry \<Rightarrow> 'h \<Rightarrow> 'h outbox_registry" where
  "register et sv self handler =
     (let key = (et handler, sv handler);
          versions = (case by_type self (et handler) of None \<Rightarrow> [] | Some versions \<Rightarrow> versions);
          versions = sort_key fst (versions @ [(sv handler, handler)])
      in self\<lparr>by_key := (by_key self)(key \<mapsto> handler),
              by_type := (by_type self)(et handler \<mapsto> versions)\<rparr>)"

definition resolve :: "'h outbox_registry \<Rightarrow> string \<Rightarrow> version \<Rightarrow> 'h option" where
  "resolve self event_type schema_version =
     (case by_key self (event_type, schema_version) of
        Some exact \<Rightarrow> Some exact
      | None \<Rightarrow>
          (case by_type self event_type of
             None \<Rightarrow> None
           | Some versions \<Rightarrow>
               map_option snd (find (\<lambda>(version, _). version \<le> schema_version) (rev versions))))"

definition resolve_schema_version :: "outbox_message \<Rightarrow> version option" where
  "resolve_schema_version message =
     Option.bind (json_get (om_payload message) ''schema_version'') (\<lambda>v.
     Option.bind (as_u64 v) (\<lambda>v. if in_u32 v then Some (word_of_int v) else None))"

definition dispatch_version :: "outbox_message \<Rightarrow> version" where
  "dispatch_version message =
     (case resolve_schema_version message of None \<Rightarrow> 1 | Some version \<Rightarrow> version)"

text \<open>A registry is filled by registering handlers one after the other.\<close>

definition register_all ::
  "('h \<Rightarrow> string) \<Rightarrow> ('h \<Rightarrow> version) \<Rightarrow> 'h list \<Rightarrow> 'h outbox_registry" where
  "register_all et sv handlers = foldl (register et sv) OutboxRegistry_new handlers"

section \<open>Resolution picks the newest compatible handler\<close>

lemma stable_sort_snoc: "sort_key f (sort_key f xs @ [x]) = sort_key f (xs @ [x])"
proof (rule properties_for_sort_key)
  show "mset (sort_key f (xs @ [x])) = mset (sort_key f xs @ [x])" by simp
  have stable: "filter (\<lambda>y. c = f y) (sort_key f zs) = filter (\<lambda>y. c = f y) zs" for c zs
    using sort_key_stable [of f c zs] by (simp add: eq_commute [of c])
  show "filter (\<lambda>y. f k = f y) (sort_key f (xs @ [x])) = filter (\<lambda>y. f k = f y) (sort_key f xs @ [x])" for k
    by (simp only: stable filter_append)
  show "sorted (map f (sort_key f (xs @ [x])))" by simp
qed

lemma last_sort_key_max:
  assumes "xs \<noteq> []"
  shows "last (sort_key f xs) \<in> set xs" "y \<in> set xs \<Longrightarrow> f y \<le> f (last (sort_key f xs))"
proof -
  let ?s = "sort_key f xs"
  have ne: "?s \<noteq> []" using assms by (metis mset.simps(1) mset_sort mset_zero_iff)
  then show "last ?s \<in> set xs" using last_in_set [of ?s] by simp
  assume "y \<in> set xs"
  then have "y \<in> set ?s" by simp
  then obtain i where i: "i < length ?s" "?s ! i = y" unfolding in_set_conv_nth by blast
  have "map f ?s ! i \<le> map f ?s ! (length ?s - 1)"
    by (rule sorted_nth_mono [OF sorted_sort_key]) (use i ne in auto)
  then show "f y \<le> f (last ?s)" using i ne by (simp add: last_conv_nth)
qed

lemma last_sort_key_stable:
  assumes "xs \<noteq> []" "k = f (last (sort_key f xs))"
  shows "last (sort_key f xs) = last (filter (\<lambda>x. f x = k) xs)"
proof -
  let ?s = "sort_key f xs"
  have ne: "?s \<noteq> []" using assms by (metis mset.simps(1) mset_sort mset_zero_iff)
  have "last (filter (\<lambda>x. f x = k) ?s) = last ?s"
    using ne assms(2) by (cases ?s rule: rev_cases) auto
  moreover have "filter (\<lambda>x. f x = k) ?s = filter (\<lambda>x. f x = k) xs"
    by (rule sort_key_stable)
  ultimately show ?thesis by simp
qed

lemma find_rev: "find P (rev xs) = (if filter P xs = [] then None else Some (last (filter P xs)))"
  by (induction xs rule: rev_induct) auto

lemma register_all_snoc: "register_all et sv (hs @ [h]) = register et sv (register_all et sv hs) h"
  by (simp add: register_all_def)

lemma by_key_register_all:
  "by_key (register_all et sv hs) (t, v) =
     (let c = filter (\<lambda>h. et h = t \<and> sv h = v) hs in if c = [] then None else Some (last c))"
  by (induction hs rule: rev_induct)
     (auto simp: register_all_snoc register_def Let_def, auto simp: register_all_def OutboxRegistry_new_def)

lemma by_type_register_all:
  "by_type (register_all et sv hs) t =
     (let c = filter (\<lambda>h. et h = t) hs in
      if c = [] then None else Some (sort_key fst (map (\<lambda>h. (sv h, h)) c)))"
proof (induction hs rule: rev_induct)
  case Nil
  then show ?case by (simp add: register_all_def OutboxRegistry_new_def)
next
  case (snoc h hs)
  then show ?case
    using stable_sort_snoc [of fst "map (\<lambda>h. (sv h, h)) (filter (\<lambda>h. et h = t) hs)" "(sv h, h)"]
    by (auto simp: register_all_snoc register_def Let_def)
qed

lemma insort_pairs: "insort_key fst (g x, x) (map (\<lambda>h. (g h, h)) ys) = map (\<lambda>h. (g h, h)) (insort_key g x ys)"
  by (induction ys) simp_all

lemma sort_key_pairs: "sort_key fst (map (\<lambda>h. (g h, h)) xs) = map (\<lambda>h. (g h, h)) (sort_key g xs)"
  by (induction xs) (simp_all add: insort_pairs)

lemma sort_key_empty_iff: "sort_key f xs = [] \<longleftrightarrow> xs = []"
  by (metis mset_sort mset_zero_iff)

text \<open>
  Over a registry filled by any sequence of registrations, a message resolves to the handler of
  its event type with the highest version not above the message's, the last registered one among
  equals; it resolves to none exactly when no handler of its type has such a version.
\<close>

theorem resolve_exact:
  "resolve (register_all et sv hs) t v =
     (let compatible = filter (\<lambda>h. et h = t \<and> sv h \<le> v) hs in
      if compatible = [] then None else Some (last (sort_key sv compatible)))"
proof -
  let ?t = "filter (\<lambda>h. et h = t) hs"
  let ?c = "filter (\<lambda>h. et h = t \<and> sv h \<le> v) hs"
  let ?e = "filter (\<lambda>h. et h = t \<and> sv h = v) hs"
  have cc: "filter (\<lambda>h. sv h \<le> v) ?t = ?c" by (simp add: conj_commute)
  show ?thesis
  proof (cases "?e = []")
    case False
    then have ce: "?c \<noteq> []" by (auto simp: filter_empty_conv)
    obtain h where "h \<in> set ?e" using False by (meson last_in_set)
    with last_sort_key_max(2) [OF ce, of h sv] last_sort_key_max(1) [OF ce, of sv]
    have "sv (last (sort_key sv ?c)) = v" by auto
    then have "last (sort_key sv ?c) = last (filter (\<lambda>h. sv h = v) ?c)"
      using last_sort_key_stable [OF ce refl, of sv] by simp
    also have "filter (\<lambda>h. sv h = v) ?c = ?e" by (auto intro: filter_cong)
    finally show ?thesis using False ce by (simp add: resolve_def by_key_register_all Let_def)
  next
    case True
    show ?thesis
    proof (cases "?t = []")
      case True
      then have "?c = []" by (auto simp: filter_empty_conv)
      with True \<open>?e = []\<close> show ?thesis
        by (simp add: resolve_def by_key_register_all by_type_register_all Let_def)
    next
      case False
      have "filter (\<lambda>(version, _). version \<le> v) (sort_key fst (map (\<lambda>h. (sv h, h)) ?t))
          = map (\<lambda>h. (sv h, h)) (sort_key sv ?c)"
        using cc by (simp add: sort_key_pairs filter_map filter_sort comp_def)
      with False True show ?thesis
        by (simp add: resolve_def by_key_register_all by_type_register_all Let_def find_rev last_map
            sort_key_empty_iff)
    qed
  qed
qed

text \<open>A version that is present but no 32-bit number is taken for version 1, like a missing one.\<close>

lemma unreadable_version_is_v1:
  "om_payload message = JObj [(''schema_version'', JStr v)] \<Longrightarrow> dispatch_version message = 1"
  by (simp add: dispatch_version_def resolve_schema_version_def)

end
