(* ===== verification/Worker_Publish.thy ===== *)
theory Worker_Publish
  imports Worker_Registry App_Service Partition_Store
begin

text \<open>
  The worker's configuration (\<open>worker/config.rs\<close>) and its publishers (\<open>worker/publish.rs\<close>): the HTTP
  publisher with its circuit breaker, the no-op publisher, the retry delay.  A publication is two
  steps, before and after the request is on the network, so that concurrent publications interleave
  on the breaker; the network's answer is an argument of the second step.
\<close>

section \<open>Configuration\<close>

record worker_config =
  wc_workspace_ids :: "uuid list option"
  wc_worker_instance_id :: uuid
  wc_batch_size :: int
  wc_lease_seconds :: int
  wc_max_attempts :: int
  wc_retry_backoff_seconds :: int
  wc_delivered_retention_hours :: int
  wc_dead_letter_retention_hours :: int
  wc_idempotency_retention_hours :: int
  wc_publish_concurrency :: nat
  wc_http_connect_timeout_ms :: nat
  wc_http_request_timeout_ms :: nat
  wc_http_pool_max_idle_per_host :: nat
  wc_retry_jitter_ms :: nat
  wc_circuit_failure_threshold :: "32 word"
  wc_circuit_cooldown_seconds :: int
  wc_partition_batch :: nat
  wc_partition_lease_seconds :: int
  wc_partition_shard_buckets :: shard_bucket_range
  wc_tenant_max_concurrency :: nat

definition worker_config_default :: worker_config where
  "worker_config_default =
     \<lparr>wc_workspace_ids = None, wc_worker_instance_id = 0, wc_batch_size = 32, wc_lease_seconds = 30,
      wc_max_attempts = 5, wc_retry_backoff_seconds = 15, wc_delivered_retention_hours = 24,
      wc_dead_letter_retention_hours = 168, wc_idempotency_retention_hours = 168,
      wc_publish_concurrency = 8, wc_http_connect_timeout_ms = 2000,
      wc_http_request_timeout_ms = 10000, wc_http_pool_max_idle_per_host = 16,
      wc_retry_jitter_ms = 2000, wc_circuit_failure_threshold = 10,
      wc_circuit_cooldown_seconds = 30, wc_partition_batch = 64, wc_partition_lease_seconds = 60,
      wc_partition_shard_buckets = ShardBucketRange_full, wc_tenant_max_concurrency = 8\<rparr>"

record worker_report =
  wr_leased :: nat
  wr_delivered :: nat
  wr_failed :: nat
  wr_dead_lettered :: nat
  wr_cleaned_outbox_rows :: nat
  wr_cleaned_idempotency_rows :: nat
  wr_tenant_failures :: nat

definition worker_report_default :: worker_report where
  "worker_report_default =
     \<lparr>wr_leased = 0, wr_delivered = 0, wr_failed = 0, wr_dead_lettered = 0,
      wr_cleaned_outbox_rows = 0, wr_cleaned_idempotency_rows = 0, wr_tenant_failures = 0\<rparr>"

section \<open>Publish errors\<close>

datatype publish_error_kind = TransientKind | PermanentKind | UnsupportedKind | SerializationKind

fun kind_debug :: "publish_error_kind \<Rightarrow> string" where
  "kind_debug TransientKind = ''Transient''"
| "kind_debug PermanentKind = ''Permanent''"
| "kind_debug UnsupportedKind = ''Unsupported''"
| "kind_debug SerializationKind = ''Serialization''"

fun is_transient :: "publish_error_kind \<Rightarrow> bool" where
  "is_transient TransientKind = True"
| "is_transient _ = False"

record publish_error =
  pe_kind :: publish_error_kind
  pe_message :: string

type_synonym publish_result = "publish_error + unit"

definition publish_err :: "publish_error_kind \<Rightarrow> string \<Rightarrow> publish_result" where
  "publish_err kind message = Err \<lparr>pe_kind = kind, pe_message = message\<rparr>"

section \<open>The HTTP publisher\<close>

record http_publisher =
  hp_endpoint :: string
  hp_failure_threshold :: "32 word"
  hp_cooldown_seconds :: int

record breaker =
  consecutive_failures :: "32 word"
  circuit_open_until_epoch :: int

definition HttpOutboxPublisher_new :: "string \<Rightarrow> worker_config \<Rightarrow> http_publisher \<times> breaker" where
  "HttpOutboxPublisher_new endpoint config =
     (\<lparr>hp_endpoint = endpoint, hp_failure_threshold = wc_circuit_failure_threshold config,
       hp_cooldown_seconds = wc_circuit_cooldown_seconds config\<rparr>,
      \<lparr>consecutive_failures = 0, circuit_open_until_epoch = 0\<rparr>)"

definition breaker_open :: "breaker \<Rightarrow> int \<Rightarrow> bool" where
  "breaker_open b now_epoch \<longleftrightarrow> now_epoch < circuit_open_until_epoch b"

definition record_success :: "breaker \<Rightarrow> breaker" where
  "record_success b = b\<lparr>consecutive_failures := 0, circuit_open_until_epoch := 0\<rparr>"

text \<open>\<open>fetch_add(1) + 1\<close> on a \<open>u32\<close>, wrapping as a release build does.\<close>

definition record_transient_failure :: "http_publisher \<Rightarrow> int \<Rightarrow> breaker \<Rightarrow> breaker" where
  "record_transient_failure p now_epoch b =
     (if hp_failure_threshold p = 0 then b
      else
        let next = consecutive_failures b + 1;
            b' = b\<lparr>consecutive_failures := consecutive_failures b + 1\<rparr>
        in if hp_failure_threshold p \<le> next
           then b'\<lparr>circuit_open_until_epoch := saturating_add_i64 now_epoch (hp_cooldown_seconds p)\<rparr>
           else b')"

text \<open>
  What the network answers: no response, or a status with a body, which may itself fail to arrive.
\<close>

datatype http_response = SendFailed string | Responded nat "string option"

definition is_success :: "nat \<Rightarrow> bool" where "is_success status \<longleftrightarrow> 200 \<le> status \<and> status < 300"
definition is_server_error :: "nat \<Rightarrow> bool" where "is_server_error status \<longleftrightarrow> 500 \<le> status \<and> status < 600"

definition publish_request :: "leaf \<Rightarrow> outbox_message \<Rightarrow> issue_created_event \<Rightarrow> json" where
  "publish_request L message event = JObj
     [(''event_type'', JStr (event_type_as_str IssueCreatedV1)),
      (''event_id'', ser_uuid L (om_event_id message)),
      (''workspace_id'', ser_uuid L (om_workspace_id message)),
      (''event'', issue_created_ser L event)]"

text \<open>The text of a status, e.g. \<open>503 Service Unavailable\<close>, is the argument \<open>status_text\<close>.\<close>

definition rejected_message :: "(nat \<Rightarrow> string) \<Rightarrow> nat \<Rightarrow> string option \<Rightarrow> string" where
  "rejected_message status_text status body =
     ''http publish rejected with status '' @ status_text status @ '': ''
       @ (case body of None \<Rightarrow> [] | Some text \<Rightarrow> text)"

definition http_finish ::
  "(nat \<Rightarrow> string) \<Rightarrow> http_publisher \<Rightarrow> int \<Rightarrow> http_response \<Rightarrow> breaker \<Rightarrow> publish_result \<times> breaker" where
  "http_finish status_text p now_epoch response b =
     (case response of
        SendFailed error \<Rightarrow>
          (publish_err TransientKind (''http publish request failed: '' @ error),
           record_transient_failure p now_epoch b)
      | Responded status body \<Rightarrow>
          if is_success status then (Ok (), record_success b)
          else if is_server_error status then
            (publish_err TransientKind (rejected_message status_text status body),
             record_transient_failure p now_epoch b)
          else
            (publish_err PermanentKind (rejected_message status_text status body),
             record_success b))"

text \<open>Before the network: refused by an open breaker, or the request to send.\<close>

definition http_begin ::
  "leaf \<Rightarrow> http_publisher \<Rightarrow> int \<Rightarrow> breaker \<Rightarrow> outbox_message \<Rightarrow> issue_created_event
    \<Rightarrow> publish_result + (string \<times> json)" where
  "http_begin L p now_epoch b message event =
     (if breaker_open b now_epoch
      then Inl (publish_err TransientKind ''circuit breaker open; skipping remote call'')
      else Inr (hp_endpoint p, publish_request L message event))"

datatype publisher = HttpPublisher http_publisher | NoopPublisher

section \<open>Handlers\<close>

datatype outbox_handler = IssueCreatedV1Handler

fun handler_event_type :: "outbox_handler \<Rightarrow> string" where
  "handler_event_type IssueCreatedV1Handler = event_type_as_str IssueCreatedV1"

fun handler_schema_version :: "outbox_handler \<Rightarrow> version" where
  "handler_schema_version IssueCreatedV1Handler = 1"

type_synonym registry = "outbox_handler outbox_registry"

definition default_registry :: registry where
  "default_registry =
     register handler_event_type handler_schema_version OutboxRegistry_new IssueCreatedV1Handler"

text \<open>
  The first part of \<open>handle\<close> and of \<open>dispatch\<close>: everything up to the network.  Either the
  publication is over, or a request is on its way.
\<close>

fun handle_begin ::
  "leaf \<Rightarrow> publisher \<Rightarrow> int \<Rightarrow> breaker \<Rightarrow> outbox_handler \<Rightarrow> outbox_message
    \<Rightarrow> publish_result + (string \<times> json)" where
  "handle_begin L publisher now_epoch b IssueCreatedV1Handler message =
     (case issue_created_de L (om_payload message) of
        None \<Rightarrow>
          Inl (publish_err SerializationKind
            (''failed to deserialize issue.created payload: '' @ serde_err L (om_payload message)))
      | Some event \<Rightarrow>
          (case publisher of
             NoopPublisher \<Rightarrow> Inl (Ok ())
           | HttpPublisher p \<Rightarrow> http_begin L p now_epoch b message event))"

definition dispatch_begin ::
  "leaf \<Rightarrow> registry \<Rightarrow> publisher \<Rightarrow> int \<Rightarrow> breaker \<Rightarrow> outbox_message
    \<Rightarrow> publish_result + (string \<times> json)" where
  "dispatch_begin L registry publisher now_epoch b message =
     (let version = dispatch_version message in
      case resolve registry (om_event_type message) version of
        None \<Rightarrow>
          Inl (publish_err UnsupportedKind
            (''no handler registered for event_type='' @ om_event_type message
             @ '' schema_version='' @ show_nat (unat version)))
      | Some handler \<Rightarrow> handle_begin L publisher now_epoch b handler message)"

lemma noop_sends_nothing: "dispatch_begin L registry NoopPublisher now_epoch b message \<noteq> Inr request"
proof -
  have "handle_begin L NoopPublisher now_epoch b handler message \<noteq> Inr request" for handler
    by (cases handler) (simp split: option.splits)
  then show ?thesis by (simp add: dispatch_begin_def Let_def split: option.splits)
qed

section \<open>Retry delay\<close>

text \<open>\<open>random_range(0..jitter_ms)\<close> is the argument \<open>roll\<close>, a number below \<open>jitter_ms\<close>.\<close>

definition retry_backoff_with_jitter :: "int \<Rightarrow> nat \<Rightarrow> nat \<Rightarrow> int" where
  "retry_backoff_with_jitter base_seconds jitter_ms roll =
     (let base = duration_seconds (max base_seconds 0) in
      if jitter_ms = 0 then base
      else base + duration_milliseconds (if in_i64 (int roll) then int roll else 0))"

lemma retry_backoff_bounds:
  assumes "0 \<le> base" "roll < jitter_ms" "jitter_ms < 2 ^ 63"
  shows "duration_seconds base \<le> retry_backoff_with_jitter base jitter_ms roll"
    "retry_backoff_with_jitter base jitter_ms roll < duration_seconds base + duration_milliseconds (int jitter_ms)"
  using assms
  by (auto simp: retry_backoff_with_jitter_def Let_def duration_milliseconds_def in_i64_def max_def)

section \<open>The circuit breaker\<close>

text \<open>The breaker after the answers to a sequence of requests, in the order they come in.\<close>

definition breaker_after ::
  "(nat \<Rightarrow> string) \<Rightarrow> http_publisher \<Rightarrow> (int \<times> http_response) list \<Rightarrow> breaker \<Rightarrow> breaker" where
  "breaker_after status_text p answers b =
     foldl (\<lambda>b (now_epoch, response). snd (http_finish status_text p now_epoch response b)) b answers"

fun failure_answer :: "http_response \<Rightarrow> bool" where
  "failure_answer (SendFailed error) = True"
| "failure_answer (Responded status body) \<longleftrightarrow> is_server_error status"

definition trailing_failures :: "(int \<times> http_response) list \<Rightarrow> nat" where
  "trailing_failures answers = length (takeWhile (failure_answer \<circ> snd) (rev answers))"

lemma http_finish_breaker:
  "snd (http_finish status_text p now_epoch response b) =
     (if failure_answer response then record_transient_failure p now_epoch b else record_success b)"
  by (cases response) (auto simp: http_finish_def is_success_def is_server_error_def)

lemma trailing_failures_le: "trailing_failures answers \<le> length answers"
  by (metis length_rev length_takeWhile_le trailing_failures_def)

lemma trailing_failures_snoc:
  "trailing_failures (answers @ [(t, r)]) = (if failure_answer r then Suc (trailing_failures answers) else 0)"
  by (simp add: trailing_failures_def)

lemma breaker_state:
  assumes "length answers < 2 ^ 32" "hp_failure_threshold p \<noteq> 0"
    "b = snd (HttpOutboxPublisher_new endpoint config)"
  shows "breaker_after status_text p answers b =
    \<lparr>consecutive_failures = of_nat (trailing_failures answers),
     circuit_open_until_epoch =
       (if unat (hp_failure_threshold p) \<le> trailing_failures answers
        then saturating_add_i64 (fst (last answers)) (hp_cooldown_seconds p) else 0)\<rparr>"
  using assms(1)
proof (induction answers rule: rev_induct)
  case Nil
  have "0 < unat (hp_failure_threshold p)" using assms(2) by (simp add: unat_gt_0)
  then show ?case
    by (simp add: breaker_after_def assms(3) HttpOutboxPublisher_new_def trailing_failures_def)
next
  case (snoc a answers)
  obtain t r where a: "a = (t, r)" by (cases a)
  have IH: "breaker_after status_text p answers b =
    \<lparr>consecutive_failures = of_nat (trailing_failures answers),
     circuit_open_until_epoch =
       (if unat (hp_failure_threshold p) \<le> trailing_failures answers
        then saturating_add_i64 (fst (last answers)) (hp_cooldown_seconds p) else 0)\<rparr>"
    using snoc by simp
  let ?n = "trailing_failures answers"
  have n: "Suc ?n < 2 ^ 32" using snoc.prems trailing_failures_le [of answers] by simp
  have nx: "unat (of_nat (Suc ?n) :: 32 word) = Suc ?n"
    using n by (simp add: unsigned_of_nat take_bit_nat_eq_self del: of_nat_Suc)
  have thr: "hp_failure_threshold p \<le> of_nat ?n + 1 \<longleftrightarrow> unat (hp_failure_threshold p) \<le> Suc ?n"
    using nx by (simp add: word_le_nat_alt add.commute)
  have run: "breaker_after status_text p (answers @ [a]) b =
      snd (http_finish status_text p t r (breaker_after status_text p answers b))"
    by (simp add: breaker_after_def a)
  have pos: "0 < unat (hp_failure_threshold p)" using assms(2) by (simp add: unat_gt_0)
  show ?case
    unfolding run http_finish_breaker IH
    using assms(2) thr pos
    by (auto simp: a trailing_failures_snoc record_transient_failure_def record_success_def Let_def)
qed

text \<open>
  C24: from a fresh publisher, after any sequence of answers the breaker refuses a request at an
  instant exactly when a threshold is set, that many requests in a row up to the last answer failed
  on the network or with a server error, and the cooldown from the last of them has not passed.
\<close>

theorem breaker_opens_exactly:
  assumes "length answers < 2 ^ 32" "0 \<le> now_epoch"
  shows "breaker_open (breaker_after status_text p answers (snd (HttpOutboxPublisher_new endpoint config)))
      now_epoch
    = (hp_failure_threshold p \<noteq> 0
       \<and> unat (hp_failure_threshold p) \<le> trailing_failures answers
       \<and> now_epoch < saturating_add_i64 (fst (last answers)) (hp_cooldown_seconds p))"
proof (cases "hp_failure_threshold p = 0")
  case True
  have "circuit_open_until_epoch (breaker_after status_text p answers
      (snd (HttpOutboxPublisher_new endpoint config))) = 0"
    by (induction answers rule: rev_induct)
       (auto simp: breaker_after_def HttpOutboxPublisher_new_def http_finish_breaker True
         record_transient_failure_def record_success_def)
  with True assms(2) show ?thesis by (simp add: breaker_open_def)
next
  case False
  with assms(2) show ?thesis
    by (simp add: breaker_state [OF assms(1) False refl] breaker_open_def)
qed

theorem breaker_opens_exactly_witness:
  "breaker_open (breaker_after (\<lambda>_. ''503'')
      (fst (HttpOutboxPublisher_new ''http://hook'' (worker_config_default\<lparr>wc_circuit_failure_threshold := 2\<rparr>)))
      [(100, Responded 503 None), (101, SendFailed ''refused'')]
      (snd (HttpOutboxPublisher_new ''http://hook'' worker_config_default))) 120"
  using breaker_opens_exactly [where answers = "[(100, Responded 503 None), (101, SendFailed ''refused'')]"
      and now_epoch = 120 and endpoint = "''http://hook''" and config = worker_config_default
      and p = "fst (HttpOutboxPublisher_new ''http://hook''
                 (worker_config_default\<lparr>wc_circuit_failure_threshold := 2\<rparr>))"
      and status_text = "\<lambda>_. ''503''"]
  by (simp add: HttpOutboxPublisher_new_def worker_config_default_def trailing_failures_def
      is_server_error_def saturating_add_i64_def)

section \<open>From the write path to the network\<close>

lemma leased_message:
  "outbox_message_of (leased_row now lease_until token owner (outbox_row_of L outbox_id c e t)) =
     Ok \<lparr>om_id = outbox_id, om_workspace_id = ci_workspace_id c, om_event_id = ice_event_id e,
         om_event_type = event_type_as_str IssueCreatedV1, om_aggregate_type = ''issue'',
         om_aggregate_id = ci_issue_id c, om_correlation_id = ci_command_id c,
         om_payload = issue_created_ser L e, om_attempts = 0, om_lease_token = token,
         om_lease_owner = owner, om_leased_until = lease_until\<rparr>"
  by (simp add: outbox_message_of_def leased_row_def outbox_row_of_def)

text \<open>
  The outbox row a command writes, once leased, is dispatched by the default registry to the
  handler of its event type, which reads back the very event of the command; with the breaker
  closed the worker sends exactly that event, with its identifiers, to the configured endpoint.
\<close>

theorem written_event_is_sent:
  assumes "leaf_ok L"
    and "outbox_message_of (leased_row now lease_until token owner (outbox_row_of L outbox_id c e t))
           = Ok message"
    and "\<not> breaker_open b now_epoch"
  shows "dispatch_begin L default_registry (HttpPublisher p) now_epoch b message =
    Inr (hp_endpoint p,
      JObj [(''event_type'', JStr ''issue.created.v1''), (''event_id'', JStr (uuid_str L (ice_event_id e))),
            (''workspace_id'', JStr (uuid_str L (ci_workspace_id c))), (''event'', issue_created_ser L e)])"
proof -
  have m: "om_payload message = issue_created_ser L e" "om_event_type message = ''issue.created.v1''"
    "om_event_id message = ice_event_id e" "om_workspace_id message = ci_workspace_id c"
    using assms(2) by (auto simp: leased_message)
  then show ?thesis
    using assms(3)
    by (simp add: dispatch_begin_def dispatch_version_def resolve_schema_version_def
        issue_created_no_schema_version default_registry_def register_def OutboxRegistry_new_def
        resolve_def issue_created_de_ser [OF assms(1)] http_begin_def publish_request_def ser_uuid_def)
qed

theorem written_event_is_sent_witness:
  "\<exists>message. outbox_message_of (leased_row 60 90 7 8 (outbox_row_of bits_leaf 24 demo_command demo_event 50))
       = Ok message
     \<and> is_ok (dispatch_begin bits_leaf default_registry
         (HttpPublisher \<lparr>hp_endpoint = ''http://hook'', hp_failure_threshold = 3, hp_cooldown_seconds = 30\<rparr>)
         61 \<lparr>consecutive_failures = 1, circuit_open_until_epoch = 0\<rparr> message)"
  using written_event_is_sent [OF bits_leaf_ok leased_message]
  by (auto simp: leased_message breaker_open_def)

end
