(* ===== verification/Worker_Service.thy ===== *)
theory Worker_Service
  imports Worker_Publish Store_Guarantees Tenant_Isolation
begin

text \<open>
  The outbox worker, \<open>worker/service.rs\<close>: the choice of the publisher, the acquisition of tenants, the
  tenant cycle (lease a batch, publish concurrently, settle every message, sweep) and one run over
  the assigned tenants.  Tenants, and the publications of one tenant, run concurrently: a cycle is a
  machine that advances by ticks, a tick being what the code does between two suspension points with
  what it then draws from its environment (clock, fresh UUIDs, the network's answer, the rows other
  transactions hold locked), and a run interleaves the ticks of its tenants in any order the stream
  combinators allow.
\<close>

section \<open>Choosing the publisher\<close>

definition allow_noop :: "string option \<Rightarrow> bool" where
  "allow_noop allow_noop_raw =
     (case allow_noop_raw of
        None \<Rightarrow> False
      | Some value \<Rightarrow> value = ''1'' \<or> eq_ignore_ascii_case value ''true'')"

text \<open>\<open>client_error\<close> is the error of the HTTP client's builder, if it has one.\<close>

definition with_publisher_selection ::
  "uuid \<Rightarrow> string option \<Rightarrow> worker_config \<Rightarrow> string option \<Rightarrow> string option
    \<Rightarrow> app_service_error + (publisher \<times> breaker)" where
  "with_publisher_selection cid client_error config publish_url allow_noop_raw =
     (case (publish_url, allow_noop allow_noop_raw) of
        (Some endpoint, _) \<Rightarrow>
          (case client_error of
             Some error \<Rightarrow>
               Err (AppServiceError_internal cid ''publisher_init_failed''
                      (''http client build failed: '' @ error))
           | None \<Rightarrow>
               let (p, b) = HttpOutboxPublisher_new endpoint config in Ok (HttpPublisher p, b))
      | (None, True) \<Rightarrow> Ok (NoopPublisher, \<lparr>consecutive_failures = 0, circuit_open_until_epoch = 0\<rparr>)
      | (None, False) \<Rightarrow>
          Err (AppServiceError_internal cid ''publisher_not_configured''
            ''DANDORI_OUTBOX_PUBLISH_URL is required unless DANDORI_OUTBOX_ALLOW_NOOP_PUBLISHER=1 is set (dev only)''))"

section \<open>The worker and a tenant's cycle\<close>

record worker_env =
  we_leaf :: leaf
  we_status_text :: "nat \<Rightarrow> string"
  we_config :: worker_config
  we_publisher :: publisher
  we_registry :: registry

type_synonym delivery = "outbox_message \<times> publish_result"

datatype tenant_phase =
    Leasing
  | Publishing "outbox_message list" "(outbox_message \<times> int) list" "delivery list"
  | Marking "delivery list"
  | CleaningOutbox
  | CleaningIdempotency
  | Finished "app_service_error option"

record tenant_state =
  ts_auth :: auth_context
  ts_phase :: tenant_phase
  ts_report :: worker_report

text \<open>
  The ticks.  Those that call the store carry the correlation identifier an error would get;
  \<open>AnswerTick i\<close> is the network's answer to the \<open>i\<close>-th request in flight.
\<close>

datatype tick =
    LeaseTick uuid "uuid set" uuid timestamp
  | BeginTick int
  | AnswerTick nat http_response
  | MarkTick uuid timestamp nat
  | CleanupOutboxTick uuid timestamp timestamp
  | CleanupIdempotencyTick uuid timestamp

definition map_store_worker_error :: "uuid \<Rightarrow> store_error \<Rightarrow> app_service_error" where
  "map_store_worker_error cid error = AppServiceError_internal cid ''worker_store_failed'' error"

definition failure_of ::
  "worker_config \<Rightarrow> timestamp \<Rightarrow> nat \<Rightarrow> outbox_message \<Rightarrow> publish_error \<Rightarrow> failure_context" where
  "failure_of config now roll message error =
     \<lparr>fc_classification = (if is_transient (pe_kind error) then Transient else Terminal),
      fc_lease_token = om_lease_token message, fc_lease_owner = om_lease_owner message,
      fc_now = now,
      fc_error_message = kind_debug (pe_kind error) @ '': '' @ pe_message error,
      fc_max_attempts = wc_max_attempts config,
      fc_retry_backoff =
        retry_backoff_with_jitter (wc_retry_backoff_seconds config) (wc_retry_jitter_ms config) roll\<rparr>"

definition apply_publish_outcome ::
  "worker_config \<Rightarrow> auth_context \<Rightarrow> timestamp \<Rightarrow> nat \<Rightarrow> delivery \<Rightarrow> worker_report \<Rightarrow> session
    \<Rightarrow> (store_error + worker_report) \<times> session" where
  "apply_publish_outcome config auth now roll delivery report s =
     (let (message, outcome) = delivery; previous_attempts = om_attempts message in
      case outcome of
        Inr _ \<Rightarrow>
          let (r, s') = mark_outbox_delivered auth (om_id message) (om_lease_token message)
                          (om_lease_owner message) now s
          in (map_ok (\<lambda>_. report\<lparr>wr_delivered := wr_delivered report + 1\<rparr>) r, s')
      | Inl error \<Rightarrow>
          let (r, s') = mark_outbox_failed auth (om_id message)
                          (failure_of config now roll message error) s;
              terminal = \<not> is_transient (pe_kind error);
              exhausted = (wc_max_attempts config \<le> wrap_i32 (previous_attempts + 1))
          in (map_ok (\<lambda>_. report\<lparr>wr_failed := wr_failed report + 1,
                 wr_dead_lettered := wr_dead_lettered report + (if terminal \<or> exhausted then 1 else 0)\<rparr>) r,
              s'))"

text \<open>A phase with nothing left to do gives way to the next one.\<close>

fun advance :: "tenant_phase \<Rightarrow> tenant_phase" where
  "advance (Publishing [] [] []) = CleaningOutbox"
| "advance (Publishing [] [] completed) = Marking completed"
| "advance (Marking []) = CleaningOutbox"
| "advance phase = phase"

text \<open>The store's answer to a call of the cycle: an error ends it.\<close>

definition continue_with ::
  "uuid \<Rightarrow> tenant_state \<Rightarrow> store_error + 'a \<Rightarrow> ('a \<Rightarrow> tenant_state) \<Rightarrow> tenant_state" where
  "continue_with cid ts result k =
     (case result of
        Inl error \<Rightarrow> ts\<lparr>ts_phase := Finished (Some (map_store_worker_error cid error))\<rparr>
      | Inr a \<Rightarrow> k a)"

definition remove_nth :: "nat \<Rightarrow> 'a list \<Rightarrow> 'a list" where
  "remove_nth i xs = take i xs @ drop (Suc i) xs"

type_synonym tenant_world = "tenant_state \<times> session \<times> breaker"

definition lease_tick ::
  "worker_env \<Rightarrow> uuid \<Rightarrow> uuid set \<Rightarrow> uuid \<Rightarrow> timestamp \<Rightarrow> tenant_world \<Rightarrow> tenant_world" where
  "lease_tick env cid locked token now w =
     (let (ts, s, b) = w; config = we_config env; report = ts_report ts;
          (r, s') = lease_outbox_batch locked token (ts_auth ts) now
                      (duration_seconds (wc_lease_seconds config)) (wc_batch_size config) s
      in (continue_with cid ts r (\<lambda>leased.
            ts\<lparr>ts_phase := advance (Publishing leased [] []),
               ts_report := report\<lparr>wr_leased := wr_leased report + length leased\<rparr>\<rparr>), s', b))"

definition begin_tick ::
  "worker_env \<Rightarrow> int \<Rightarrow> outbox_message list \<Rightarrow> (outbox_message \<times> int) list \<Rightarrow> delivery list
    \<Rightarrow> tenant_world \<Rightarrow> tenant_world" where
  "begin_tick env now_epoch waiting flying completed w =
     (let (ts, s, b) = w in
      case waiting of
        [] \<Rightarrow> w
      | message # rest \<Rightarrow>
          if length flying < max (wc_publish_concurrency (we_config env)) 1 then
            (case dispatch_begin (we_leaf env) (we_registry env) (we_publisher env) now_epoch b message of
               Inl outcome \<Rightarrow>
                 (ts\<lparr>ts_phase := advance (Publishing rest flying (completed @ [(message, outcome)]))\<rparr>, s, b)
             | Inr request \<Rightarrow>
                 (ts\<lparr>ts_phase := Publishing rest (flying @ [(message, now_epoch)]) completed\<rparr>, s, b))
          else w)"

definition answer_tick ::
  "worker_env \<Rightarrow> nat \<Rightarrow> http_response \<Rightarrow> outbox_message list \<Rightarrow> (outbox_message \<times> int) list
    \<Rightarrow> delivery list \<Rightarrow> tenant_world \<Rightarrow> tenant_world" where
  "answer_tick env i response waiting flying completed w =
     (let (ts, s, b) = w in
      case we_publisher env of
        NoopPublisher \<Rightarrow> w
      | HttpPublisher p \<Rightarrow>
          if i < length flying then
            let (message, now_epoch) = flying ! i;
                (outcome, b') = http_finish (we_status_text env) p now_epoch response b
            in (ts\<lparr>ts_phase := advance (Publishing waiting (remove_nth i flying)
                       (completed @ [(message, outcome)]))\<rparr>, s, b')
          else w)"

definition mark_tick ::
  "worker_env \<Rightarrow> uuid \<Rightarrow> timestamp \<Rightarrow> nat \<Rightarrow> delivery list \<Rightarrow> tenant_world \<Rightarrow> tenant_world" where
  "mark_tick env cid now roll completed w =
     (let (ts, s, b) = w in
      case completed of
        [] \<Rightarrow> w
      | delivery # rest \<Rightarrow>
          let (r, s') = apply_publish_outcome (we_config env) (ts_auth ts) now roll delivery (ts_report ts) s
          in (continue_with cid ts r (\<lambda>report'.
                ts\<lparr>ts_phase := advance (Marking rest), ts_report := report'\<rparr>), s', b))"

definition cleanup_outbox_tick ::
  "worker_env \<Rightarrow> uuid \<Rightarrow> timestamp \<Rightarrow> timestamp \<Rightarrow> tenant_world \<Rightarrow> tenant_world" where
  "cleanup_outbox_tick env cid now1 now2 w =
     (let (ts, s, b) = w; config = we_config env; report = ts_report ts;
          (r, s') = cleanup_outbox (ts_auth ts)
                      (now1 - duration_hours (wc_delivered_retention_hours config))
                      (now2 - duration_hours (wc_dead_letter_retention_hours config)) s
      in (continue_with cid ts r (\<lambda>n.
            ts\<lparr>ts_phase := CleaningIdempotency,
               ts_report := report\<lparr>wr_cleaned_outbox_rows := wr_cleaned_outbox_rows report + n\<rparr>\<rparr>),
          s', b))"

definition cleanup_idempotency_tick ::
  "worker_env \<Rightarrow> uuid \<Rightarrow> timestamp \<Rightarrow> tenant_world \<Rightarrow> tenant_world" where
  "cleanup_idempotency_tick env cid now w =
     (let (ts, s, b) = w; report = ts_report ts;
          (r, s') = cleanup_idempotency (ts_auth ts)
                      (now - duration_hours (wc_idempotency_retention_hours (we_config env))) s
      in (continue_with cid ts r (\<lambda>n.
            ts\<lparr>ts_phase := Finished None,
               ts_report := report\<lparr>wr_cleaned_idempotency_rows :=
                              wr_cleaned_idempotency_rows report + n\<rparr>\<rparr>), s', b))"

definition tenant_tick :: "worker_env \<Rightarrow> tick \<Rightarrow> tenant_world \<Rightarrow> tenant_world" where
  "tenant_tick env t w =
     (case (ts_phase (fst w), t) of
        (Leasing, LeaseTick cid locked token now) \<Rightarrow> lease_tick env cid locked token now w
      | (Publishing waiting flying completed, BeginTick now_epoch) \<Rightarrow>
          begin_tick env now_epoch waiting flying completed w
      | (Publishing waiting flying completed, AnswerTick i response) \<Rightarrow>
          answer_tick env i response waiting flying completed w
      | (Marking completed, MarkTick cid now roll) \<Rightarrow> mark_tick env cid now roll completed w
      | (CleaningOutbox, CleanupOutboxTick cid now1 now2) \<Rightarrow> cleanup_outbox_tick env cid now1 now2 w
      | (CleaningIdempotency, CleanupIdempotencyTick cid now) \<Rightarrow> cleanup_idempotency_tick env cid now w
      | _ \<Rightarrow> w)"

text \<open>Which of these a tick is.\<close>

lemma tenant_tick_cases:
  obtains (idle) "tenant_tick env t w = w"
  | (lease) cid locked token now where
      "ts_phase (fst w) = Leasing" "tenant_tick env t w = lease_tick env cid locked token now w"
      "t = LeaseTick cid locked token now"
  | (send) now_epoch waiting flying completed where
      "ts_phase (fst w) = Publishing waiting flying completed"
      "tenant_tick env t w = begin_tick env now_epoch waiting flying completed w" "t = BeginTick now_epoch"
  | (answer) i response waiting flying completed where
      "ts_phase (fst w) = Publishing waiting flying completed"
      "tenant_tick env t w = answer_tick env i response waiting flying completed w" "t = AnswerTick i response"
  | (mark) cid now roll completed where
      "ts_phase (fst w) = Marking completed"
      "tenant_tick env t w = mark_tick env cid now roll completed w" "t = MarkTick cid now roll"
  | (sweep_outbox) cid now1 now2 where
      "ts_phase (fst w) = CleaningOutbox" "tenant_tick env t w = cleanup_outbox_tick env cid now1 now2 w"
      "t = CleanupOutboxTick cid now1 now2"
  | (sweep_idempotency) cid now where
      "ts_phase (fst w) = CleaningIdempotency"
      "tenant_tick env t w = cleanup_idempotency_tick env cid now w" "t = CleanupIdempotencyTick cid now"
  by (cases "ts_phase (fst w)"; cases t) (auto simp: tenant_tick_def)

definition start_tenant :: "worker_config \<Rightarrow> uuid \<Rightarrow> tenant_state" where
  "start_tenant config workspace_id =
     \<lparr>ts_auth = \<lparr>auth_workspace_id = workspace_id, auth_actor_id = wc_worker_instance_id config\<rparr>,
      ts_phase = Leasing, ts_report = worker_report_default\<rparr>"

definition run_tenant ::
  "worker_env \<Rightarrow> tick list \<Rightarrow> tenant_world \<Rightarrow> tenant_world" where
  "run_tenant env ticks w = foldl (\<lambda>w t. tenant_tick env t w) w ticks"

section \<open>A run over the assigned tenants\<close>

fun is_finished :: "tenant_phase \<Rightarrow> bool" where
  "is_finished (Finished outcome) = True"
| "is_finished _ = False"

definition running :: "tenant_state list \<Rightarrow> nat" where
  "running tss = length (filter (\<lambda>ts. ts_phase ts \<noteq> Leasing \<and> \<not> is_finished (ts_phase ts)) tss)"

text \<open>
  The documented behaviour of \<open>buffer_unordered\<close> of the futures crate, which is not part of the sources:
  it starts the futures in the order of the stream and keeps at most as many under way as it is given.
  The sources give it \<open>tenant_max_concurrency\<close>, at least 1 and at most 256, for the tenants and
  \<open>publish_concurrency\<close>, at least 1, for the publications of a batch (\<open>begin_tick\<close>).
\<close>

definition may_tick :: "worker_config \<Rightarrow> tenant_state list \<Rightarrow> nat \<Rightarrow> bool" where
  "may_tick config tss i \<longleftrightarrow>
     i < length tss
     \<and> (ts_phase (tss ! i) = Leasing \<longrightarrow>
          list_all (\<lambda>ts. ts_phase ts \<noteq> Leasing) (take i tss)
          \<and> running tss < min (max (wc_tenant_max_concurrency config) 1) 256)"

definition run_tick ::
  "worker_env \<Rightarrow> nat \<times> tick \<Rightarrow> tenant_state list \<times> session \<times> breaker
    \<Rightarrow> tenant_state list \<times> session \<times> breaker" where
  "run_tick env it w =
     (let (i, t) = it; (tss, s, b) = w in
      if may_tick (we_config env) tss i then
        let (ts', s', b') = tenant_tick env t (tss ! i, s, b) in (tss[i := ts'], s', b')
      else w)"

definition run_tenants ::
  "worker_env \<Rightarrow> (nat \<times> tick) list \<Rightarrow> tenant_state list \<times> session \<times> breaker
    \<Rightarrow> tenant_state list \<times> session \<times> breaker" where
  "run_tenants env ticks w = foldl (\<lambda>w it. run_tick env it w) w ticks"

definition add_outcome :: "worker_report \<Rightarrow> tenant_state \<Rightarrow> worker_report" where
  "add_outcome report ts =
     (case ts_phase ts of
        Finished None \<Rightarrow>
          let tr = ts_report ts in
          report\<lparr>wr_leased := wr_leased report + wr_leased tr,
                 wr_delivered := wr_delivered report + wr_delivered tr,
                 wr_failed := wr_failed report + wr_failed tr,
                 wr_dead_lettered := wr_dead_lettered report + wr_dead_lettered tr,
                 wr_cleaned_outbox_rows := wr_cleaned_outbox_rows report + wr_cleaned_outbox_rows tr,
                 wr_cleaned_idempotency_rows :=
                   wr_cleaned_idempotency_rows report + wr_cleaned_idempotency_rows tr\<rparr>
      | _ \<Rightarrow> report\<lparr>wr_tenant_failures := wr_tenant_failures report + 1\<rparr>)"

text \<open>The partitions the worker remembers, for their release, are the last acquired ones.\<close>

record worker_memory =
  mem_leased :: "uuid list"

definition acquire_workspaces ::
  "worker_config \<Rightarrow> uuid \<Rightarrow> timestamp \<Rightarrow> worker_memory \<times> session
    \<Rightarrow> (app_service_error + uuid list) \<times> worker_memory \<times> session" where
  "acquire_workspaces config cid now ms =
     (let (m, s) = ms in
      case wc_workspace_ids config of
        Some static_list \<Rightarrow> (Ok static_list, m, s)
      | None \<Rightarrow>
          let lease_until = now + duration_seconds (wc_partition_lease_seconds config);
              batch = int (wc_partition_batch config);
              (r, s') = acquire_partitions (wc_worker_instance_id config) now lease_until
                          (if in_i64 batch then batch else 2 ^ 63 - 1)
                          (wc_partition_shard_buckets config) s
          in case r of
               Inl error \<Rightarrow> (Err (map_store_worker_error cid error), m, s')
             | Inr partitions \<Rightarrow>
                 (Ok partitions, if partitions = [] then m else m\<lparr>mem_leased := partitions\<rparr>, s'))"

definition release_worker_partitions ::
  "worker_config \<Rightarrow> uuid \<Rightarrow> worker_memory \<times> session
    \<Rightarrow> (app_service_error + unit) \<times> worker_memory \<times> session" where
  "release_worker_partitions config cid ms =
     (let (m, s) = ms in
      if wc_workspace_ids config \<noteq> None \<or> mem_leased m = [] then (Ok (), m, s)
      else
        let (r, s') = release_partitions (wc_worker_instance_id config) (mem_leased m) s
        in (map_ok (\<lambda>_. ()) (map_err (map_store_worker_error cid) r), m\<lparr>mem_leased := []\<rparr>, s'))"

text \<open>
  One run, over a schedule of ticks: \<open>None\<close> when the schedule stops before every tenant is through.
\<close>

definition run_once ::
  "worker_env \<Rightarrow> uuid \<Rightarrow> timestamp \<Rightarrow> (nat \<times> tick) list \<Rightarrow> worker_memory \<times> session \<times> breaker
    \<Rightarrow> (app_service_error + worker_report) option \<times> worker_memory \<times> session \<times> breaker" where
  "run_once env cid now ticks msb =
     (let (m, s, b) = msb; (r, m', s') = acquire_workspaces (we_config env) cid now (m, s) in
      case r of
        Inl error \<Rightarrow> (Some (Err error), m', s', b)
      | Inr assigned \<Rightarrow>
          if assigned = [] then (Some (Ok worker_report_default), m', s', b)
          else
            let (tss, s'', b') =
                  run_tenants env ticks (map (start_tenant (we_config env)) assigned, s', b)
            in (if list_all (is_finished \<circ> ts_phase) tss
                then Some (Ok (foldl add_outcome worker_report_default tss)) else None,
                m', s'', b'))"

end
