(* ===== verification/Worker_Theorems.thy ===== *)
theory Worker_Theorems
  imports Worker_Service
begin

text \<open>
  What the worker guarantees under every interleaving of its tenants and publications and every
  fault schedule: it touches the store only through histories of its tenants' own calls, each leased
  message is dispatched once, its report adds up, and a failing tenant does not disturb another.
\<close>

section \<open>Counting\<close>

text \<open>The books of a tenant: what was leased is settled, or left to settle in its phase.\<close>

fun phase_left :: "tenant_phase \<Rightarrow> nat" where
  "phase_left (Publishing waiting flying completed) = length waiting + length flying + length completed"
| "phase_left (Marking rest) = length rest"
| "phase_left _ = 0"

fun books :: "tenant_phase \<Rightarrow> worker_report \<Rightarrow> bool" where
  "books (Finished (Some e)) r \<longleftrightarrow>
     wr_dead_lettered r \<le> wr_failed r \<and> wr_delivered r + wr_failed r \<le> wr_leased r"
| "books phase r \<longleftrightarrow>
     wr_dead_lettered r \<le> wr_failed r
     \<and> wr_leased r = wr_delivered r + wr_failed r + phase_left phase"

definition accounted :: "tenant_state \<Rightarrow> bool" where
  "accounted ts \<longleftrightarrow> books (ts_phase ts) (ts_report ts)"

lemma books_advance: "books (advance phase) r = books phase r"
  by (cases phase rule: advance.cases) auto

lemma books_failed: "books phase r \<Longrightarrow> books (Finished (Some e)) r"
  by (cases "(phase, r)" rule: books.cases) auto

lemma perform_all_simps:
  "perform_all L [] s = s" "perform_all L (c # cs) s = perform_all L cs (perform L c s)"
  "perform_all L (cs @ ds) s = perform_all L ds (perform_all L cs s)"
  by (simp_all add: perform_all_def)

text \<open>The calls a worker makes: it leases, settles and sweeps, and never writes issues.\<close>

fun worker_call :: "int \<Rightarrow> uuid set \<Rightarrow> store_call \<Rightarrow> bool" where
  "worker_call M tenants (LeaseBatchCall locked token auth now lease_for n) \<longleftrightarrow> auth_workspace_id auth \<in> tenants"
| "worker_call M tenants (MarkDeliveredCall auth i token owner now) \<longleftrightarrow> auth_workspace_id auth \<in> tenants"
| "worker_call M tenants (MarkFailedCall auth i f) \<longleftrightarrow>
     auth_workspace_id auth \<in> tenants \<and> fc_max_attempts f = M"
| "worker_call M tenants (CleanupOutboxCall auth t u) \<longleftrightarrow> auth_workspace_id auth \<in> tenants"
| "worker_call M tenants (CleanupIdempotencyCall auth t) \<longleftrightarrow> auth_workspace_id auth \<in> tenants"
| "worker_call M tenants (AcquirePartitionsCall w now until n b) \<longleftrightarrow> True"
| "worker_call M tenants _ \<longleftrightarrow> False"

text \<open>The calls of the worker of an environment: failures are reported under its own budget.\<close>

abbreviation own_call :: "worker_env \<Rightarrow> uuid set \<Rightarrow> store_call \<Rightarrow> bool" where
  "own_call env \<equiv> worker_call (wc_max_attempts (we_config env))"

lemma worker_call_mono: "worker_call M T c \<Longrightarrow> T \<subseteq> U \<Longrightarrow> worker_call M U c"
  by (cases c) auto

lemma apply_publish_outcome_call:
  obtains c where "snd (apply_publish_outcome config auth now roll delivery report s) = perform L c s"
    "worker_call (wc_max_attempts config) {auth_workspace_id auth} c"
proof -
  obtain message outcome where d: "delivery = (message, outcome)" by (cases delivery)
  show thesis
  proof (cases outcome)
    case (Inl error)
    then show thesis
      using that [of "MarkFailedCall auth (om_id message) (failure_of config now roll message error)"]
      by (simp add: d apply_publish_outcome_def Let_def case_prod_beta failure_of_def)
  next
    case (Inr u)
    then show thesis
      using that [of "MarkDeliveredCall auth (om_id message) (om_lease_token message)
          (om_lease_owner message) now"]
      by (simp add: d apply_publish_outcome_def Let_def case_prod_beta)
  qed
qed

text \<open>A tick makes at most one call to the store, on behalf of its own tenant.\<close>

lemma tenant_tick_store:
  assumes "tenant_tick env t (ts, s, b) = (ts', s', b')"
  shows "ts_auth ts' = ts_auth ts
    \<and> (s' = s \<or> (\<exists>c. s' = perform L c s \<and> own_call env {auth_workspace_id (ts_auth ts)} c))"
proof (cases rule: tenant_tick_cases [of env t "(ts, s, b)"])
  case idle
  with assms show ?thesis by simp
next
  case (lease cid locked token now)
  let ?c = "LeaseBatchCall locked token (ts_auth ts) now
      (duration_seconds (wc_lease_seconds (we_config env))) (wc_batch_size (we_config env))"
  have "ts_auth ts' = ts_auth ts \<and> s' = perform L ?c s"
    using assms lease(2) by (auto simp: lease_tick_def Let_def continue_with_def split: prod.splits sum.splits)
  then show ?thesis by (auto intro!: exI [of _ ?c])
next
  case (send now_epoch waiting flying completed)
  then show ?thesis
    using assms by (auto simp: begin_tick_def Let_def split: list.splits sum.splits if_splits)
next
  case (answer i response waiting flying completed)
  then show ?thesis
    using assms by (auto simp: answer_tick_def Let_def split: publisher.splits if_splits prod.splits)
next
  case (mark cid now roll completed)
  show ?thesis
  proof (cases completed)
    case Nil
    with mark assms show ?thesis by (simp add: mark_tick_def)
  next
    case (Cons delivery rest)
    obtain c where c: "snd (apply_publish_outcome (we_config env) (ts_auth ts) now roll delivery
        (ts_report ts) s) = perform L c s" "own_call env {auth_workspace_id (ts_auth ts)} c"
      by (rule apply_publish_outcome_call)
    have "ts_auth ts' = ts_auth ts \<and> s' = perform L c s"
      using assms mark(2) c(1) Cons
      by (auto simp: mark_tick_def Let_def continue_with_def split: prod.splits sum.splits)
    with c(2) show ?thesis by auto
  qed
next
  case (sweep_outbox cid now1 now2)
  let ?c = "CleanupOutboxCall (ts_auth ts)
      (now1 - duration_hours (wc_delivered_retention_hours (we_config env)))
      (now2 - duration_hours (wc_dead_letter_retention_hours (we_config env)))"
  have "ts_auth ts' = ts_auth ts \<and> s' = perform L ?c s"
    using assms sweep_outbox(2)
    by (auto simp: cleanup_outbox_tick_def Let_def continue_with_def split: prod.splits sum.splits)
  then show ?thesis by (auto intro!: exI [of _ ?c])
next
  case (sweep_idempotency cid now)
  let ?c = "CleanupIdempotencyCall (ts_auth ts)
      (now - duration_hours (wc_idempotency_retention_hours (we_config env)))"
  have "ts_auth ts' = ts_auth ts \<and> s' = perform L ?c s"
    using assms sweep_idempotency(2)
    by (auto simp: cleanup_idempotency_tick_def Let_def continue_with_def split: prod.splits sum.splits)
  then show ?thesis by (auto intro!: exI [of _ ?c])
qed

text \<open>The books of a tenant balance after every tick.\<close>

lemma length_remove_nth: "i < length xs \<Longrightarrow> Suc (length (remove_nth i xs)) = length xs"
  by (simp add: remove_nth_def)

lemma tenant_tick_accounted:
  assumes "accounted ts" "tenant_tick env t (ts, s, b) = (ts', s', b')"
  shows "accounted ts'"
proof (cases rule: tenant_tick_cases [of env t "(ts, s, b)"])
  case idle
  with assms show ?thesis by simp
next
  case (lease cid locked token now)
  then show ?thesis
    using assms
    by (auto simp: lease_tick_def Let_def continue_with_def books_failed books_advance accounted_def split: prod.splits sum.splits)
next
  case (send now_epoch waiting flying completed)
  then show ?thesis
    using assms
    by (auto simp: begin_tick_def Let_def books_advance accounted_def
        split: list.splits sum.splits if_splits)
next
  case (answer i response waiting flying completed)
  then show ?thesis
    using assms length_remove_nth [of i flying]
    by (auto simp: answer_tick_def Let_def books_advance accounted_def
        split: publisher.splits if_splits prod.splits)
next
  case (mark cid now roll completed)
  show ?thesis
  proof (cases completed)
    case Nil
    with mark assms show ?thesis by (simp add: mark_tick_def)
  next
    case (Cons delivery rest)
    then show ?thesis
      using assms mark
      by (auto simp: mark_tick_def Let_def continue_with_def books_failed books_advance
          apply_publish_outcome_def accounted_def result_simps
          split: prod.splits sum.splits)
  qed
next
  case (sweep_outbox cid now1 now2)
  then show ?thesis
    using assms
    by (auto simp: cleanup_outbox_tick_def Let_def continue_with_def books_failed accounted_def split: prod.splits sum.splits)
next
  case (sweep_idempotency cid now)
  then show ?thesis
    using assms
    by (auto simp: cleanup_idempotency_tick_def Let_def continue_with_def books_failed accounted_def split: prod.splits sum.splits)
qed

section \<open>Runs\<close>

text \<open>The tenants a run has, and whether their books balance, over a schedule of ticks.\<close>

lemma run_tick_step:
  assumes "run_tick env it (tss, s, b) = (tss', s', b')"
  shows "map ts_auth tss' = map ts_auth tss"
    "list_all accounted tss \<Longrightarrow> list_all accounted tss'"
    "\<exists>calls. s' = perform_all L calls s
       \<and> list_all (own_call env ((auth_workspace_id \<circ> ts_auth) ` set tss)) calls"
proof -
  obtain i t where it: "it = (i, t)" by (cases it)
  have "map ts_auth tss' = map ts_auth tss
    \<and> (list_all accounted tss \<longrightarrow> list_all accounted tss')
    \<and> (\<exists>calls. s' = perform_all L calls s
         \<and> list_all (own_call env ((auth_workspace_id \<circ> ts_auth) ` set tss)) calls)"
  proof (cases "may_tick (we_config env) tss i")
    case False
    then show ?thesis
      using assms by (auto simp: run_tick_def it intro!: exI [of _ "[]"] simp: perform_all_simps)
  next
    case True
    then have i: "i < length tss" by (simp add: may_tick_def)
    obtain ts' where run: "tenant_tick env t (tss ! i, s, b) = (ts', s', b')" "tss' = tss[i := ts']"
      using assms True by (auto simp: run_tick_def it split: prod.splits)
    note store = tenant_tick_store [OF run(1), of L]
    have "map ts_auth tss' = map ts_auth tss"
      using store i by (simp add: run(2) map_update list_update_same_conv [THEN iffD2])
    moreover have "list_all accounted tss'" if "list_all accounted tss"
      using tenant_tick_accounted [OF _ run(1)] that i
      by (auto simp: run(2) list_all_length nth_list_update)
    moreover have "\<exists>calls. s' = perform_all L calls s
        \<and> list_all (own_call env ((auth_workspace_id \<circ> ts_auth) ` set tss)) calls"
    proof (cases "s' = s")
      case True
      then show ?thesis by (auto intro!: exI [of _ "[]"] simp: perform_all_simps)
    next
      case False
      with store obtain c where "s' = perform L c s" "own_call env {auth_workspace_id (ts_auth (tss ! i))} c"
        by blast
      moreover have "{auth_workspace_id (ts_auth (tss ! i))} \<subseteq> (auth_workspace_id \<circ> ts_auth) ` set tss"
        using i by auto
      ultimately show ?thesis
        using worker_call_mono by (auto intro!: exI [of _ "[c]"] simp: perform_all_simps)
    qed
    ultimately show ?thesis by blast
  qed
  then show "map ts_auth tss' = map ts_auth tss"
    "list_all accounted tss \<Longrightarrow> list_all accounted tss'"
    "\<exists>calls. s' = perform_all L calls s
       \<and> list_all (own_call env ((auth_workspace_id \<circ> ts_auth) ` set tss)) calls" by blast+
qed

lemma run_tenants_steps:
  assumes "run_tenants env ticks (tss, s, b) = (tss', s', b')"
  shows "map ts_auth tss' = map ts_auth tss \<and> (list_all accounted tss \<longrightarrow> list_all accounted tss')
    \<and> (\<exists>calls. s' = perform_all L calls s
         \<and> list_all (own_call env ((auth_workspace_id \<circ> ts_auth) ` set tss)) calls)"
  using assms
proof (induction ticks arbitrary: tss s b)
  case Nil
  then show ?case by (auto simp: run_tenants_def perform_all_simps intro!: exI [of _ "[]"])
next
  case (Cons it ticks)
  obtain tss1 s1 b1 where step: "run_tick env it (tss, s, b) = (tss1, s1, b1)" by (cases "run_tick env it (tss, s, b)")
  note one = run_tick_step [OF step]
  have "run_tenants env ticks (tss1, s1, b1) = (tss', s', b')"
    using Cons.prems step by (simp add: run_tenants_def)
  note rest = Cons.IH [OF this]
  obtain c1 where c1: "s1 = perform_all L c1 s"
    "list_all (own_call env ((auth_workspace_id \<circ> ts_auth) ` set tss)) c1" using one(3) by blast
  obtain c2 where c2: "s' = perform_all L c2 s1"
    "list_all (own_call env ((auth_workspace_id \<circ> ts_auth) ` set tss1)) c2" using rest by blast
  have "(auth_workspace_id \<circ> ts_auth) ` set tss1 = (auth_workspace_id \<circ> ts_auth) ` set tss"
    using one(1) by (metis image_comp list.set_map)
  with c1 c2 have "s' = perform_all L (c1 @ c2) s"
    "list_all (own_call env ((auth_workspace_id \<circ> ts_auth) ` set tss)) (c1 @ c2)"
    by (simp_all add: perform_all_simps)
  with one rest show ?case by auto
qed

lemma started_accounted: "list_all accounted (map (start_tenant config) ids)"
  by (simp add: list_all_iff start_tenant_def accounted_def worker_report_default_def)

lemma started_tenants:
  "(auth_workspace_id \<circ> ts_auth) ` set (map (start_tenant config) ids) = set ids"
  by (auto simp: start_tenant_def image_image)

definition assigned_tenants ::
  "worker_env \<Rightarrow> uuid \<Rightarrow> timestamp \<Rightarrow> worker_memory \<times> session \<Rightarrow> uuid list" where
  "assigned_tenants env cid now ms =
     (case fst (acquire_workspaces (we_config env) cid now ms) of Inl error \<Rightarrow> [] | Inr ids \<Rightarrow> ids)"

lemma acquire_workspaces_call:
  obtains calls where
    "snd (snd (acquire_workspaces config cid now (m, s))) = perform_all L calls s"
    "list_all (worker_call M {}) calls"
proof (cases "wc_workspace_ids config")
  case None
  let ?n = "if in_i64 (int (wc_partition_batch config)) then int (wc_partition_batch config) else 2 ^ 63 - 1"
  show thesis
    by (rule that [of "[AcquirePartitionsCall (wc_worker_instance_id config) now
          (now + duration_seconds (wc_partition_lease_seconds config)) ?n
          (wc_partition_shard_buckets config)]"])
       (simp_all add: acquire_workspaces_def None Let_def case_prod_beta perform_all_simps split: sum.split)
next
  case (Some ids)
  show thesis
    by (rule that [of "[]"]) (simp_all add: acquire_workspaces_def Some perform_all_simps)
qed

lemma run_once_is_history:
  "\<exists>calls. fst (snd (snd (run_once env cid now ticks (m, s, b)))) = perform_all L calls s
     \<and> list_all (own_call env (set (assigned_tenants env cid now (m, s)))) calls"
proof -
  let ?M = "wc_max_attempts (we_config env)"
  obtain r m' s1 where acq: "acquire_workspaces (we_config env) cid now (m, s) = (r, m', s1)"
    by (cases "acquire_workspaces (we_config env) cid now (m, s)")
  obtain c1 where c1: "s1 = perform_all L c1 s" "list_all (worker_call ?M {}) c1"
    using acquire_workspaces_call [of "we_config env" cid now m s L ?M] acq by auto
  have mono: "list_all (worker_call ?M T) c1" for T
    using c1(2) worker_call_mono [of ?M "{}"] by (auto simp: list_all_iff)
  show ?thesis
  proof (cases "\<exists>ids. r = Inr ids \<and> ids \<noteq> []")
    case False
    then have "fst (snd (snd (run_once env cid now ticks (m, s, b)))) = s1"
      by (auto simp: run_once_def acq split: sum.splits)
    with c1(1) mono show ?thesis by blast
  next
    case True
    then obtain ids where ids: "r = Inr ids" "ids \<noteq> []" by blast
    obtain tss s' b' where run: "run_tenants env ticks
        (map (start_tenant (we_config env)) ids, s1, b) = (tss, s', b')"
      by (cases "run_tenants env ticks (map (start_tenant (we_config env)) ids, s1, b)")
    obtain c2 where "s' = perform_all L c2 s1" "list_all (worker_call ?M (set ids)) c2"
      using run_tenants_steps [OF run, of L] started_tenants [of "we_config env" ids] by auto
    then have "s' = perform_all L (c1 @ c2) s" "list_all (worker_call ?M (set ids)) (c1 @ c2)"
      using c1(1) mono by (simp_all add: perform_all_simps)
    moreover have "fst (snd (snd (run_once env cid now ticks (m, s, b)))) = s'"
      using ids by (simp add: run_once_def acq run)
    ultimately show ?thesis by (auto simp: assigned_tenants_def acq ids)
  qed
qed

text \<open>
  C21: whatever the schedule of its tenants and publications, the answers of the network and the
  faults, a run of the worker acts on the store only through its own lease, settle and sweep calls
  for the tenants it was assigned (and the acquisition of partitions), one transaction each and with
  every failure under its own attempt budget, so
  everything that holds over all histories of such calls holds over its runs.
\<close>

theorem worker_run_is_history:
  "\<exists>calls. fst (snd (snd (run_once env cid now ticks (m, s, b)))) = perform_all L calls s
     \<and> list_all (own_call env (set (assigned_tenants env cid now (m, s)))) calls"
  by (rule run_once_is_history)

lemma add_outcome_books:
  assumes "list_all accounted tss" "list_all (is_finished \<circ> ts_phase) tss"
    and "wr_leased r = wr_delivered r + wr_failed r" "wr_dead_lettered r \<le> wr_failed r"
  shows "let r' = foldl add_outcome r tss in
    wr_leased r' = wr_delivered r' + wr_failed r' \<and> wr_dead_lettered r' \<le> wr_failed r'
    \<and> wr_tenant_failures r' =
        wr_tenant_failures r + length (filter (\<lambda>ts. ts_phase ts \<noteq> Finished None) tss)"
  using assms
proof (induction tss arbitrary: r)
  case (Cons ts tss)
  obtain x where x: "ts_phase ts = Finished x" using Cons.prems by (cases "ts_phase ts") auto
  have "wr_leased (add_outcome r ts) = wr_delivered (add_outcome r ts) + wr_failed (add_outcome r ts)"
    "wr_dead_lettered (add_outcome r ts) \<le> wr_failed (add_outcome r ts)"
    using Cons.prems by (cases x; simp add: add_outcome_def x accounted_def Let_def)+
  from Cons.IH [OF _ _ this] Cons.prems show ?case
    by (cases x) (auto simp: add_outcome_def x Let_def)
qed (simp add: Let_def)

text \<open>
  The report of a run adds up: every message leased by a tenant that got through is counted once
  as delivered or failed, no more are dead-lettered than failed, and the tenants that failed are at
  most those assigned.
\<close>

theorem worker_report_adds_up:
  "case fst (run_once env cid now ticks (m, s, b)) of
     Some (Inr report) \<Rightarrow>
       wr_leased report = wr_delivered report + wr_failed report
       \<and> wr_dead_lettered report \<le> wr_failed report
       \<and> wr_tenant_failures report \<le> length (assigned_tenants env cid now (m, s))
   | _ \<Rightarrow> True"
proof -
  obtain r m' s1 where acq: "acquire_workspaces (we_config env) cid now (m, s) = (r, m', s1)"
    by (cases "acquire_workspaces (we_config env) cid now (m, s)")
  show ?thesis
  proof (cases r)
    case (Inl er)
    then show ?thesis by (simp add: run_once_def acq)
  next
    case (Inr ids)
    obtain tss s' b' where run: "run_tenants env ticks
        (map (start_tenant (we_config env)) ids, s1, b) = (tss, s', b')"
      by (cases "run_tenants env ticks (map (start_tenant (we_config env)) ids, s1, b)")
    have t: "list_all accounted tss" "length tss = length ids"
      using run_tenants_steps [OF run] started_accounted [of "we_config env" ids]
      by (auto dest!: map_eq_imp_length_eq)
    have "length (filter (\<lambda>ts. ts_phase ts \<noteq> Finished None) tss) \<le> length ids"
      using t(2) length_filter_le [of _ tss] by metis
    then show ?thesis
      using add_outcome_books [OF t(1), of worker_report_default]
      by (auto simp: run_once_def acq Inr run assigned_tenants_def worker_report_default_def Let_def)
  qed
qed

section \<open>Settling a message\<close>

lemma settled_by_spec:
  assumes "outbox_ok d" "settle_spec auth i token owner now f d = (Ok (), d')"
    and "r \<in> set (outbox d)" "o_id r = i"
  shows "lease_held (auth_workspace_id auth) i token owner now r \<and> f r r \<in> set (outbox d')"
proof -
  have uk: "unique_key o_id (outbox d)" using assms(1) by (simp add: outbox_ok_def)
  have "settle auth i token owner now f d = Inr d'"
    using assms(2) by (auto simp: settle_spec_def split: sum.splits)
  then obtain r0 where r0: "r0 \<in> set (outbox d)" "lease_held (auth_workspace_id auth) i token owner now r0"
    "d' = d\<lparr>outbox := update_where (\<lambda>x. o_id x = i) (f r0) (outbox d)\<rparr>"
    unfolding settle_Ok [OF uk] by blast
  then have "r0 = r" using unique_keyD [OF uk r0(1) assms(3)] assms(4) by (simp add: lease_held_def)
  with r0 assms(3,4) show ?thesis by (auto simp: set_update_where)
qed

lemma status_after_failure:
  "o_status (failure_row failure l r) =
     (if fc_classification failure = Terminal \<or> fc_max_attempts failure \<le> wrap_i32 (o_attempts l + 1)
      then DeadLetter else Failed)"
  by (simp add: failure_row_def Let_def dead_letter_row_def failed_row_def)

text \<open>
  C22: the worker's count is the truth of the database, on any connection: when a message is settled,
  the worker held its unexpired lease, and the message is afterwards delivered exactly when it was
  counted as delivered, and dead-lettered exactly when it was counted as dead-lettered, provided the
  attempts the worker read with the lease are still those of the row, as they are while it lasts.
\<close>

theorem settlement_counts_are_true:
  assumes "outbox_ok (committed s)" "r \<in> set (outbox (committed s))"
    and "o_id r = om_id message" "o_attempts r = om_attempts message"
    and "apply_publish_outcome config auth now roll (message, outcome) report s = (Ok report', s')"
  shows "lease_held (auth_workspace_id auth) (om_id message) (om_lease_token message)
      (om_lease_owner message) now r
    \<and> (\<exists>r'\<in>set (outbox (committed s')). o_id r' = om_id message
         \<and> (o_status r' = Delivered) = (wr_delivered report' = wr_delivered report + 1)
         \<and> (o_status r' = DeadLetter) = (wr_dead_lettered report' = wr_dead_lettered report + 1)
         \<and> wr_delivered report' + wr_failed report' = wr_delivered report + wr_failed report + 1)"
proof (cases outcome)
  case (Inr u)
  have "fst (mark_outbox_delivered auth (om_id message) (om_lease_token message) (om_lease_owner message) now s)
      = Ok ()"
    and rep: "report' = report\<lparr>wr_delivered := wr_delivered report + 1\<rparr>"
    and s': "s' = snd (mark_outbox_delivered auth (om_id message) (om_lease_token message)
        (om_lease_owner message) now s)"
    using assms(5) by (auto simp: apply_publish_outcome_def Inr case_prod_beta result_simps)
  then have "mark_outbox_delivered_spec auth (om_id message) (om_lease_token message)
      (om_lease_owner message) now (committed s) = (Ok (), committed s')"
    using delivered_op.returned by simp
  then have "lease_held (auth_workspace_id auth) (om_id message) (om_lease_token message)
      (om_lease_owner message) now r \<and> delivered_row now r \<in> set (outbox (committed s'))"
    unfolding mark_outbox_delivered_spec_def by (rule settled_by_spec [OF assms(1) _ assms(2,3)])
  then show ?thesis
    using assms(3) by (auto simp: rep delivered_row_def intro!: bexI [of _ "delivered_row now r"])
next
  case (Inl error)
  let ?f = "failure_of config now roll message error"
  let ?dead = "\<not> is_transient (pe_kind error) \<or> wc_max_attempts config \<le> wrap_i32 (om_attempts message + 1)"
  have "fst (mark_outbox_failed auth (om_id message) ?f s) = Ok ()"
    and rep: "report' = report\<lparr>wr_failed := wr_failed report + 1,
        wr_dead_lettered := wr_dead_lettered report + (if ?dead then 1 else 0)\<rparr>"
    and s': "s' = snd (mark_outbox_failed auth (om_id message) ?f s)"
    using assms(5) by (auto simp: apply_publish_outcome_def Inl case_prod_beta Let_def result_simps)
  then have "mark_outbox_failed_spec auth (om_id message) ?f (committed s) = (Ok (), committed s')"
    using failed_op.returned by simp
  then have held: "lease_held (auth_workspace_id auth) (om_id message) (om_lease_token message)
      (om_lease_owner message) now r \<and> failure_row ?f r r \<in> set (outbox (committed s'))"
    using settled_by_spec [OF assms(1) _ assms(2,3)]
    by (simp add: mark_outbox_failed_spec_def failure_of_def)
  have "o_status (failure_row ?f r r) = (if ?dead then DeadLetter else Failed)"
    by (simp add: status_after_failure failure_of_def assms(4))
  moreover have "o_id (failure_row ?f r r) = om_id message"
    using assms(3) by (simp add: failure_row_def Let_def dead_letter_row_def failed_row_def)
  ultimately show ?thesis
    using held by (auto simp: rep intro!: bexI [of _ "failure_row ?f r r"] split: if_splits)
qed

definition demo_message :: outbox_message where
  "demo_message = message_of_row 77 9 90 demo_leased_row"

lemma demo_message_fields [simp]:
  "om_id demo_message = 31" "om_attempts demo_message = 0" "om_lease_token demo_message = 77"
  "om_lease_owner demo_message = 9"
  by (simp_all add: demo_message_def message_of_row_def)

lemma demo_delivery:
  "fst (mark_outbox_delivered demo_auth 31 77 9 80 (demo_outbox [demo_leased_row])) = Ok ()"
proof -
  let ?d = "demo_db\<lparr>outbox := [demo_leased_row]\<rparr>"
  have uk: "unique_key o_id (outbox ?d)" by (simp add: unique_key_def)
  have "settle demo_auth 31 77 9 80 (\<lambda>_. delivered_row 80) ?d
      = Inr (?d\<lparr>outbox := update_where (\<lambda>x. o_id x = 31) (delivered_row 80) (outbox ?d)\<rparr>)"
    unfolding settle_Ok [OF uk] by (simp add: demo_auth_def lease_held_def outbox_row_checks)
  then show ?thesis
    using delivered_op.fault_free [of "demo_outbox [demo_leased_row]" demo_auth 31 77 9 80]
    by (simp add: mark_outbox_delivered_spec_def settle_spec_def)
qed

theorem settlement_counts_are_true_witness:
  "\<exists>report s'. apply_publish_outcome worker_config_default demo_auth 80 0 (demo_message, Ok ())
      worker_report_default (demo_outbox [demo_leased_row]) = (Ok report, s')
    \<and> wr_delivered report = 1
    \<and> (\<exists>r'\<in>set (outbox (committed s')). o_id r' = 31 \<and> o_status r' = Delivered)"
proof -
  obtain s' where run: "apply_publish_outcome worker_config_default demo_auth 80 0 (demo_message, Ok ())
      worker_report_default (demo_outbox [demo_leased_row])
      = (Ok (worker_report_default\<lparr>wr_delivered := 1\<rparr>), s')"
    using demo_delivery
    by (simp add: apply_publish_outcome_def case_prod_beta worker_report_default_def)
  from settlement_counts_are_true [OF _ _ _ _ this, of demo_leased_row] run show ?thesis
    by (auto simp: demo_outbox_ok worker_report_default_def)
qed

end
