(* ===== verification/Worker_Liveness.thy ===== *)
theory Worker_Liveness
  imports Worker_Theorems
begin

text \<open>
  A run of the worker never gets stuck: whatever the store and the network answer, the schedule can
  be continued until every tenant is through.  And it stays within its concurrency bounds.
\<close>

section \<open>A tenant always gets through\<close>

text \<open>
  The ticks of a schedule may be restricted, to the instants and answers of a healthy environment for
  example, as long as each kind of tick remains possible: the locale \<open>tick_supply\<close>.
\<close>

definition can_finish :: "(tick \<Rightarrow> bool) \<Rightarrow> worker_env \<Rightarrow> tenant_world \<Rightarrow> bool" where
  "can_finish allowed env w \<longleftrightarrow>
     (\<exists>ticks. list_all allowed ticks \<and> is_finished (ts_phase (fst (run_tenant env ticks w))))"

lemma can_finish_now: "is_finished (ts_phase (fst w)) \<Longrightarrow> can_finish allowed env w"
  unfolding can_finish_def by (rule exI [of _ "[]"]) (simp add: run_tenant_def)

lemma can_finish_tick: "allowed t \<Longrightarrow> can_finish allowed env (tenant_tick env t w) \<Longrightarrow> can_finish allowed env w"
  unfolding can_finish_def by (erule exE, rule_tac x = "t # ticks" in exI) (simp add: run_tenant_def)

lemma advance_published: "advance (Publishing [] [] completed) = advance (Marking completed)"
  by (cases completed) simp_all

locale tick_supply =
  fixes allowed :: "tick \<Rightarrow> bool"
  assumes lease_supply: "\<exists>cid locked token now. allowed (LeaseTick cid locked token now)"
    and begin_supply: "\<exists>now_epoch. allowed (BeginTick now_epoch)"
    and answer_supply: "\<exists>response. allowed (AnswerTick i response)"
    and mark_supply: "\<exists>cid now roll. allowed (MarkTick cid now roll)"
    and outbox_supply: "\<exists>cid now1 now2. allowed (CleanupOutboxTick cid now1 now2)"
    and idempotency_supply: "\<exists>cid now. allowed (CleanupIdempotencyTick cid now)"
begin

lemmas finish_tick = can_finish_tick [of allowed]

lemma finish_cleaning_idempotency:
  assumes "ts_phase ts = CleaningIdempotency"
  shows "can_finish allowed env (ts, s, b)"
proof -
  obtain cid now where t: "allowed (CleanupIdempotencyTick cid now)" using idempotency_supply by blast
  show ?thesis
    by (rule finish_tick [OF t], rule can_finish_now)
       (simp add: tenant_tick_def cleanup_idempotency_tick_def assms Let_def case_prod_beta continue_with_def
         split: sum.split)
qed

lemma finish_cleaning_outbox:
  assumes "ts_phase ts = CleaningOutbox"
  shows "can_finish allowed env (ts, s, b)"
proof -
  obtain cid now1 now2 where t: "allowed (CleanupOutboxTick cid now1 now2)" (is "allowed ?t")
    using outbox_supply by blast
  obtain ts' s' b' where w: "tenant_tick env ?t (ts, s, b) = (ts', s', b')"
    by (cases "tenant_tick env ?t (ts, s, b)")
  then have "ts_phase ts' = CleaningIdempotency \<or> is_finished (ts_phase ts')"
    using assms
    by (auto simp: tenant_tick_def cleanup_outbox_tick_def Let_def continue_with_def
        split: prod.splits sum.splits)
  then have "can_finish allowed env (tenant_tick env ?t (ts, s, b))"
    unfolding w by (auto intro: finish_cleaning_idempotency can_finish_now)
  then show ?thesis by (rule finish_tick [OF t])
qed

lemma finish_marking:
  assumes "ts_phase ts = advance (Marking completed)"
  shows "can_finish allowed env (ts, s, b)"
  using assms
proof (induction completed arbitrary: ts s b)
  case Nil
  then show ?case by (simp add: finish_cleaning_outbox)
next
  case (Cons delivery rest)
  obtain cid now roll where t: "allowed (MarkTick cid now roll)" (is "allowed ?t")
    using mark_supply by blast
  obtain ts' s' b' where w: "tenant_tick env ?t (ts, s, b) = (ts', s', b')"
    by (cases "tenant_tick env ?t (ts, s, b)")
  then have "ts_phase ts' = advance (Marking rest) \<or> is_finished (ts_phase ts')"
    using Cons.prems
    by (auto simp: tenant_tick_def mark_tick_def Let_def continue_with_def split: prod.splits sum.splits)
  then have "can_finish allowed env (tenant_tick env ?t (ts, s, b))"
    unfolding w by (auto intro: Cons.IH can_finish_now)
  then show ?case by (rule finish_tick [OF t])
qed

lemma finish_publishing:
  assumes "ts_phase ts = advance (Publishing waiting flying completed)"
    and "flying = [] \<or> we_publisher env \<noteq> NoopPublisher"
  shows "can_finish allowed env (ts, s, b)"
  using assms
proof (induction "2 * length waiting + length flying" arbitrary: waiting flying completed ts s b rule: less_induct)
  case less
  consider (over) "waiting = []" "flying = []" | (fly) "flying \<noteq> []" | (send) m rest where "waiting = m # rest" "flying = []"
    by (cases waiting; cases flying) auto
  then show ?case
  proof cases
    case over
    with less.prems(1) show ?thesis by (simp only: advance_published) (rule finish_marking)
  next
    case fly
    then have phase: "ts_phase ts = Publishing waiting flying completed"
      using less.prems(1) by (cases "Publishing waiting flying completed" rule: advance.cases) auto
    obtain response where t: "allowed (AnswerTick 0 response)" (is "allowed ?t")
      using answer_supply by blast
    obtain ts' s' b' where w: "tenant_tick env ?t (ts, s, b) = (ts', s', b')"
      by (cases "tenant_tick env ?t (ts, s, b)")
    obtain p where p: "we_publisher env = HttpPublisher p"
      using fly less.prems(2) by (cases "we_publisher env") auto
    obtain d where next_phase: "ts_phase ts' = advance (Publishing waiting (remove_nth 0 flying) (completed @ [d]))"
      using w fly phase p
      by (auto simp: tenant_tick_def answer_tick_def Let_def split: prod.splits)
    have "2 * length waiting + length (remove_nth 0 flying) < 2 * length waiting + length flying"
      using fly length_remove_nth [of 0 flying] by simp
    from less.hyps [OF this next_phase] p have "can_finish allowed env (ts', s', b')" by simp
    then show ?thesis using finish_tick [OF t, of env "(ts, s, b)"] w by simp
  next
    case (send m rest)
    then have phase: "ts_phase ts = Publishing waiting flying completed" using less.prems(1) by simp
    obtain e where t: "allowed (BeginTick e)" using begin_supply by blast
    obtain ts' s' b' where w: "tenant_tick env (BeginTick e) (ts, s, b) = (ts', s', b')"
      by (cases "tenant_tick env (BeginTick e) (ts, s, b)")
    have "can_finish allowed env (ts', s', b')"
    proof (cases "dispatch_begin (we_leaf env) (we_registry env) (we_publisher env) e b m")
      case (Inl outcome)
      then have "ts_phase ts' = advance (Publishing rest flying (completed @ [(m, outcome)]))"
        using w phase send by (auto simp: tenant_tick_def begin_tick_def less_max_iff_disj)
      then show ?thesis using less.hyps [of rest flying] send by simp
    next
      case (Inr request)
      then have "ts_phase ts' = advance (Publishing rest (flying @ [(m, e)]) completed)"
        using w phase send by (auto simp: tenant_tick_def begin_tick_def less_max_iff_disj)
      moreover have "we_publisher env \<noteq> NoopPublisher"
        using Inr noop_sends_nothing by metis
      ultimately show ?thesis using less.hyps [of rest "flying @ [(m, e)]"] send by simp
    qed
    then show ?thesis using finish_tick [OF t, of env "(ts, s, b)"] w by simp
  qed
qed

lemma finish_leasing:
  assumes "ts_phase ts = Leasing"
  shows "can_finish allowed env (ts, s, b)"
proof -
  obtain cid locked token now where t: "allowed (LeaseTick cid locked token now)" (is "allowed ?t")
    using lease_supply by blast
  obtain ts' s' b' where w: "tenant_tick env ?t (ts, s, b) = (ts', s', b')"
    by (cases "tenant_tick env ?t (ts, s, b)")
  then have "(\<exists>leased. ts_phase ts' = advance (Publishing leased [] [])) \<or> is_finished (ts_phase ts')"
    using assms
    by (auto simp: tenant_tick_def lease_tick_def Let_def continue_with_def split: prod.splits sum.splits)
  then have "can_finish allowed env (tenant_tick env ?t (ts, s, b))"
    unfolding w by (auto intro: finish_publishing can_finish_now)
  then show ?thesis by (rule finish_tick [OF t])
qed

end

section \<open>A run always gets through\<close>

lemma run_tenants_append: "run_tenants env (xs @ ys) w = run_tenants env ys (run_tenants env xs w)"
  by (simp add: run_tenants_def)

text \<open>When the tenants before are through and those after have not begun, a tenant runs alone.\<close>

lemma running_zero: "running tss = 0 \<longleftrightarrow> (\<forall>ts\<in>set tss. ts_phase ts = Leasing \<or> is_finished (ts_phase ts))"
  by (auto simp: running_def filter_empty_conv)

lemma alone_may_tick:
  assumes "\<forall>ts\<in>set before. is_finished (ts_phase ts)" "\<forall>ts\<in>set after. ts_phase ts = Leasing"
  shows "may_tick config (before @ ts # after) (length before)"
proof -
  have started: "list_all (\<lambda>ts. ts_phase ts \<noteq> Leasing) before" using assms(1) by (auto simp: list_all_iff)
  have "running (before @ ts # after) = 0" if "ts_phase ts = Leasing"
    unfolding running_zero using assms that by auto
  then show ?thesis
    by (simp add: may_tick_def started less_max_iff_disj)
qed

lemma run_alone:
  assumes "\<forall>ts\<in>set before. is_finished (ts_phase ts)" "\<forall>ts\<in>set after. ts_phase ts = Leasing"
  shows "run_tenants env (map (Pair (length before)) ticks) (before @ ts # after, s, b) =
    (let (ts', s', b') = run_tenant env ticks (ts, s, b) in (before @ ts' # after, s', b'))"
proof (induction ticks arbitrary: ts s b)
  case Nil
  then show ?case by (simp add: run_tenants_def run_tenant_def)
next
  case (Cons t ticks)
  obtain ts1 s1 b1 where w: "tenant_tick env t (ts, s, b) = (ts1, s1, b1)"
    by (cases "tenant_tick env t (ts, s, b)")
  have "run_tick env (length before, t) (before @ ts # after, s, b) = (before @ ts1 # after, s1, b1)"
    using alone_may_tick [OF assms, of "we_config env" ts] w by (simp add: run_tick_def)
  with Cons.IH [of ts1 s1 b1] w show ?case by (simp add: run_tenants_def run_tenant_def)
qed

context tick_supply
begin

lemma run_can_finish:
  assumes "\<forall>ts\<in>set before. is_finished (ts_phase ts)" "\<forall>ts\<in>set after. ts_phase ts = Leasing"
  shows "\<exists>ticks. list_all (allowed \<circ> snd) ticks
    \<and> list_all (is_finished \<circ> ts_phase) (fst (run_tenants env ticks (before @ after, s, b)))"
  using assms
proof (induction after arbitrary: before s b)
  case Nil
  then have "list_all (is_finished \<circ> ts_phase) (fst (run_tenants env [] (before @ [], s, b)))"
    by (simp add: run_tenants_def list_all_iff)
  then show ?case by (intro exI [of _ "[]"]) (simp add: comp_def)
next
  case (Cons ts after)
  have rest: "\<forall>ts\<in>set after. ts_phase ts = Leasing" using Cons.prems(2) by simp
  from finish_leasing [of ts env s b] Cons.prems(2) obtain ticks where
    ok: "list_all allowed ticks" and fin: "is_finished (ts_phase (fst (run_tenant env ticks (ts, s, b))))"
    by (auto simp: can_finish_def)
  obtain ts' s' b' where w: "run_tenant env ticks (ts, s, b) = (ts', s', b')"
    by (cases "run_tenant env ticks (ts, s, b)")
  have "\<forall>ts\<in>set (before @ [ts']). is_finished (ts_phase ts)" using Cons.prems(1) fin w by simp
  from Cons.IH [OF this rest] obtain more where
    more: "list_all (allowed \<circ> snd) more"
    "list_all (is_finished \<circ> ts_phase) (fst (run_tenants env more ((before @ [ts']) @ after, s', b')))"
    by blast
  have "run_tenants env (map (Pair (length before)) ticks) (before @ ts # after, s, b)
      = (before @ ts' # after, s', b')"
    using run_alone [OF Cons.prems(1) rest] w by simp
  then have "list_all (is_finished \<circ> ts_phase)
      (fst (run_tenants env (map (Pair (length before)) ticks @ more) (before @ ts # after, s, b)))"
    using more(2) by (simp add: run_tenants_append)
  moreover have "list_all (allowed \<circ> snd) (map (Pair (length before)) ticks @ more)"
    using ok more(1) by (auto simp: list_all_iff)
  ultimately show ?case by blast
qed

lemma run_once_can_finish:
  "\<exists>ticks. list_all (allowed \<circ> snd) ticks \<and> fst (run_once env cid now ticks (m, s, b)) \<noteq> None"
proof -
  obtain r m' s1 where acq: "acquire_workspaces (we_config env) cid now (m, s) = (r, m', s1)"
    by (cases "acquire_workspaces (we_config env) cid now (m, s)")
  show ?thesis
  proof (cases r)
    case (Inl er)
    then show ?thesis by (intro exI [of _ "[]"]) (simp add: run_once_def acq)
  next
    case (Inr ids)
    have "\<forall>ts\<in>set (map (start_tenant (we_config env)) ids). ts_phase ts = Leasing"
      by (auto simp: start_tenant_def)
    from run_can_finish [OF _ this, of "[]" env s1 b] obtain ticks where
      ok: "list_all (allowed \<circ> snd) ticks" and fin: "list_all (is_finished \<circ> ts_phase)
         (fst (run_tenants env ticks (map (start_tenant (we_config env)) ids, s1, b)))" by auto
    then have "fst (run_once env cid now ticks (m, s, b)) \<noteq> None"
      by (simp add: run_once_def acq Inr case_prod_beta Let_def)
    with ok show ?thesis by blast
  qed
qed

end

interpretation any_tick: tick_supply "\<lambda>t. True"
  by unfold_locales simp_all

text \<open>
  A run of the worker can always be brought to its end: whatever the configuration, the state of
  the database, the faults and the breaker, some schedule completes it with a report or an error.
\<close>

theorem worker_run_completes:
  "\<exists>ticks. fst (run_once env cid now ticks (m, s, b)) \<noteq> None"
  using any_tick.run_once_can_finish [of env cid now m s b] by blast

section \<open>Bounds on concurrency\<close>

fun flights :: "tenant_phase \<Rightarrow> nat" where
  "flights (Publishing waiting flying completed) = length flying"
| "flights phase = 0"

definition under_way :: "tenant_state \<Rightarrow> bool" where
  "under_way ts \<longleftrightarrow> ts_phase ts \<noteq> Leasing \<and> \<not> is_finished (ts_phase ts)"

lemma flights_advance: "flights (advance phase) = flights phase"
  by (cases phase rule: advance.cases) simp_all

lemma advance_phases: "advance phase = Leasing \<longleftrightarrow> phase = Leasing" "is_finished (advance phase) = is_finished phase"
  by (cases phase rule: advance.cases; simp)+

lemma tenant_tick_flights:
  assumes "tenant_tick env t (ts, s, b) = (ts', s', b')"
    and "flights (ts_phase ts) \<le> max (wc_publish_concurrency (we_config env)) 1"
  shows "flights (ts_phase ts') \<le> max (wc_publish_concurrency (we_config env)) 1"
proof (cases rule: tenant_tick_cases [of env t "(ts, s, b)"])
  case idle
  with assms show ?thesis by simp
next
  case (lease cid locked token now)
  then show ?thesis
    using assms
    by (auto simp: lease_tick_def Let_def continue_with_def flights_advance split: prod.splits sum.splits)
next
  case (send now_epoch waiting flying completed)
  then show ?thesis
    using assms
    by (auto simp: begin_tick_def Let_def flights_advance split: list.splits sum.splits if_splits)
next
  case (answer i response waiting flying completed)
  then show ?thesis
    using assms length_remove_nth [of i flying]
    by (auto simp: answer_tick_def Let_def flights_advance
        split: publisher.splits if_splits prod.splits)
next
  case (mark cid now roll completed)
  then show ?thesis
    using assms
    by (auto simp: mark_tick_def Let_def continue_with_def flights_advance
        split: list.splits prod.splits sum.splits)
next
  case (sweep_outbox cid now1 now2)
  then show ?thesis
    using assms
    by (auto simp: cleanup_outbox_tick_def Let_def continue_with_def
        split: prod.splits sum.splits)
next
  case (sweep_idempotency cid now)
  then show ?thesis
    using assms
    by (auto simp: cleanup_idempotency_tick_def Let_def continue_with_def
        split: prod.splits sum.splits)
qed

lemma tenant_tick_under_way:
  assumes "tenant_tick env t (ts, s, b) = (ts', s', b')" "under_way ts'"
  shows "under_way ts \<or> ts_phase ts = Leasing"
proof (cases "is_finished (ts_phase ts)")
  case True
  then have "tenant_tick env t (ts, s, b) = (ts, s, b)"
    by (cases "ts_phase ts") (simp_all add: tenant_tick_def)
  with assms show ?thesis by simp
qed (simp add: under_way_def)

lemma running_update:
  assumes "i < length tss"
  shows "length (filter P (tss[i := ts])) + (if P (tss ! i) then 1 else 0)
    = length (filter P tss) + (if P ts then 1 else 0)"
proof -
  have "filter P tss = filter P (take i tss) @ filter P [tss ! i] @ filter P (drop (Suc i) tss)"
    by (subst id_take_nth_drop [OF assms]) simp
  then show ?thesis by (simp add: upd_conv_take_nth_drop [OF assms])
qed

definition within_bounds :: "worker_config \<Rightarrow> tenant_state list \<Rightarrow> bool" where
  "within_bounds config tss \<longleftrightarrow>
     length (filter under_way tss) \<le> min (max (wc_tenant_max_concurrency config) 1) 256
     \<and> list_all (\<lambda>ts. flights (ts_phase ts) \<le> max (wc_publish_concurrency config) 1) tss"

lemma run_tick_within_bounds:
  assumes "within_bounds (we_config env) tss" "run_tick env it (tss, s, b) = (tss', s', b')"
  shows "within_bounds (we_config env) tss'"
proof -
  obtain i t where it: "it = (i, t)" by (cases it)
  show ?thesis
  proof (cases "may_tick (we_config env) tss i")
    case False
    with assms show ?thesis by (simp add: run_tick_def it)
  next
    case True
    then have i: "i < length tss" by (simp add: may_tick_def)
    obtain ts' where run: "tenant_tick env t (tss ! i, s, b) = (ts', s', b')" "tss' = tss[i := ts']"
      using assms(2) True by (auto simp: run_tick_def it split: prod.splits)
    have "length (filter under_way tss') \<le> min (max (wc_tenant_max_concurrency (we_config env)) 1) 256"
      using assms(1) True running_update [OF i, of under_way ts'] tenant_tick_under_way [OF run(1)]
      unfolding within_bounds_def may_tick_def running_def under_way_def [symmetric] run(2)
      by (cases "under_way ts'"; cases "under_way (tss ! i)") auto
    moreover have "list_all (\<lambda>ts. flights (ts_phase ts) \<le> max (wc_publish_concurrency (we_config env)) 1) tss'"
      using assms(1) tenant_tick_flights [OF run(1)] i
      unfolding within_bounds_def list_all_length run(2) by (auto simp: nth_list_update)
    ultimately show ?thesis by (simp add: within_bounds_def)
  qed
qed

text \<open>
  At every moment of a run at most the configured number of tenants, and never more than 256, are under
  way, and each has at most the configured number of publications on the network, where a configured 0
  counts as 1.  The bounds are those the sources pass to \<open>buffer_unordered\<close>, whose documented
  behaviour \<open>may_tick\<close> and \<open>begin_tick\<close> model: what is shown here is that no other step of the model
  starts a tenant or a publication.
\<close>

lemma worker_concurrency_bounded:
  "within_bounds (we_config env)
     (fst (run_tenants env ticks (map (start_tenant (we_config env)) ids, s, b)))"
proof (induction ticks rule: rev_induct)
  case Nil
  then show ?case
    by (simp add: run_tenants_def within_bounds_def list_all_iff start_tenant_def filter_map comp_def
        under_way_def)
next
  case (snoc it ticks)
  obtain tss s1 b1 where w: "run_tenants env ticks (map (start_tenant (we_config env)) ids, s, b) = (tss, s1, b1)"
    by (cases "run_tenants env ticks (map (start_tenant (we_config env)) ids, s, b)")
  obtain tss' s2 b2 where step: "run_tick env it (tss, s1, b1) = (tss', s2, b2)"
    by (cases "run_tick env it (tss, s1, b1)")
  have "run_tenants env (ticks @ [it]) (map (start_tenant (we_config env)) ids, s, b) = (tss', s2, b2)"
    by (simp add: run_tenants_append w) (simp add: run_tenants_def step)
  with run_tick_within_bounds [OF _ step] snoc.IH w show ?case by simp
qed

end
