(* ===== verification/Worker_Main.thy ===== *)
theory Worker_Main
  imports Worker_Theorems Parse_Int
begin

text \<open>
  The worker process, \<open>dandori-worker/src/main.rs\<close>: its configuration from the environment, which
  fails closed, and its loop, which runs a cycle after every pause until it is told to stop or a
  cycle fails, and then releases its partitions.  An error is the list of its messages, the outermost
  first.
\<close>

section \<open>Texts\<close>

text \<open>
  Renderings that belong to other crates: the \<open>Debug\<close> form of a text, the \<open>Display\<close> of a database
  error, of a UUID and of a timestamp.
\<close>

record texts =
  tx_debug :: "string \<Rightarrow> string"
  tx_db :: "db_error \<Rightarrow> string"
  tx_uuid :: "uuid \<Rightarrow> string"
  tx_time :: "timestamp \<Rightarrow> string"

definition outbox_row_text :: "texts \<Rightarrow> uuid \<Rightarrow> uuid \<Rightarrow> string" where
  "outbox_row_text T w i = ''outbox row '' @ quoted (tx_uuid T i) @ '' in workspace '' @ quoted (tx_uuid T w)"

fun store_error_display :: "texts \<Rightarrow> store_error \<Rightarrow> string" where
  "store_error_display T (Sqlx e) = ''database error: '' @ tx_db T e"
| "store_error_display T (SeaOrm e) = ''sea-orm error: '' @ tx_db T e"
| "store_error_display T (Serde e) = ''serialization error: '' @ e"
| "store_error_display T ProjectNotFound = ''project not found''"
| "store_error_display T WorkflowVersionNotFound = ''workflow version not found''"
| "store_error_display T MilestoneNotFound = ''milestone not found''"
| "store_error_display T MilestoneProjectMismatch = ''milestone project mismatch''"
| "store_error_display T IdempotencyConflict = ''idempotency conflict''"
| "store_error_display T IdempotencyReplayMissingIssue =
     ''idempotency replay payload missing target issue''"
| "store_error_display T (InvalidState v) = ''invalid state category in database: '' @ v"
| "store_error_display T (InvalidPriority v) = ''invalid priority in database: '' @ v"
| "store_error_display T (OutboxUpdateNotSingleRow w i n) =
     ''outbox state update expected exactly one row for id '' @ quoted (tx_uuid T i)
       @ '' in workspace '' @ quoted (tx_uuid T w) @ '', updated '' @ show_nat n"
| "store_error_display T (OutboxLeaseMissing w i) =
     ''outbox row '' @ quoted (tx_uuid T i) @ '' not found in workspace '' @ quoted (tx_uuid T w)"
| "store_error_display T (OutboxNotLeased w i status) =
     outbox_row_text T w i @ '' is not leased (current status: '' @ status @ '')''"
| "store_error_display T (OutboxLeaseExpired w i until now) =
     outbox_row_text T w i @ '' lease expired at '' @ quoted (tx_time T until)
       @ '' (now '' @ quoted (tx_time T now) @ '')''"
| "store_error_display T (OutboxLeaseOwnerMismatch w i expected actual) =
     outbox_row_text T w i @ '' lease owner mismatch (expected '' @ quoted (tx_uuid T expected)
       @ '', actual '' @ quoted (tx_uuid T actual) @ '')''"
| "store_error_display T (OutboxLeaseTokenMismatch w i expected actual) =
     outbox_row_text T w i @ '' lease token mismatch (expected '' @ quoted (tx_uuid T expected)
       @ '', actual '' @ quoted (tx_uuid T actual) @ '')''"
| "store_error_display T (DomainViolation e) = ''domain violation: '' @ domain_error_display e"
| "store_error_display T (InvalidInput m) = ''invalid input: '' @ m"

section \<open>The environment\<close>

datatype env_var = Present string | NotPresent | NotUnicode string

type_synonym env_vars = "string \<Rightarrow> env_var"
type_synonym anyhow = "string list"

fun env_ok :: "env_var \<Rightarrow> string option" where
  "env_ok (Present raw) = Some raw"
| "env_ok NotPresent = None"
| "env_ok (NotUnicode raw) = None"

fun var_error :: "env_var \<Rightarrow> string" where
  "var_error (NotUnicode raw) = ''environment variable was not valid unicode: '' @ raw"
| "var_error other = ''environment variable not found''"

definition read_env :: "env_vars \<Rightarrow> string \<Rightarrow> anyhow + string option" where
  "read_env env name =
     (case env name of
        Present raw \<Rightarrow> Ok (Some raw)
      | NotPresent \<Rightarrow> Ok None
      | NotUnicode raw \<Rightarrow> Err [name @ '' contains non-UTF8 bytes: '' @ raw])"

definition parse_bounded ::
  "int_type \<Rightarrow> texts \<Rightarrow> string \<Rightarrow> string option \<Rightarrow> int \<Rightarrow> int \<Rightarrow> int \<Rightarrow> anyhow + int" where
  "parse_bounded ty T name raw default_value lo hi =
     (case raw of
        None \<Rightarrow> Ok default_value
      | Some text \<Rightarrow>
          and_then (map_err (\<lambda>err. [name @ '' invalid value '' @ tx_debug T text @ '': '' @ int_error_display err])
                     (parse_int ty text)) (\<lambda>parsed.
          if lo \<le> parsed \<and> parsed \<le> hi then Ok parsed
          else Err [name @ ''='' @ show_int parsed @ '' out of range ['' @ show_int lo @ '', ''
                    @ show_int hi @ '']'']))"

definition parse_bool :: "texts \<Rightarrow> string \<Rightarrow> string option \<Rightarrow> bool \<Rightarrow> anyhow + bool" where
  "parse_bool T name raw default_value =
     (case raw of
        None \<Rightarrow> Ok default_value
      | Some text \<Rightarrow>
          let lowered = to_ascii_lowercase text in
          if lowered \<in> {''1'', ''true'', ''yes'', ''on''} then Ok True
          else if lowered \<in> {''0'', ''false'', ''no'', ''off'', ''''} then Ok False
          else Err [name @ '' invalid boolean: '' @ tx_debug T lowered])"

definition parse_bucket_range ::
  "texts \<Rightarrow> string \<Rightarrow> string option \<Rightarrow> anyhow + shard_bucket_range" where
  "parse_bucket_range T name raw =
     (case raw of
        None \<Rightarrow> Ok ShardBucketRange_full
      | Some text \<Rightarrow>
          and_then (ok_or (split_once ''..'' text)
                     [name @ '' must be formatted as MIN..MAX, got '' @ tx_debug T text]) (\<lambda>(min_str, max_str).
          and_then (map_err (\<lambda>e. [name @ '' min '' @ tx_debug T min_str @ '' is not an integer'', int_error_display e])
                     (parse_int I32 min_str)) (\<lambda>mn.
          and_then (map_err (\<lambda>e. [name @ '' max '' @ tx_debug T max_str @ '' is not an integer'', int_error_display e])
                     (parse_int I32 max_str)) (\<lambda>mx.
          map_err (\<lambda>err. [name @ '' invalid shard bucket range: '' @ store_error_display T err])
            (ShardBucketRange_new mn mx)))))"

definition parse_env_bounded ::
  "int_type \<Rightarrow> texts \<Rightarrow> env_vars \<Rightarrow> string \<Rightarrow> int \<Rightarrow> int \<Rightarrow> int \<Rightarrow> anyhow + int" where
  "parse_env_bounded ty T env name default_value lo hi =
     and_then (read_env env name) (\<lambda>raw. parse_bounded ty T name raw default_value lo hi)"

definition parse_env_bool :: "texts \<Rightarrow> env_vars \<Rightarrow> string \<Rightarrow> bool \<Rightarrow> anyhow + bool" where
  "parse_env_bool T env name default_value =
     and_then (read_env env name) (\<lambda>raw. parse_bool T name raw default_value)"

definition parse_shard_bucket_range ::
  "texts \<Rightarrow> env_vars \<Rightarrow> string \<Rightarrow> anyhow + shard_bucket_range" where
  "parse_shard_bucket_range T env name =
     and_then (read_env env name) (\<lambda>raw. parse_bucket_range T name raw)"

section \<open>The configuration of the worker\<close>

record worker_settings =
  ms_database_url :: string
  ms_run_migrations :: bool
  ms_interval_ms :: int
  ms_config :: worker_config

text \<open>\<open>generated\<close> is the fresh instance identifier, drawn when none is configured.\<close>

definition instance_id_of :: "texts \<Rightarrow> leaf \<Rightarrow> env_vars \<Rightarrow> uuid \<Rightarrow> anyhow + uuid" where
  "instance_id_of T L env generated =
     (case env ''DANDORI_WORKER_INSTANCE_ID'' of
        Present raw \<Rightarrow>
          map_err (\<lambda>e. [''DANDORI_WORKER_INSTANCE_ID invalid uuid: '' @ tx_debug T raw, e])
            (uuid_parse L raw)
      | NotPresent \<Rightarrow> Ok generated
      | NotUnicode raw \<Rightarrow> Err [''DANDORI_WORKER_INSTANCE_ID contains non-UTF8 bytes: '' @ raw])"

definition settings_from_env :: "texts \<Rightarrow> leaf \<Rightarrow> env_vars \<Rightarrow> uuid \<Rightarrow> anyhow + worker_settings" where
  "settings_from_env T L env generated =
     and_then (ok_or (env_ok (env ''DANDORI_DATABASE_URL''))
       [''DANDORI_DATABASE_URL is required'', var_error (env ''DANDORI_DATABASE_URL'')]) (\<lambda>database_url.
     and_then (parse_env_bool T env ''DANDORI_RUN_MIGRATIONS'' False) (\<lambda>run_migrations.
     and_then (instance_id_of T L env generated) (\<lambda>worker_instance_id.
     and_then (parse_env_bounded U64 T env ''DANDORI_WORKER_INTERVAL_MS'' 1000 50 600000) (\<lambda>interval_ms.
     and_then (parse_env_bounded Usize T env ''DANDORI_WORKER_PARTITION_BATCH'' 64 1 10000) (\<lambda>partition_batch.
     and_then (parse_env_bounded I64 T env ''DANDORI_WORKER_PARTITION_LEASE_SECONDS'' 60 1 3600) (\<lambda>partition_lease_seconds.
     and_then (parse_env_bounded Usize T env ''DANDORI_WORKER_PUBLISH_CONCURRENCY'' 8 1 256) (\<lambda>publish_concurrency.
     and_then (parse_env_bounded Usize T env ''DANDORI_WORKER_TENANT_MAX_CONCURRENCY'' 8 1 256) (\<lambda>tenant_max_concurrency.
     and_then (parse_env_bounded U64 T env ''DANDORI_WORKER_HTTP_CONNECT_TIMEOUT_MS'' 2000 1 120000) (\<lambda>http_connect_timeout_ms.
     and_then (parse_env_bounded U64 T env ''DANDORI_WORKER_HTTP_REQUEST_TIMEOUT_MS'' 10000 1 600000) (\<lambda>http_request_timeout_ms.
     and_then (parse_env_bounded U64 T env ''DANDORI_WORKER_RETRY_JITTER_MS'' 2000 0 60000) (\<lambda>retry_jitter_ms.
     and_then (parse_env_bounded U32 T env ''DANDORI_WORKER_CIRCUIT_FAILURE_THRESHOLD'' 10 0 10000) (\<lambda>circuit_failure_threshold.
     and_then (parse_env_bounded I64 T env ''DANDORI_WORKER_CIRCUIT_COOLDOWN_SECONDS'' 30 0 3600) (\<lambda>circuit_cooldown_seconds.
     and_then (parse_env_bounded I64 T env ''DANDORI_WORKER_BATCH_SIZE'' 32 1 10000) (\<lambda>batch_size.
     and_then (parse_env_bounded I64 T env ''DANDORI_WORKER_LEASE_SECONDS'' 30 1 3600) (\<lambda>lease_seconds.
     and_then (parse_env_bounded I32 T env ''DANDORI_WORKER_MAX_ATTEMPTS'' 5 1 1000) (\<lambda>max_attempts.
     and_then (parse_env_bounded I64 T env ''DANDORI_WORKER_RETRY_BACKOFF_SECONDS'' 15 0 3600) (\<lambda>retry_backoff_seconds.
     and_then (parse_env_bounded I64 T env ''DANDORI_WORKER_DELIVERED_RETENTION_HOURS'' 24 1 8760) (\<lambda>delivered_retention_hours.
     and_then (parse_env_bounded I64 T env ''DANDORI_WORKER_DEAD_LETTER_RETENTION_HOURS'' 168 1 17520) (\<lambda>dead_letter_retention_hours.
     and_then (parse_env_bounded I64 T env ''DANDORI_WORKER_IDEMPOTENCY_RETENTION_HOURS'' 168 1 17520) (\<lambda>idempotency_retention_hours.
     and_then (parse_env_bounded Usize T env ''DANDORI_WORKER_HTTP_POOL_MAX_IDLE_PER_HOST'' 16 0 1024) (\<lambda>http_pool_max_idle_per_host.
     and_then (parse_shard_bucket_range T env ''DANDORI_WORKER_BUCKET_RANGE'') (\<lambda>partition_shard_buckets.
     Ok \<lparr>ms_database_url = database_url, ms_run_migrations = run_migrations, ms_interval_ms = interval_ms,
         ms_config = \<lparr>wc_workspace_ids = None, wc_worker_instance_id = worker_instance_id,
           wc_batch_size = batch_size, wc_lease_seconds = lease_seconds, wc_max_attempts = max_attempts,
           wc_retry_backoff_seconds = retry_backoff_seconds,
           wc_delivered_retention_hours = delivered_retention_hours,
           wc_dead_letter_retention_hours = dead_letter_retention_hours,
           wc_idempotency_retention_hours = idempotency_retention_hours,
           wc_publish_concurrency = nat publish_concurrency,
           wc_http_connect_timeout_ms = nat http_connect_timeout_ms,
           wc_http_request_timeout_ms = nat http_request_timeout_ms,
           wc_http_pool_max_idle_per_host = nat http_pool_max_idle_per_host,
           wc_retry_jitter_ms = nat retry_jitter_ms,
           wc_circuit_failure_threshold = word_of_int circuit_failure_threshold,
           wc_circuit_cooldown_seconds = circuit_cooldown_seconds,
           wc_partition_batch = nat partition_batch,
           wc_partition_lease_seconds = partition_lease_seconds,
           wc_partition_shard_buckets = partition_shard_buckets,
           wc_tenant_max_concurrency = nat tenant_max_concurrency\<rparr>\<rparr>))))))))))))))))))))))"

section \<open>The process\<close>

text \<open>
  What \<open>select!\<close> waits for: the shutdown signal, or the end of the pause, which starts a cycle with
  its clock and its schedule.  The signal is only listened to during the pause.
\<close>

datatype loop_event = CtrlC | Pause_over timestamp "(nat \<times> tick) list"

type_synonym process_world = "worker_memory \<times> session \<times> breaker"

text \<open>The \<open>Display\<close> of a service error.\<close>

definition app_error_display :: "app_service_error \<Rightarrow> string" where
  "app_error_display e = ae_code e @ '': '' @ ae_message e"

text \<open>\<open>None\<close> while the loop waits, or is inside a cycle whose schedule goes on.\<close>

fun run_loop ::
  "worker_env \<Rightarrow> uuid \<Rightarrow> loop_event list \<Rightarrow> process_world \<Rightarrow> (anyhow + unit) option \<times> process_world" where
  "run_loop env cid [] w = (None, w)"
| "run_loop env cid (CtrlC # events) w = (Some (Ok ()), w)"
| "run_loop env cid (Pause_over now ticks # events) w =
     (case run_once env cid now ticks w of
        (None, w') \<Rightarrow> (None, w')
      | (Some (Inl error), w') \<Rightarrow> (Some (Err [app_error_display error]), w')
      | (Some (Inr report), w') \<Rightarrow> run_loop env cid events w')"

text \<open>The end of \<open>main\<close>: the partitions are released however the loop ended.\<close>

definition run_and_release ::
  "worker_env \<Rightarrow> uuid \<Rightarrow> loop_event list \<Rightarrow> process_world \<Rightarrow> (anyhow + unit) option \<times> process_world" where
  "run_and_release env cid events w =
     (case run_loop env cid events w of
        (None, w') \<Rightarrow> (None, w')
      | (Some outcome, (m, s, b)) \<Rightarrow>
          let (released, m', s') = release_worker_partitions (we_config env) cid (m, s)
          in (Some outcome, (m', s', b)))"

definition with_default_publisher ::
  "uuid \<Rightarrow> string option \<Rightarrow> env_vars \<Rightarrow> worker_config \<Rightarrow> app_service_error + (publisher \<times> breaker)" where
  "with_default_publisher cid client_error env config =
     with_publisher_selection cid client_error config (env_ok (env ''DANDORI_OUTBOX_PUBLISH_URL''))
       (env_ok (env ''DANDORI_OUTBOX_ALLOW_NOOP_PUBLISHER''))"

text \<open>\<open>migrated\<close> and \<open>connected\<close> are the errors of the database at start, if it has one.\<close>

definition build_outbox_worker_service ::
  "uuid \<Rightarrow> string option \<Rightarrow> string option \<Rightarrow> string option \<Rightarrow> env_vars \<Rightarrow> bool \<Rightarrow> worker_config
    \<Rightarrow> app_service_error + (publisher \<times> breaker)" where
  "build_outbox_worker_service cid migrated connected client_error env run_migrations config =
     (case (if run_migrations then migrated else None) of
        Some error \<Rightarrow> Err (AppServiceError_internal cid ''migration_failed'' error)
      | None \<Rightarrow>
          (case connected of
             Some error \<Rightarrow> Err (AppServiceError_internal cid ''store_connect_failed'' error)
           | None \<Rightarrow>
               with_default_publisher cid client_error env config))"

definition worker_main ::
  "texts \<Rightarrow> leaf \<Rightarrow> (nat \<Rightarrow> string) \<Rightarrow> env_vars \<Rightarrow> uuid \<Rightarrow> uuid \<Rightarrow> string option \<Rightarrow> string option
    \<Rightarrow> string option \<Rightarrow> loop_event list \<Rightarrow> session \<Rightarrow> (anyhow + unit) option \<times> session" where
  "worker_main T L status_text env generated cid migrated connected client_error events s =
     (case settings_from_env T L env generated of
        Inl error \<Rightarrow> (Some (Err error), s)
      | Inr settings \<Rightarrow>
          (case build_outbox_worker_service cid migrated connected client_error env
                  (ms_run_migrations settings) (ms_config settings) of
             Inl error \<Rightarrow> (Some (Err [app_error_display error]), s)
           | Inr (publisher, b) \<Rightarrow>
               let (outcome, (m, s', b')) =
                     run_and_release
                       \<lparr>we_leaf = L, we_status_text = status_text, we_config = ms_config settings,
                        we_publisher = publisher, we_registry = default_registry\<rparr>
                       cid events (\<lparr>mem_leased = []\<rparr>, s, b)
               in (outcome, s')))"

section \<open>The configuration fails closed\<close>

lemma parse_bounded_eq_Ok:
  "parse_bounded ty T name raw d lo hi = Ok v \<longleftrightarrow>
     (case raw of None \<Rightarrow> v = d | Some text \<Rightarrow> numeral_of ty text v \<and> lo \<le> v \<and> v \<le> hi)"
  by (auto simp: parse_bounded_def result_simps parse_int_eq_Ok split: option.splits if_splits)

lemma read_env_eq_Ok:
  "read_env env name = Ok raw \<longleftrightarrow>
     (case env name of Present text \<Rightarrow> raw = Some text | NotPresent \<Rightarrow> raw = None | NotUnicode t \<Rightarrow> False)"
  by (auto simp: read_env_def split: env_var.splits)

text \<open>
  A bounded setting is exactly the default when its variable is unset, and otherwise the value its
  text denotes as a numeral of the type, when that lies within the bounds; every other text is refused.
\<close>

theorem setting_exact:
  "(parse_env_bounded ty T env name default_value lo hi = Ok v) =
     (case env name of
        NotPresent \<Rightarrow> v = default_value
      | Present text \<Rightarrow> numeral_of ty text v \<and> lo \<le> v \<and> v \<le> hi
      | NotUnicode raw \<Rightarrow> False)"
  by (auto simp: parse_env_bounded_def result_simps read_env_eq_Ok parse_bounded_eq_Ok split: env_var.splits)

text \<open>
  A setting written out as a number within its bounds and its type is read back as that number.
\<close>

theorem setting_read_back:
  assumes "lo \<le> v" "v \<le> hi" "type_min ty \<le> lo" "hi \<le> type_max ty"
  shows "parse_env_bounded ty T (env(name := Present (show_int v))) name default_value lo hi = Ok v"
  using assms parse_int_show [of ty v]
  by (simp add: parse_env_bounded_def read_env_def parse_bounded_def)

theorem setting_read_back_witness:
  "parse_env_bounded I64 T ((\<lambda>_. NotPresent)(name := Present (show_int 40))) name 30 1 3600 = Ok 40"
  by (rule setting_read_back) simp_all

lemma setting_range:
  assumes "parse_env_bounded ty T env name d lo hi = Ok v" "lo \<le> d" "d \<le> hi"
  shows "lo \<le> v \<and> v \<le> hi"
  using assms
  by (auto simp: parse_env_bounded_def result_simps parse_bounded_eq_Ok split: option.splits)

text \<open>The bounded settings: variable, type, default and bounds.\<close>

definition bounded_settings :: "(string \<times> int_type \<times> int \<times> int \<times> int) list" where
  "bounded_settings =
     [(''DANDORI_WORKER_INTERVAL_MS'', U64, 1000, 50, 600000),
      (''DANDORI_WORKER_PARTITION_BATCH'', Usize, 64, 1, 10000),
      (''DANDORI_WORKER_PARTITION_LEASE_SECONDS'', I64, 60, 1, 3600),
      (''DANDORI_WORKER_PUBLISH_CONCURRENCY'', Usize, 8, 1, 256),
      (''DANDORI_WORKER_TENANT_MAX_CONCURRENCY'', Usize, 8, 1, 256),
      (''DANDORI_WORKER_HTTP_CONNECT_TIMEOUT_MS'', U64, 2000, 1, 120000),
      (''DANDORI_WORKER_HTTP_REQUEST_TIMEOUT_MS'', U64, 10000, 1, 600000),
      (''DANDORI_WORKER_RETRY_JITTER_MS'', U64, 2000, 0, 60000),
      (''DANDORI_WORKER_CIRCUIT_FAILURE_THRESHOLD'', U32, 10, 0, 10000),
      (''DANDORI_WORKER_CIRCUIT_COOLDOWN_SECONDS'', I64, 30, 0, 3600),
      (''DANDORI_WORKER_BATCH_SIZE'', I64, 32, 1, 10000),
      (''DANDORI_WORKER_LEASE_SECONDS'', I64, 30, 1, 3600),
      (''DANDORI_WORKER_MAX_ATTEMPTS'', I32, 5, 1, 1000),
      (''DANDORI_WORKER_RETRY_BACKOFF_SECONDS'', I64, 15, 0, 3600),
      (''DANDORI_WORKER_DELIVERED_RETENTION_HOURS'', I64, 24, 1, 8760),
      (''DANDORI_WORKER_DEAD_LETTER_RETENTION_HOURS'', I64, 168, 1, 17520),
      (''DANDORI_WORKER_IDEMPOTENCY_RETENTION_HOURS'', I64, 168, 1, 17520),
      (''DANDORI_WORKER_HTTP_POOL_MAX_IDLE_PER_HOST'', Usize, 16, 0, 1024)]"

lemma and_then_OkE:
  assumes "and_then r f = Ok b"
  obtains a where "r = Ok a" "f a = Ok b"
  using assms by (auto simp: and_then_eq_Ok)

lemma settings_read_all:
  assumes "settings_from_env T L env generated = Ok settings"
  shows "list_all (\<lambda>(name, ty, d, lo, hi). is_ok (parse_env_bounded ty T env name d lo hi)) bounded_settings"
  using assms unfolding settings_from_env_def bounded_settings_def
  by (elim and_then_OkE) (simp only: list.pred_inject prod.case is_ok.simps simp_thms)

text \<open>The settings the code admits.\<close>

definition settings_in_bounds :: "worker_settings \<Rightarrow> bool" where
  "settings_in_bounds settings =
     (let c = ms_config settings; r = wc_partition_shard_buckets c in
      wc_workspace_ids c = None
      \<and> 50 \<le> ms_interval_ms settings \<and> ms_interval_ms settings \<le> 600000
      \<and> 1 \<le> wc_partition_batch c \<and> wc_partition_batch c \<le> 10000
      \<and> 1 \<le> wc_partition_lease_seconds c \<and> wc_partition_lease_seconds c \<le> 3600
      \<and> 1 \<le> wc_publish_concurrency c \<and> wc_publish_concurrency c \<le> 256
      \<and> 1 \<le> wc_tenant_max_concurrency c \<and> wc_tenant_max_concurrency c \<le> 256
      \<and> 1 \<le> wc_http_connect_timeout_ms c \<and> wc_http_connect_timeout_ms c \<le> 120000
      \<and> 1 \<le> wc_http_request_timeout_ms c \<and> wc_http_request_timeout_ms c \<le> 600000
      \<and> wc_retry_jitter_ms c \<le> 60000
      \<and> unat (wc_circuit_failure_threshold c) \<le> 10000
      \<and> 0 \<le> wc_circuit_cooldown_seconds c \<and> wc_circuit_cooldown_seconds c \<le> 3600
      \<and> 1 \<le> wc_batch_size c \<and> wc_batch_size c \<le> 10000
      \<and> 1 \<le> wc_lease_seconds c \<and> wc_lease_seconds c \<le> 3600
      \<and> 1 \<le> wc_max_attempts c \<and> wc_max_attempts c \<le> 1000
      \<and> 0 \<le> wc_retry_backoff_seconds c \<and> wc_retry_backoff_seconds c \<le> 3600
      \<and> 1 \<le> wc_delivered_retention_hours c \<and> wc_delivered_retention_hours c \<le> 8760
      \<and> 1 \<le> wc_dead_letter_retention_hours c \<and> wc_dead_letter_retention_hours c \<le> 17520
      \<and> 1 \<le> wc_idempotency_retention_hours c \<and> wc_idempotency_retention_hours c \<le> 17520
      \<and> wc_http_pool_max_idle_per_host c \<le> 1024
      \<and> 0 \<le> sbr_min r \<and> sbr_min r \<le> sbr_max r \<and> sbr_max r \<le> 1023)"

lemma bucket_range_valid:
  assumes "parse_shard_bucket_range T env name = Ok r"
  shows "0 \<le> sbr_min r \<and> sbr_min r \<le> sbr_max r \<and> sbr_max r \<le> 1023"
  using assms
  by (auto simp: parse_shard_bucket_range_def parse_bucket_range_def result_simps ShardBucketRange_new_def
      ShardBucketRange_full_def MAX_BUCKET_def split: option.splits if_splits)

lemma threshold_small: "0 \<le> v \<Longrightarrow> v \<le> 10000 \<Longrightarrow> unat (word_of_int v :: 32 word) \<le> 10000"
  by (simp add: unsigned_of_int take_bit_int_eq_self)

lemma settings_bounds:
  assumes "settings_from_env T L env generated = Ok settings"
  shows "settings_in_bounds settings"
  using assms unfolding settings_from_env_def
  apply (elim and_then_OkE)
  apply (drule bucket_range_valid)
  apply (drule setting_range, simp, simp)+
  apply (clarsimp simp: settings_in_bounds_def threshold_small nat_le_iff le_nat_iff)
  done

text \<open>
  C35: whatever the environment holds, the worker starts with every setting within its bounds and a
  valid bucket range, or refuses to start.
\<close>

theorem worker_settings_in_bounds:
  "case settings_from_env T L env generated of
     Inl error \<Rightarrow> True
   | Inr settings \<Rightarrow> settings_in_bounds settings"
  using settings_bounds by (auto split: sum.split)

text \<open>
  One variable whose text is not a numeral of its type within its bounds keeps the worker from
  starting, and it leaves the database as it is.
\<close>

theorem worker_fails_closed:
  assumes "(name, ty, default_value, lo, hi) \<in> set bounded_settings"
    and "case env name of
           Present text \<Rightarrow> \<not> (\<exists>v. numeral_of ty text v \<and> lo \<le> v \<and> v \<le> hi)
         | NotPresent \<Rightarrow> False
         | NotUnicode raw \<Rightarrow> True"
  shows "\<exists>error. worker_main T L status_text env generated cid migrated connected client_error events s
    = (Some (Err error), s)"
proof -
  have "\<not> is_ok (parse_env_bounded ty T env name default_value lo hi)"
    using assms(2)
    by (cases "parse_env_bounded ty T env name default_value lo hi")
       (auto simp: parse_env_bounded_def result_simps read_env_eq_Ok parse_bounded_eq_Ok split: env_var.splits)
  then have "\<not> (\<exists>settings. settings_from_env T L env generated = Ok settings)"
    using settings_read_all assms(1) by (fastforce simp: list_all_iff)
  then show ?thesis
    by (cases "settings_from_env T L env generated") (auto simp: worker_main_def)
qed

definition demo_texts :: texts where
  "demo_texts = \<lparr>tx_debug = quoted, tx_db = (\<lambda>_. ''error''), tx_uuid = uuid_bits, tx_time = show_int\<rparr>"

theorem worker_fails_closed_witness:
  "\<exists>error. worker_main demo_texts bits_leaf show_nat
      ((\<lambda>_. NotPresent)(''DANDORI_WORKER_BATCH_SIZE'' := Present ''0'')) 7 5 None None None [CtrlC]
      (demo_session [] demo_db) = (Some (Err error), demo_session [] demo_db)"
  by (rule worker_fails_closed [of "''DANDORI_WORKER_BATCH_SIZE''" I64 32 1 10000])
     (auto simp: bounded_settings_def read_nat_def byte_def elim!: numeral_of.cases)

section \<open>Retries under any configuration\<close>

text \<open>A worker with a backoff of twenty seconds and every other setting at its default.\<close>

definition quiet_env :: env_vars where
  "quiet_env = (\<lambda>_. NotPresent)(''DANDORI_DATABASE_URL'' := Present ''db'',
     ''DANDORI_WORKER_RETRY_BACKOFF_SECONDS'' := Present ''20'')"

lemma quiet_settings:
  "map_ok ms_config (settings_from_env demo_texts bits_leaf quiet_env 9)
     = Ok (worker_config_default\<lparr>wc_worker_instance_id := 9, wc_retry_backoff_seconds := 20\<rparr>)"
  by code_simp

text \<open>
  C28: a failure the worker records sets the event aside for good or for a bounded time, whatever the
  environment the worker was configured from: when a failed publication is settled, on any connection, the
  row is never due again if the failure is terminal or was the last attempt of the budget; otherwise it is
  due again exactly from one moment on, which is at least the configured backoff and at most the backoff
  and the configured jitter after the settlement, and never more than an hour and a minute.
\<close>

theorem retry_delay_bounded:
  assumes "settings_from_env T L env generated = Ok settings" and "config = ms_config settings"
    and "roll < wc_retry_jitter_ms config \<or> wc_retry_jitter_ms config = 0"
    and "outbox_ok (committed s)" "r \<in> set (outbox (committed s))" "o_id r = om_id message"
    and "apply_publish_outcome config auth now roll (message, Err error) report s = (Ok report', s')"
  shows "\<exists>r'\<in>set (outbox (committed s')). o_id r' = om_id message
    \<and> (if pe_kind error \<noteq> TransientKind \<or> wc_max_attempts config \<le> wrap_i32 (o_attempts r + 1)
       then \<forall>t. \<not> lease_due t r'
       else \<exists>delay. duration_seconds (wc_retry_backoff_seconds config) \<le> delay
         \<and> delay \<le> duration_seconds (wc_retry_backoff_seconds config)
             + duration_milliseconds (int (wc_retry_jitter_ms config))
         \<and> delay \<le> duration_seconds 3660
         \<and> (\<forall>t. lease_due t r' \<longleftrightarrow> now + delay \<le> t))"
proof -
  let ?f = "failure_of config now roll message error"
  let ?delay = "fc_retry_backoff ?f"
  have "fst (mark_outbox_failed auth (om_id message) ?f s) = Ok ()"
    and s': "s' = snd (mark_outbox_failed auth (om_id message) ?f s)"
    using assms(7) by (auto simp: apply_publish_outcome_def case_prod_beta Let_def result_simps)
  then have "mark_outbox_failed_spec auth (om_id message) ?f (committed s) = (Ok (), committed s')"
    using failed_op.returned by simp
  then have row: "failure_row ?f r r \<in> set (outbox (committed s'))"
    using settled_by_spec [OF assms(4) _ assms(5,6)] by (simp add: mark_outbox_failed_spec_def)
  have limits: "0 \<le> wc_retry_backoff_seconds config" "wc_retry_backoff_seconds config \<le> 3600"
    "wc_retry_jitter_ms config \<le> 60000"
    using settings_bounds [OF assms(1)] by (simp_all add: settings_in_bounds_def Let_def assms(2))
  have delay: "duration_seconds (wc_retry_backoff_seconds config) \<le> ?delay"
    "?delay \<le> duration_seconds (wc_retry_backoff_seconds config)
       + duration_milliseconds (int (wc_retry_jitter_ms config))"
    using assms(3) limits retry_backoff_bounds [OF limits(1), of roll "wc_retry_jitter_ms config"]
    by (auto simp: failure_of_def retry_backoff_with_jitter_def duration_milliseconds_def max_def)
  have terminal: "fc_classification ?f = Terminal \<longleftrightarrow> pe_kind error \<noteq> TransientKind"
    "fc_max_attempts ?f = wc_max_attempts config"
    by (cases "pe_kind error"; simp add: failure_of_def)+
  show ?thesis
  proof (intro bexI [OF _ row] conjI)
    show "o_id (failure_row ?f r r) = om_id message"
      using assms(6) by (simp add: failure_row_def Let_def dead_letter_row_def failed_row_def)
  qed (use delay limits terminal in \<open>auto simp: failure_row_def Let_def dead_letter_row_def
      failed_row_def lease_due_def failure_of_def duration_seconds_def duration_milliseconds_def
      intro!: exI [of _ ?delay]\<close>)
qed

lemma quiet_config:
  obtains settings where "settings_from_env demo_texts bits_leaf quiet_env 9 = Ok settings"
    "ms_config settings = worker_config_default\<lparr>wc_worker_instance_id := 9, wc_retry_backoff_seconds := 20\<rparr>"
  using quiet_settings by (auto simp: result_simps)

lemma demo_refused:
  assumes "wc_max_attempts config = 5"
  shows "\<exists>report s'. apply_publish_outcome config demo_auth 80 roll
      (demo_message, Err \<lparr>pe_kind = TransientKind, pe_message = ''down''\<rparr>) worker_report_default
      (demo_outbox [demo_leased_row]) = (Ok report, s')"
proof -
  let ?error = "\<lparr>pe_kind = TransientKind, pe_message = ''down''\<rparr>"
  let ?f = "failure_of config 80 roll demo_message ?error"
  let ?d = "demo_db\<lparr>outbox := [demo_leased_row]\<rparr>"
  have uk: "unique_key o_id (outbox ?d)" by (simp add: unique_key_def)
  have "settle demo_auth 31 77 9 80 (failure_row ?f) ?d
      = Inr (?d\<lparr>outbox := update_where (\<lambda>x. o_id x = 31) (failure_row ?f demo_leased_row) (outbox ?d)\<rparr>)"
    unfolding settle_Ok [OF uk]
    by (simp add: demo_auth_def lease_held_def outbox_row_checks failure_of_def text_at_most_def
        storable_def char_length_def continuation_def byte_def)
  then have "fst (mark_outbox_failed demo_auth 31 ?f (demo_outbox [demo_leased_row])) = Ok ()"
    using failed_op.fault_free [of "demo_outbox [demo_leased_row]" demo_auth 31 ?f]
    by (simp add: mark_outbox_failed_spec_def settle_spec_def failure_of_def)
  then show ?thesis by (simp add: apply_publish_outcome_def case_prod_beta Let_def)
qed

theorem retry_delay_bounded_witness:
  "\<exists>settings report s'. settings_from_env demo_texts bits_leaf quiet_env 9 = Ok settings
    \<and> apply_publish_outcome (ms_config settings) demo_auth 80 1500
        (demo_message, Err \<lparr>pe_kind = TransientKind, pe_message = ''down''\<rparr>) worker_report_default
        (demo_outbox [demo_leased_row]) = (Ok report, s')
    \<and> (\<exists>r'\<in>set (outbox (committed s')). o_id r' = 31 \<and> lease_due (80 + 22000000) r'
         \<and> \<not> lease_due (80 + 19999999) r')"
proof -
  obtain settings where cfg: "settings_from_env demo_texts bits_leaf quiet_env 9 = Ok settings"
    "ms_config settings = worker_config_default\<lparr>wc_worker_instance_id := 9, wc_retry_backoff_seconds := 20\<rparr>"
    by (rule quiet_config)
  have limits: "wc_max_attempts (ms_config settings) = 5" "wc_retry_jitter_ms (ms_config settings) = 2000"
    "wc_retry_backoff_seconds (ms_config settings) = 20"
    by (simp_all add: cfg(2) worker_config_default_def)
  obtain report s' where run: "apply_publish_outcome (ms_config settings) demo_auth 80 1500
      (demo_message, Err \<lparr>pe_kind = TransientKind, pe_message = ''down''\<rparr>) worker_report_default
      (demo_outbox [demo_leased_row]) = (Ok report, s')"
    using demo_refused [OF limits(1)] by blast
  have "\<exists>r'\<in>set (outbox (committed s')). o_id r' = 31
      \<and> (\<exists>delay. 20000000 \<le> delay \<and> delay \<le> 22000000 \<and> (\<forall>t. lease_due t r' \<longleftrightarrow> 80 + delay \<le> t))"
    using retry_delay_bounded [OF cfg(1) refl _ _ _ _ run, of demo_leased_row]
    by (simp add: limits demo_outbox_ok wrap_i32_def duration_seconds_def duration_milliseconds_def) blast
  then have "\<exists>r'\<in>set (outbox (committed s')). o_id r' = 31 \<and> lease_due (80 + 22000000) r'
      \<and> \<not> lease_due (80 + 19999999) r'"
    by fastforce
  with cfg(1) run show ?thesis by blast
qed

section \<open>A stopped worker hands its partitions back\<close>

text \<open>The acquisitions of the cycles that took a workspace, in their order.\<close>

fun acquisitions :: "worker_env \<Rightarrow> uuid \<Rightarrow> loop_event list \<Rightarrow> process_world \<Rightarrow> uuid list list" where
  "acquisitions env cid (Pause_over now ticks # events) (m, s, b) =
     (case fst (acquire_workspaces (we_config env) cid now (m, s)) of
        Inl error \<Rightarrow> []
      | Inr ids \<Rightarrow>
          (if ids = [] then [] else [ids])
            @ (case run_once env cid now ticks (m, s, b) of
                 (Some (Inr report), w') \<Rightarrow> acquisitions env cid events w'
               | other \<Rightarrow> []))"
| "acquisitions env cid events w = []"

lemma acquire_workspaces_memory:
  assumes "acquire_workspaces config cid now (m, s) = (r, m', s')" "wc_workspace_ids config = None"
  shows "mem_leased m' = (case r of Inr ids \<Rightarrow> if ids = [] then mem_leased m else ids | Inl e \<Rightarrow> mem_leased m)"
  using assms by (auto simp: acquire_workspaces_def Let_def split: prod.splits sum.splits)

lemma run_once_memory:
  "fst (snd (run_once env cid now ticks (m, s, b))) = fst (snd (acquire_workspaces (we_config env) cid now (m, s)))"
  by (auto simp: run_once_def Let_def split: prod.splits sum.splits)

lemma loop_memory:
  assumes "run_loop env cid events (m, s, b) = (Some outcome, (m', s', b'))" "wc_workspace_ids (we_config env) = None"
  shows "mem_leased m' = last (mem_leased m # acquisitions env cid events (m, s, b))"
  using assms
proof (induction env cid events "(m, s, b)" arbitrary: m s b rule: run_loop.induct)
  case (3 env cid now ticks events)
  obtain r m1 s1 where acq: "acquire_workspaces (we_config env) cid now (m, s) = (r, m1, s1)"
    by (cases "acquire_workspaces (we_config env) cid now (m, s)")
  obtain o1 m2 s2 b2 where once: "run_once env cid now ticks (m, s, b) = (o1, m2, s2, b2)"
    by (cases "run_once env cid now ticks (m, s, b)")
  have "m2 = m1" using run_once_memory [of env cid now ticks m s b] by (simp add: acq once)
  with acquire_workspaces_memory [OF acq "3.prems"(2)]
  have m2: "mem_leased m2 = (case r of Inr ids \<Rightarrow> if ids = [] then mem_leased m else ids | Inl e \<Rightarrow> mem_leased m)"
    by simp
  show ?case
  proof (cases o1)
    case None
    then show ?thesis using "3.prems"(1) by (simp add: once)
  next
    case (Some res)
    show ?thesis
    proof (cases res)
      case (Inl error)
      then show ?thesis
        using "3.prems"(1) Some m2 once
        by (auto simp: acq run_once_def split: sum.splits)
    next
      case (Inr report)
      then have r: "\<exists>ids. r = Inr ids"
        using once Some acq by (cases r) (auto simp: run_once_def)
      have "mem_leased m' = last (mem_leased m2 # acquisitions env cid events (m2, s2, b2))"
        by (rule "3.hyps") (use "3.prems" Some Inr once in auto)
      then show ?thesis using m2 r by (auto simp: acq once Some Inr)
    qed
  qed
qed (auto)

text \<open>
  C36: when the worker stops, by the signal or by a failed cycle, and the database answers, the leases
  of its last acquisition are gone, its memory of them is empty, and nothing else has changed: another
  worker finds those workspaces free at once.
\<close>

theorem stopped_worker_frees_last_acquisition:
  assumes "wc_workspace_ids (we_config env) = None"
    and "run_loop env cid events (\<lparr>mem_leased = []\<rparr>, s, b) = (Some outcome, (m', s', b'))"
    and "faults s' = []"
  shows "case run_and_release env cid events (\<lparr>mem_leased = []\<rparr>, s, b) of (answer, (m'', s'', b'')) \<Rightarrow>
    answer = Some outcome \<and> mem_leased m'' = []
    \<and> committed s'' = (committed s')\<lparr>partition_leases :=
        filter (\<lambda>l. \<not> (l_workspace_id l \<in> set (last ([] # acquisitions env cid events (\<lparr>mem_leased = []\<rparr>, s, b)))
                     \<and> l_lease_owner l = wc_worker_instance_id (we_config env)))
          (partition_leases (committed s'))\<rparr>"
proof -
  define taken where
    "taken = last ([] # acquisitions env cid events (\<lparr>mem_leased = []\<rparr>, s, b))"
  have mem: "mem_leased m' = taken"
    using loop_memory [OF assms(2,1)] by (simp add: taken_def)
  obtain r s'' where rel: "release_partitions (wc_worker_instance_id (we_config env)) taken s' = (r, s'')"
    by (cases "release_partitions (wc_worker_instance_id (we_config env)) taken s'")
  have "committed s'' = snd (release_partitions_spec (wc_worker_instance_id (we_config env)) taken (committed s'))"
    using release_op.fault_free(2) [OF assms(3), of "wc_worker_instance_id (we_config env)" taken]
    by (simp add: rel)
  then show ?thesis
    using assms(1) rel unfolding taken_def [symmetric]
    by (cases "taken = []")
       (simp_all add: run_and_release_def assms(2) release_worker_partitions_def mem
         release_partitions_spec_def delete_where_def Let_def)
qed

text \<open>The leases are forgotten before they are released: a failed release is not made good by another.\<close>

lemma failed_release_forgets:
  assumes "release_worker_partitions config cid (m, s) = (Err e, m', s')"
  shows "mem_leased m' = [] \<and> release_worker_partitions config cid' (m', s') = (Ok (), m', s')"
  using assms by (auto simp: release_worker_partitions_def Let_def split: prod.splits if_splits)

text \<open>A worker on the small database: one cycle, then the signal.\<close>

definition demo_worker_env :: worker_env where
  "demo_worker_env = \<lparr>we_leaf = bits_leaf, we_status_text = show_nat,
     we_config = worker_config_default\<lparr>wc_worker_instance_id := 7\<rparr>,
     we_publisher = NoopPublisher, we_registry = default_registry\<rparr>"

definition demo_events :: "loop_event list" where
  "demo_events = [Pause_over 50
     [(0, LeaseTick 51 {} 0 0), (0, CleanupOutboxTick 52 52 0), (0, CleanupIdempotencyTick 53 0)], CtrlC]"

definition demo_breaker :: breaker where
  "demo_breaker = \<lparr>consecutive_failures = 0, circuit_open_until_epoch = 0\<rparr>"

lemma demo_run:
  "case run_loop demo_worker_env 5 demo_events (\<lparr>mem_leased = []\<rparr>, demo_session [] demo_db, demo_breaker) of
     (r, (m, s, b)) \<Rightarrow> r = Some (Ok ()) \<and> mem_leased m = [1] \<and> faults s = []
        \<and> map l_workspace_id (partition_leases (committed s)) = [1]"
  by code_simp

theorem stopped_worker_frees_last_acquisition_witness:
  "case run_and_release demo_worker_env 5 demo_events
      (\<lparr>mem_leased = []\<rparr>, demo_session [] demo_db, demo_breaker) of
     (answer, (m, s, b)) \<Rightarrow> answer = Some (Ok ()) \<and> mem_leased m = []"
proof -
  obtain m s b where run: "run_loop demo_worker_env 5 demo_events
      (\<lparr>mem_leased = []\<rparr>, demo_session [] demo_db, demo_breaker) = (Some (Ok ()), (m, s, b))"
    and ok: "faults s = []"
    using demo_run by (auto split: prod.splits)
  show ?thesis
    using stopped_worker_frees_last_acquisition [OF _ run ok]
    by (auto simp: demo_worker_env_def worker_config_default_def split: prod.splits)
qed

section \<open>Tenants beyond the batch are never served\<close>

text \<open>
  A workspace that has \<open>partition_batch\<close> others before it in the bucket range of a worker is
  assigned to that worker by no cycle, whoever holds the leases of those before it, and even when
  nobody does: the limit cuts the list of all workspaces, not that of the free ones.
\<close>

theorem tenant_beyond_batch_never_served:
  assumes "wc_workspace_ids (we_config env) = None" "schema_ok (committed s)"
    and "w \<in> set (workspaces (committed s))" "wc_partition_batch (we_config env) \<le> 10000"
    and "wc_partition_batch (we_config env) \<le> length (filter
           (\<lambda>x. sbr_min (wc_partition_shard_buckets (we_config env)) \<le> w_shard_bucket x
              \<and> w_shard_bucket x \<le> sbr_max (wc_partition_shard_buckets (we_config env))
              \<and> (w_shard_bucket x, w_id x) < (w_shard_bucket w, w_id w)) (workspaces (committed s)))"
  shows "w_id w \<notin> set (assigned_tenants env cid now (m, s))"
proof -
  have limit: "in_i64 (int (wc_partition_batch (we_config env)))"
    "int (wc_partition_batch (we_config env)) < 2 ^ 31"
    using assms(4) by (simp_all add: in_i64_def)
  show ?thesis
    using limit assms acquire_within_window [OF _ assms(2) _ limit(2) assms(3),
        of "wc_worker_instance_id (we_config env)" now
           "now + duration_seconds (wc_partition_lease_seconds (we_config env))"
           "wc_partition_shard_buckets (we_config env)"]
    by (auto simp: assigned_tenants_def acquire_workspaces_def Let_def split: prod.splits sum.splits)
qed

theorem tenant_beyond_batch_never_served_witness:
  "2 \<notin> set (assigned_tenants
      (demo_worker_env\<lparr>we_config := worker_config_default\<lparr>wc_worker_instance_id := 7, wc_partition_batch := 1\<rparr>\<rparr>)
      5 50 (\<lparr>mem_leased = []\<rparr>, demo_session [] two_workspaces))"
  using tenant_beyond_batch_never_served
    [of "demo_worker_env\<lparr>we_config := worker_config_default\<lparr>wc_worker_instance_id := 7, wc_partition_batch := 1\<rparr>\<rparr>"
        "demo_session [] two_workspaces" "workspaces two_workspaces ! 1" 5 50 "\<lparr>mem_leased = []\<rparr>"] two_workspaces_ok
  by (simp add: two_workspaces_def empty_db_def worker_config_default_def ShardBucketRange_full_def
      MAX_BUCKET_def)

end
