(* ===== verification/Outbox_Refinement.thy ===== *)
theory Outbox_Refinement
  imports Store_Guarantees "HOL-Library.Sublist"
begin

text \<open>
  The outbox as its clients may picture it: a ledger of announced events, each waiting, in flight under
  a lease, sent, or dead.  Every call of the store has one effect on the ledger, a function of the
  arguments of the call: whose clock, whose token, which tenant.  The tables, statements, sessions and
  faults of the store refine it: what a call that takes effect makes of the rows is what its effect
  makes of the ledger.
\<close>

section \<open>The ledger\<close>

datatype delivery_state =
    Waiting int timestamp
  | InFlight int timestamp uuid uuid timestamp
  | Sent timestamp
  | Dead int timestamp

text \<open>
  \<open>Waiting n a\<close>: after \<open>n\<close> failed attempts, available from \<open>a\<close>.  \<open>InFlight n a token owner u\<close>: leased to
  \<open>owner\<close> under \<open>token\<close> until \<open>u\<close>.  \<open>Sent t\<close>: delivered at \<open>t\<close>.  \<open>Dead n t\<close>: given up after \<open>n\<close> attempts at \<open>t\<close>.
\<close>

record ledger_entry =
  en_tenant :: uuid
  en_event_id :: uuid
  en_payload :: json
  en_state :: delivery_state

type_synonym ledger = "uuid \<Rightarrow> ledger_entry option"

subsection \<open>Taking a batch\<close>

fun due :: "timestamp \<Rightarrow> delivery_state \<Rightarrow> bool" where
  "due now (Waiting n a) \<longleftrightarrow> a \<le> now"
| "due now (InFlight n a token owner u) \<longleftrightarrow> u \<le> now"
| "due now _ \<longleftrightarrow> False"

fun available_from :: "delivery_state \<Rightarrow> timestamp" where
  "available_from (Waiting n a) = a"
| "available_from (InFlight n a token owner u) = a"
| "available_from (Sent t) = t"
| "available_from (Dead n t) = t"

definition candidate :: "uuid set \<Rightarrow> uuid \<Rightarrow> timestamp \<Rightarrow> ledger \<Rightarrow> uuid \<Rightarrow> bool" where
  "candidate locked w now l i \<longleftrightarrow>
     i \<notin> locked \<and> (\<exists>e. l i = Some e \<and> en_tenant e = w \<and> due now (en_state e))"

definition queue_key :: "ledger \<Rightarrow> uuid \<Rightarrow> timestamp \<times> uuid" where
  "queue_key l i = (available_from (en_state (the (l i))), i)"

text \<open>The batch: the candidates with fewer than \<open>n\<close> candidates before them.\<close>

definition in_batch :: "uuid set \<Rightarrow> uuid \<Rightarrow> timestamp \<Rightarrow> int \<Rightarrow> ledger \<Rightarrow> uuid \<Rightarrow> bool" where
  "in_batch locked w now n l i \<longleftrightarrow>
     candidate locked w now l i
     \<and> card {j. candidate locked w now l j \<and> queue_key l j < queue_key l i} < nat n"

fun taken :: "uuid \<Rightarrow> uuid \<Rightarrow> timestamp \<Rightarrow> delivery_state \<Rightarrow> delivery_state" where
  "taken token owner u (Waiting n a) = InFlight n a token owner u"
| "taken token owner u (InFlight n a _ _ _) = InFlight n a token owner u"
| "taken token owner u other = other"

subsection \<open>Settling and forgetting\<close>

text \<open>\<open>holds\<close>: the caller presents the token of its own running lease on an event of its tenant.\<close>

definition holds :: "auth_context \<Rightarrow> uuid \<Rightarrow> uuid \<Rightarrow> uuid \<Rightarrow> timestamp \<Rightarrow> ledger \<Rightarrow> bool" where
  "holds auth i token owner now l \<longleftrightarrow>
     owner = auth_actor_id auth
     \<and> (\<exists>e n a u. l i = Some e \<and> en_tenant e = auth_workspace_id auth
          \<and> en_state e = InFlight n a token owner u \<and> now < u)"

fun attempts_made :: "delivery_state \<Rightarrow> int" where
  "attempts_made (Waiting n a) = n"
| "attempts_made (InFlight n a token owner u) = n"
| "attempts_made (Sent t) = 0"
| "attempts_made (Dead n t) = n"

definition after_failure :: "failure_context \<Rightarrow> delivery_state \<Rightarrow> delivery_state" where
  "after_failure f st =
     (let n = wrap_i32 (attempts_made st + 1) in
      if fc_classification f = Terminal \<or> fc_max_attempts f \<le> n then Dead n (fc_now f)
      else Waiting n (fc_now f + fc_retry_backoff f))"

fun forgettable :: "timestamp \<Rightarrow> timestamp \<Rightarrow> delivery_state \<Rightarrow> bool" where
  "forgettable sent_before dead_before (Sent t) \<longleftrightarrow> t < sent_before"
| "forgettable sent_before dead_before (Dead n t) \<longleftrightarrow> t < dead_before"
| "forgettable sent_before dead_before _ \<longleftrightarrow> False"

definition restate :: "uuid \<Rightarrow> (delivery_state \<Rightarrow> delivery_state) \<Rightarrow> ledger \<Rightarrow> ledger" where
  "restate i f l = l(i := map_option (\<lambda>e. e\<lparr>en_state := f (en_state e)\<rparr>) (l i))"

subsection \<open>The effect of a call\<close>

fun ledger_effect :: "leaf \<Rightarrow> store_call \<Rightarrow> ledger \<Rightarrow> ledger" where
  "ledger_effect L (CreateIssueCall draws auth c e) l =
     (if l (dr_outbox_id draws) = None
      then l(dr_outbox_id draws \<mapsto>
             \<lparr>en_tenant = auth_workspace_id auth, en_event_id = ice_event_id e,
              en_payload = issue_created_ser L e, en_state = Waiting 0 (ice_occurred_at e)\<rparr>)
      else l)"
| "ledger_effect L (LeaseBatchCall locked token auth now lease_for n) l =
     (\<lambda>i. if in_batch locked (auth_workspace_id auth) now n l i
          then restate i (taken token (auth_actor_id auth) (now + lease_for)) l i else l i)"
| "ledger_effect L (MarkDeliveredCall auth i token owner now) l =
     (if holds auth i token owner now l then restate i (\<lambda>_. Sent now) l else l)"
| "ledger_effect L (MarkFailedCall auth i f) l =
     (if holds auth i (fc_lease_token f) (fc_lease_owner f) (fc_now f) l
         \<and> text_at_most 4000 (fc_error_message f)
      then restate i (after_failure f) l else l)"
| "ledger_effect L (CleanupOutboxCall auth t u) l =
     (\<lambda>i. case l i of
            None \<Rightarrow> None
          | Some e \<Rightarrow> if en_tenant e = auth_workspace_id auth \<and> forgettable t u (en_state e)
                     then None else Some e)"
| "ledger_effect L _ l = l"

section \<open>The abstraction\<close>

definition state_of_row :: "outbox_row \<Rightarrow> delivery_state" where
  "state_of_row r =
     (case o_status r of
        Pending \<Rightarrow> Waiting (o_attempts r) (o_available_at r)
      | Failed \<Rightarrow> Waiting (o_attempts r) (o_available_at r)
      | Leased \<Rightarrow> InFlight (o_attempts r) (o_available_at r) (the (o_lease_token r)) (the (o_lease_owner r))
                   (the (o_leased_until r))
      | Delivered \<Rightarrow> Sent (the (o_published_at r))
      | DeadLetter \<Rightarrow> Dead (o_attempts r) (o_updated_at r))"

definition entry_of :: "outbox_row \<Rightarrow> ledger_entry" where
  "entry_of r = \<lparr>en_tenant = o_workspace_id r, en_event_id = o_event_id r, en_payload = o_payload r,
     en_state = state_of_row r\<rparr>"

definition ledger_of :: "outbox_row list \<Rightarrow> ledger" where
  "ledger_of rs = map_of (map (\<lambda>r. (o_id r, entry_of r)) rs)"

lemma entry_of_fields [simp]:
  "en_tenant (entry_of r) = o_workspace_id r" "en_state (entry_of r) = state_of_row r"
  by (simp_all add: entry_of_def)

lemma ledger_of_row:
  assumes "unique_key o_id rs" "r \<in> set rs"
  shows "ledger_of rs (o_id r) = Some (entry_of r)"
  using assms by (auto simp: ledger_of_def unique_key_def comp_def intro!: map_of_is_SomeI)

lemma ledger_of_None: "ledger_of rs i = None \<longleftrightarrow> i \<notin> o_id ` set rs"
  by (auto simp: ledger_of_def map_of_eq_None_iff image_image)

lemma ledger_of_Some:
  assumes "unique_key o_id rs"
  shows "ledger_of rs i = Some e \<longleftrightarrow> (\<exists>r\<in>set rs. o_id r = i \<and> e = entry_of r)"
  using ledger_of_row [OF assms] ledger_of_None [of rs i] by fastforce

text \<open>A ledger that says what the rows say is the ledger of the rows.\<close>

lemma ledger_ofI:
  assumes "unique_key o_id rs" "\<And>r. r \<in> set rs \<Longrightarrow> l (o_id r) = Some (entry_of r)"
    and "\<And>i. i \<notin> o_id ` set rs \<Longrightarrow> l i = None"
  shows "ledger_of rs = l"
proof
  fix i
  show "ledger_of rs i = l i"
    using assms ledger_of_row [OF assms(1)] ledger_of_None [of rs i] by (cases "i \<in> o_id ` set rs") auto
qed

lemma unique_key_map: "unique_key o_id rs \<Longrightarrow> \<forall>r\<in>set rs. o_id (f r) = o_id r \<Longrightarrow> unique_key o_id (map f rs)"
  by (simp add: unique_key_def comp_def cong: map_cong)

lemma ledger_update_where:
  assumes "unique_key o_id rs" "\<And>r. o_id (f r) = o_id r"
    and "\<And>r. r \<in> set rs \<Longrightarrow> l (o_id r) = Some (entry_of (if P r then f r else r))"
    and "\<And>i. i \<notin> o_id ` set rs \<Longrightarrow> l i = None"
  shows "ledger_of (update_where P f rs) = l"
proof -
  let ?f = "\<lambda>r. if P r then f r else r"
  have id: "o_id (?f r) = o_id r" for r using assms(2) by simp
  have "ledger_of (map ?f rs) = l"
  proof (rule ledger_ofI)
    show "unique_key o_id (map ?f rs)" by (rule unique_key_map [OF assms(1)]) (use id in blast)
    show "l (o_id r') = Some (entry_of r')" if r': "r' \<in> set (map ?f rs)" for r'
    proof -
      obtain r where r: "r \<in> set rs" "r' = ?f r" using r' by auto
      from assms(3) [OF r(1)] show ?thesis unfolding r(2) id .
    qed
    show "l i = None" if "i \<notin> o_id ` set (map ?f rs)" for i
    proof (rule assms(4))
      have "o_id ` set (map ?f rs) = o_id ` set rs"
        unfolding set_map image_image id by (rule refl)
      with that show "i \<notin> o_id ` set rs" by simp
    qed
  qed
  then show ?thesis by (simp add: update_where_def)
qed

section \<open>The batch of the statement\<close>

text \<open>The first \<open>n\<close> of a sorted list are the elements with fewer than \<open>n\<close> smaller ones.\<close>

lemma take_sorted_rank:
  fixes k :: "'a \<Rightarrow> 'b::linorder"
  assumes "sorted (map k xs)" "distinct (map k xs)"
  shows "x \<in> set (take n xs) \<longleftrightarrow> x \<in> set xs \<and> card {y \<in> set xs. k y < k x} < n"
proof (cases "x \<in> set xs")
  case True
  then obtain i where i: "i < length xs" "x = xs ! i" by (metis in_set_conv_nth)
  have inj: "inj_on k (set xs)" and dist: "distinct xs" using assms(2) by (simp_all add: distinct_map)
  have mono: "k (xs ! j) < k (xs ! i) \<longleftrightarrow> j < i" if "j < length xs" for j
  proof
    assume less: "k (xs ! j) < k (xs ! i)"
    show "j < i"
    proof (rule ccontr)
      assume "\<not> j < i"
      then have "k (xs ! i) \<le> k (xs ! j)" using sorted_nth_mono [OF assms(1), of i j] that by simp
      with less show False by simp
    qed
  next
    assume "j < i"
    then have "k (xs ! j) \<le> k (xs ! i)" using sorted_nth_mono [OF assms(1), of j i] i by simp
    moreover have "k (xs ! j) \<noteq> k (xs ! i)"
      using inj_onD [OF inj, of "xs ! j" "xs ! i"] nth_eq_iff_index_eq [OF dist that i(1)] \<open>j < i\<close> that i(1) by auto
    ultimately show "k (xs ! j) < k (xs ! i)" by simp
  qed
  have "{y \<in> set xs. k y < k x} = set (take i xs)"
    using mono i unfolding nth_image [OF less_imp_le [OF i(1)], symmetric]
    by (auto simp: in_set_conv_nth) (metis less_trans)
  then have "card {y \<in> set xs. k y < k x} = i" using dist i(1) by (simp add: distinct_card)
  moreover have "x \<in> set (take n xs) \<longleftrightarrow> i < n"
    using i dist by (auto simp: in_set_conv_nth nth_eq_iff_index_eq)
  ultimately show ?thesis using True by simp
qed (auto dest: in_set_takeD)

lemma due_state:
  "row_coherent r \<Longrightarrow> due now (state_of_row r) = lease_due now r"
  by (cases "o_status r") (auto simp: state_of_row_def lease_due_def row_coherent_def)

lemma available_state: "lease_due now r \<Longrightarrow> available_from (state_of_row r) = o_available_at r"
  by (auto simp: state_of_row_def lease_due_def)

lemma in_batch_choice:
  assumes "unique_key o_id (outbox d)" "list_all row_coherent (outbox d)" "r \<in> set (outbox d)"
  shows "in_batch locked w now n (ledger_of (outbox d)) (o_id r) \<longleftrightarrow> o_id r \<in> lease_choice locked w now n d"
proof -
  let ?l = "ledger_of (outbox d)" and ?xs = "due_in_order locked w now d"
  let ?k = "\<lambda>r. (o_available_at r, o_id r)"
  have rows: "x \<in> set ?xs \<longleftrightarrow>
      x \<in> set (outbox d) \<and> o_workspace_id x = w \<and> lease_due now x \<and> o_id x \<notin> locked" for x
    by (auto simp: due_in_order_def)
  have inj: "inj_on o_id (set (outbox d))" and dist: "distinct (outbox d)"
    using assms(1) by (simp_all add: unique_key_def distinct_map)
  have cand: "candidate locked w now ?l (o_id x) \<longleftrightarrow> x \<in> set ?xs" if "x \<in> set (outbox d)" for x
    using that assms(2) due_state [of x now]
    by (auto simp: candidate_def ledger_of_row [OF assms(1)] rows list_all_iff)
  have key: "queue_key ?l (o_id x) = ?k x" if "x \<in> set ?xs" for x
    using that available_state [of now x] by (simp add: queue_key_def rows ledger_of_row [OF assms(1)])
  have "sorted (map ?k ?xs)" by (simp add: due_in_order_def sorted_filter)
  moreover have "distinct (map ?k ?xs)"
    using inj dist by (auto simp: due_in_order_def distinct_map inj_on_def)
  ultimately have rank: "x \<in> set (take (nat n) ?xs) \<longleftrightarrow>
      x \<in> set ?xs \<and> card {y \<in> set ?xs. ?k y < ?k x} < nat n" for x
    by (rule take_sorted_rank)
  have choice: "o_id r \<in> lease_choice locked w now n d \<longleftrightarrow> r \<in> set (take (nat n) ?xs)"
    using inj_onD [OF inj] assms(3) rows by (fastforce simp: lease_choice_def dest: in_set_takeD)
  show ?thesis
  proof (cases "r \<in> set ?xs")
    case True
    have "{j. candidate locked w now ?l j \<and> queue_key ?l j < queue_key ?l (o_id r)}
        = o_id ` {y \<in> set ?xs. ?k y < ?k r}"
    proof (intro equalityI subsetI)
      fix j assume j: "j \<in> {j. candidate locked w now ?l j \<and> queue_key ?l j < queue_key ?l (o_id r)}"
      then obtain x where "x \<in> set (outbox d)" "o_id x = j"
        by (auto simp: candidate_def ledger_of_Some [OF assms(1)])
      with j cand key True show "j \<in> o_id ` {y \<in> set ?xs. ?k y < ?k r}" by fastforce
    next
      fix j assume "j \<in> o_id ` {y \<in> set ?xs. ?k y < ?k r}"
      then obtain y where y: "y \<in> set ?xs" "?k y < ?k r" "j = o_id y" by blast
      moreover from y(1) have "y \<in> set (outbox d)" by (simp add: rows)
      ultimately show "j \<in> {j. candidate locked w now ?l j \<and> queue_key ?l j < queue_key ?l (o_id r)}"
        using cand key True by simp
    qed
    moreover have "card (o_id ` {y \<in> set ?xs. ?k y < ?k r}) = card {y \<in> set ?xs. ?k y < ?k r}"
      by (intro card_image inj_on_subset [OF inj]) (auto simp: rows)
    ultimately show ?thesis
      using True cand [OF assms(3)] rank [of r] choice by (simp add: in_batch_def)
  next
    case False
    then show ?thesis using cand [OF assms(3)] rank [of r] choice by (simp add: in_batch_def)
  qed
qed

section \<open>What a call makes of the rows it makes of the ledger\<close>

lemma restate_row:
  "unique_key o_id rs \<Longrightarrow> r \<in> set rs \<Longrightarrow>
     restate i f (ledger_of rs) (o_id r) =
       Some (if o_id r = i then (entry_of r)\<lparr>en_state := f (state_of_row r)\<rparr> else entry_of r)"
  using ledger_of_row [of rs r] by (auto simp: restate_def)

lemma restate_None: "restate i f l j = None \<longleftrightarrow> l j = None"
  by (simp add: restate_def)

lemma lease_on_ledger:
  assumes "schema_ok d" "list_all row_coherent (outbox d)"
  shows "ledger_of (outbox (snd (lease_outbox_batch_spec locked token auth now lease_for n d)))
    = ledger_effect L (LeaseBatchCall locked token auth now lease_for n) (ledger_of (outbox d))"
    (is "_ = ?l")
proof (cases "0 \<le> n")
  case True
  have ok: "outbox_ok d" "unique_key o_id (outbox d)"
    using assms(1) by (auto simp: schema_ok_def outbox_ok_def)
  let ?C = "\<lambda>r. o_id r \<in> lease_choice locked (auth_workspace_id auth) now n d"
  let ?f = "leased_row now (now + lease_for) token (auth_actor_id auth)"
  have "ledger_of (update_where ?C ?f (outbox d)) = ?l"
  proof (rule ledger_update_where [OF ok(2)])
    show "o_id (?f r) = o_id r" for r by (simp add: row_identities)
    show "?l i = None" if "i \<notin> o_id ` set (outbox d)" for i
      using that by (simp add: restate_None ledger_of_None)
    show "?l (o_id r) = Some (entry_of (if ?C r then ?f r else r))" if r: "r \<in> set (outbox d)" for r
    proof (cases "?C r")
      case True
      have "lease_due now r" using lease_choice_row [OF ok(2) r True] by blast
      then have "entry_of (?f r) = (entry_of r)
          \<lparr>en_state := taken token (auth_actor_id auth) (now + lease_for) (state_of_row r)\<rparr>"
        by (auto simp: entry_of_def state_of_row_def leased_row_def lease_due_def)
      with True in_batch_choice [OF ok(2) assms(2) r] show ?thesis by (simp add: restate_row [OF ok(2) r])
    next
      case False
      with in_batch_choice [OF ok(2) assms(2) r] show ?thesis by (simp add: ledger_of_row [OF ok(2) r])
    qed
  qed
  then show ?thesis
    by (simp add: lease_outbox_batch_spec_def lease_statement_Ok [OF ok(1) True] Let_def)
next
  case False
  then have "?l = ledger_of (outbox d)" by (auto simp: in_batch_def)
  with False show ?thesis by (simp add: lease_outbox_batch_spec_def lease_statement_def)
qed

lemma held_on_ledger:
  assumes "unique_key o_id (outbox d)" "list_all row_coherent (outbox d)"
  shows "holds auth i token owner now (ledger_of (outbox d)) \<longleftrightarrow>
    owner = auth_actor_id auth \<and> (\<exists>r\<in>set (outbox d). lease_held (auth_workspace_id auth) i token owner now r)"
proof -
  have "(\<exists>n a u. state_of_row r = InFlight n a token owner u \<and> now < u) \<longleftrightarrow>
      o_status r = Leased \<and> o_lease_token r = Some token \<and> o_lease_owner r = Some owner
      \<and> (case o_leased_until r of None \<Rightarrow> False | Some u \<Rightarrow> now < u)" if "r \<in> set (outbox d)" for r
    using bspec [OF assms(2) [unfolded list_all_iff] that]
    by (cases "o_status r") (auto simp: state_of_row_def row_coherent_def)
  then show ?thesis
    unfolding holds_def ledger_of_Some [OF assms(1)] by (auto simp: lease_held_def) blast+
qed

lemma settle_on_ledger:
  assumes "schema_ok d" "list_all row_coherent (outbox d)"
    and "\<And>r r'. o_id (f r r') = o_id r'"
    and "\<And>r. r \<in> set (outbox d) \<Longrightarrow> outbox_checks (f r r) \<longleftrightarrow> fits"
    and "\<And>r. entry_of (f r r) = (entry_of r)\<lparr>en_state := g (state_of_row r)\<rparr>
               \<or> \<not> lease_held (auth_workspace_id auth) i token owner now r"
  shows "ledger_of (outbox (snd (settle_spec auth i token owner now f d))) =
    (if holds auth i token owner now (ledger_of (outbox d)) \<and> fits
     then restate i g (ledger_of (outbox d)) else ledger_of (outbox d))"
proof -
  have uk: "unique_key o_id (outbox d)" using assms(1) by (auto simp: schema_ok_def outbox_ok_def)
  note held = held_on_ledger [OF uk assms(2), of auth i token owner now]
  show ?thesis
  proof (cases "settle auth i token owner now f d")
    case (Inl e)
    then have refused: "\<not> (holds auth i token owner now (ledger_of (outbox d)) \<and> fits)"
      using settle_Ok [OF uk, of auth i token owner now f] assms(4) unfolding held by (metis sum.distinct(1))
    show ?thesis unfolding if_not_P [OF refused] using Inl by (simp add: settle_spec_def)
  next
    case (Inr d')
    then obtain r where r: "r \<in> set (outbox d)" "lease_held (auth_workspace_id auth) i token owner now r"
      "owner = auth_actor_id auth" "outbox_checks (f r r)"
      "d' = d\<lparr>outbox := update_where (\<lambda>x. o_id x = i) (f r) (outbox d)\<rparr>"
      unfolding settle_Ok [OF uk] by blast
    have i: "o_id r = i" using r(2) by (simp add: lease_held_def)
    have "ledger_of (update_where (\<lambda>x. o_id x = i) (f r) (outbox d)) = restate i g (ledger_of (outbox d))"
    proof (rule ledger_update_where [OF uk assms(3)])
      show "restate i g (ledger_of (outbox d)) (o_id x) = Some (entry_of (if o_id x = i then f r x else x))"
        if x: "x \<in> set (outbox d)" for x
      proof (cases "o_id x = i")
        case True
        then have "x = r" using unique_keyD [OF uk x r(1)] i by simp
        with assms(5) [of r] r(2) restate_row [OF uk r(1), of i g] i show ?thesis by simp
      qed (simp add: restate_row [OF uk x])
    qed (simp add: restate_None ledger_of_None)
    moreover have "holds auth i token owner now (ledger_of (outbox d)) \<and> fits"
      unfolding held using r(1-4) assms(4) by blast
    ultimately show ?thesis using Inr r(5) by (simp add: settle_spec_def)
  qed
qed

lemma delivered_entry:
  "entry_of (delivered_row now r) = (entry_of r)\<lparr>en_state := Sent now\<rparr>"
  by (simp add: entry_of_def state_of_row_def delivered_row_def)

lemma failed_entry:
  assumes "o_status r = Leased"
  shows "entry_of (failure_row f r r) = (entry_of r)\<lparr>en_state := after_failure f (state_of_row r)\<rparr>"
  using assms
  by (simp add: entry_of_def state_of_row_def after_failure_def failure_row_def dead_letter_row_def
      failed_row_def Let_def)

lemma sweep_on_ledger:
  assumes "schema_ok d" "list_all row_coherent (outbox d)"
  shows "ledger_of (outbox (snd (cleanup_outbox_spec auth t u d)))
    = ledger_effect L (CleanupOutboxCall auth t u) (ledger_of (outbox d))" (is "_ = ?l")
proof -
  let ?Q = "\<lambda>r. o_workspace_id r = auth_workspace_id auth \<and> outbox_expired t u r"
  have uk: "unique_key o_id (outbox d)" using assms(1) by (auto simp: schema_ok_def outbox_ok_def)
  have gone: "?l (o_id r) = (if ?Q r then None else Some (entry_of r))" if r: "r \<in> set (outbox d)" for r
  proof -
    have "forgettable t u (state_of_row r) = outbox_expired t u r"
      using bspec [OF assms(2) [unfolded list_all_iff] r]
      by (cases "o_status r") (auto simp: state_of_row_def outbox_expired_def row_coherent_def split: option.splits)
    then show ?thesis by (simp add: ledger_of_row [OF uk r])
  qed
  have "ledger_of (delete_where ?Q (outbox d)) = ?l"
  proof (rule ledger_ofI)
    show "unique_key o_id (delete_where ?Q (outbox d))"
      using uk by (auto simp: unique_key_def delete_where_def distinct_map intro: inj_on_subset)
    show "?l (o_id r) = Some (entry_of r)" if "r \<in> set (delete_where ?Q (outbox d))" for r
      using that gone by (auto simp: set_delete_where)
    show "?l i = None" if i: "i \<notin> o_id ` set (delete_where ?Q (outbox d))" for i
    proof (cases "i \<in> o_id ` set (outbox d)")
      case True
      then obtain r where r: "r \<in> set (outbox d)" "i = o_id r" by blast
      with i have "?Q r" by (auto simp: set_delete_where)
      with gone [OF r(1)] r(2) show ?thesis by simp
    next
      case False
      then have "ledger_of (outbox d) i = None" by (simp add: ledger_of_None)
      then show ?thesis by simp
    qed
  qed
  then show ?thesis by (simp add: cleanup_outbox_spec_def Let_def)
qed

lemma create_on_ledger:
  assumes "schema_ok d"
  shows "outbox (snd (create_issue_spec L draws auth c e d)) = outbox d
    \<or> ledger_of (outbox (snd (create_issue_spec L draws auth c e d)))
        = ledger_effect L (CreateIssueCall draws auth c e) (ledger_of (outbox d))"
proof (cases rule: create_issue_spec_cases [of L draws auth c e d])
  case 2
  let ?r = "outbox_row_of L (dr_outbox_id draws) c e (ice_occurred_at e)"
  have uk: "unique_key o_id (outbox d)" using assms by (auto simp: schema_ok_def outbox_ok_def)
  have fresh: "dr_outbox_id draws \<notin> o_id ` set (outbox d)" "ci_workspace_id c = auth_workspace_id auth"
    using 2(2) by (auto simp: create_issue_admissible_def row_exists_iff)
  have r: "o_id ?r = dr_outbox_id draws" "entry_of ?r = \<lparr>en_tenant = auth_workspace_id auth,
      en_event_id = ice_event_id e, en_payload = issue_created_ser L e, en_state = Waiting 0 (ice_occurred_at e)\<rparr>"
    using fresh(2) by (simp_all add: outbox_row_of_def entry_of_def state_of_row_def)
  have "ledger_of (outbox d @ [?r]) = ledger_effect L (CreateIssueCall draws auth c e) (ledger_of (outbox d))"
  proof (rule ledger_ofI)
    show "unique_key o_id (outbox d @ [?r])" using uk fresh(1) r(1) by (simp add: unique_key_def)
    show "ledger_effect L (CreateIssueCall draws auth c e) (ledger_of (outbox d)) (o_id x) = Some (entry_of x)"
      if "x \<in> set (outbox d @ [?r])" for x
      using that fresh(1) r ledger_of_row [OF uk, of x] by (auto simp: ledger_of_None image_iff)
  qed (use fresh(1) r(1) in \<open>auto simp: ledger_of_None\<close>)
  then show ?thesis using 2 by (simp add: with_created_rows_def Let_def)
qed simp

lemma effect_on_ledger:
  assumes "leases_coherent d"
  shows "ledger_of (outbox (call_effect L c d)) = ledger_effect L c (ledger_of (outbox d))
    \<or> creates_issue c \<and> outbox (call_effect L c d) = outbox d"
proof -
  have d: "schema_ok d" "list_all row_coherent (outbox d)" using assms by (auto simp: leases_coherent_def)
  show ?thesis
  proof (cases c)
    case (CreateIssueCall draws auth c e)
    then show ?thesis using create_on_ledger [OF d(1), of L draws auth c e] by auto
  next
    case (LeaseBatchCall locked token auth now lease_for n)
    then show ?thesis using lease_on_ledger [OF d] by simp
  next
    case (MarkDeliveredCall auth i token owner now)
    have "outbox_checks (delivered_row now r) = True" if "r \<in> set (outbox d)" for r
      using d(1) that outbox_row_checks(2) by (auto simp: schema_ok_def outbox_ok_def outbox_row_ok_def)
    from settle_on_ledger [OF d, where f = "\<lambda>_. delivered_row now" and fits = True and g = "\<lambda>_. Sent now", OF _ this]
    show ?thesis
      using MarkDeliveredCall by (simp add: row_identities delivered_entry mark_outbox_delivered_spec_def)
  next
    case (MarkFailedCall auth i f)
    have checks: "outbox_checks (failure_row f r r) = text_at_most 4000 (fc_error_message f)"
      if "r \<in> set (outbox d)" for r
      using d(1) that outbox_row_checks(3) by (auto simp: schema_ok_def outbox_ok_def outbox_row_ok_def)
    have entry: "entry_of (failure_row f r r) = (entry_of r)\<lparr>en_state := after_failure f (state_of_row r)\<rparr>
        \<or> \<not> lease_held (auth_workspace_id auth) i (fc_lease_token f) (fc_lease_owner f) (fc_now f) r" for r
      using failed_entry [of r f] by (auto simp: lease_held_def)
    from settle_on_ledger [OF d, where f = "failure_row f" and g = "after_failure f", OF row_identities(9) checks entry]
    show ?thesis using MarkFailedCall by (simp add: mark_outbox_failed_spec_def)
  next
    case (CleanupOutboxCall auth t u)
    then show ?thesis using sweep_on_ledger [OF d, of auth t u L] by simp
  qed (simp_all add: other_tables_outbox acquire_outbox)
qed

section \<open>The store refines the ledger\<close>

lemma perform_answered:
  assumes "faults s = []"
  shows "committed (perform L c s) = call_effect L c (committed s) \<and> faults (perform L c s) = []"
  using assms
  by (cases c) (simp_all add: create_issue_op.fault_free get_issue_op.fault_free create_workspace_op.fault_free
      get_workspace_op.fault_free create_project_op.fault_free get_project_op.fault_free lease_op.fault_free
      delivered_op.fault_free failed_op.fault_free cleanup_outbox_op.fault_free cleanup_idempotency_op.fault_free
      acquire_op.fault_free renew_op.fault_free release_op.fault_free
      get_issue_spec_def get_workspace_spec_def get_project_spec_def)

text \<open>One call: it has its effect on the ledger or none, and none only for a fault or a refused creation.\<close>

lemma call_on_ledger:
  assumes "leases_coherent (committed s)"
  shows "ledger_of (outbox (committed (perform L c s))) = ledger_effect L c (ledger_of (outbox (committed s)))
    \<or> (faults s \<noteq> [] \<or> creates_issue c)
      \<and> ledger_of (outbox (committed (perform L c s))) = ledger_of (outbox (committed s))"
  using effect_on_ledger [OF assms, of L c] perform_outcome [of L c s] perform_answered [of s L c]
  by (cases "faults s = []") auto

text \<open>
  C14: the outbox refines the ledger: from a database that satisfies the invariants, whatever calls are
  made by any clients over any connection faults, the final ledger is what the effects of some of the
  calls, in their order, make of the first one, each a function of the arguments of its call: a batch
  takes the first due events of its tenant by its own clock, only the holder of a running lease on an
  event sends, retries or buries it, and a sweep forgets settled events of its tenant alone.  On a
  connection that answers only creations, which other tables can refuse, are left out.
\<close>

theorem outbox_refines_ledger:
  assumes "schema_ok (committed s)" "list_all row_coherent (outbox (committed s))"
  shows "\<exists>effective. subseq effective calls
    \<and> ledger_of (outbox (committed (perform_all L calls s)))
        = foldl (\<lambda>l c. ledger_effect L c l) (ledger_of (outbox (committed s))) effective
    \<and> (faults s = [] \<longrightarrow> filter (\<lambda>c. \<not> creates_issue c) effective = filter (\<lambda>c. \<not> creates_issue c) calls)"
proof -
  have "leases_coherent (committed s)" using assms by (simp add: leases_coherent_def)
  then show ?thesis
  proof (induction calls arbitrary: s)
    case Nil
    then show ?case by (intro exI [of _ "[]"]) (simp add: perform_all_def)
  next
    case (Cons c cs)
    let ?s = "perform L c s"
    have "leases_coherent (committed ?s)" using coherence.after_call [of s L c] Cons.prems by simp
    from Cons.IH [OF this] obtain cs' where cs': "subseq cs' cs"
      "ledger_of (outbox (committed (perform_all L cs ?s)))
         = foldl (\<lambda>l c. ledger_effect L c l) (ledger_of (outbox (committed ?s))) cs'"
      "faults ?s = [] \<longrightarrow> filter (\<lambda>c. \<not> creates_issue c) cs' = filter (\<lambda>c. \<not> creates_issue c) cs" by blast
    have answered: "faults s = [] \<Longrightarrow> faults ?s = []" using perform_answered by blast
    from call_on_ledger [OF Cons.prems, of L c] show ?case
    proof (elim disjE conjE)
      assume "ledger_of (outbox (committed ?s)) = ledger_effect L c (ledger_of (outbox (committed s)))"
      with cs' answered show ?thesis by (intro exI [of _ "c # cs'"]) (simp add: perform_all_Cons)
    next
      assume "faults s \<noteq> []" "ledger_of (outbox (committed ?s)) = ledger_of (outbox (committed s))"
      with cs' show ?thesis by (intro exI [of _ cs']) (simp add: perform_all_Cons list_emb_Cons)
    next
      assume "creates_issue c" "ledger_of (outbox (committed ?s)) = ledger_of (outbox (committed s))"
      with cs' answered show ?thesis by (intro exI [of _ cs']) (simp add: perform_all_Cons list_emb_Cons)
    qed
  qed
qed

text \<open>
  A failed attempt, a batch of another worker and a late acknowledgement: the ledger says what becomes
  of the event.
\<close>

definition demo_calls :: "store_call list" where
  "demo_calls = [MarkFailedCall demo_auth 31 demo_failure, LeaseBatchCall {} 78 demo_auth 99 30 8,
     MarkDeliveredCall demo_auth 31 77 9 100, MarkDeliveredCall demo_auth 31 78 9 100]"

definition demo_entry :: "delivery_state \<Rightarrow> ledger" where
  "demo_entry st = [31 \<mapsto> (entry_of demo_leased_row)\<lparr>en_state := st\<rparr>]"

lemma demo_entry_effects:
  "ledger_of [demo_leased_row] = demo_entry (InFlight 0 50 77 9 90)"
  "ledger_effect L (MarkFailedCall demo_auth 31 demo_failure) (demo_entry (InFlight 0 50 77 9 90))
     = demo_entry (Waiting 1 95)"
  "ledger_effect L (LeaseBatchCall {} 78 demo_auth 99 30 8) (demo_entry (Waiting 1 95))
     = demo_entry (InFlight 1 95 78 9 129)"
  "ledger_effect L (MarkDeliveredCall demo_auth 31 77 9 100) (demo_entry (InFlight 1 95 78 9 129))
     = demo_entry (InFlight 1 95 78 9 129)"
  "ledger_effect L (MarkDeliveredCall demo_auth 31 78 9 100) (demo_entry (InFlight 1 95 78 9 129))
     = demo_entry (Sent 100)"
proof -
  have avail: "o_available_at demo_leased_row = 50"
    by (simp add: demo_leased_row_def leased_row_def)
  show "ledger_of [demo_leased_row] = demo_entry (InFlight 0 50 77 9 90)"
    by (simp add: ledger_of_def demo_entry_def entry_of_def state_of_row_def avail)
  have fits: "text_at_most 4000 (fc_error_message demo_failure)"
    by (simp add: demo_failure_def text_at_most_def continuation_def byte_def)
  have restated: "restate 31 f (demo_entry st) = demo_entry (f st)" for f st
    by (simp add: restate_def demo_entry_def)
  have held: "holds demo_auth 31 token 9 now (demo_entry (InFlight n a t 9 u)) \<longleftrightarrow> token = t \<and> now < u"
    for token now n a t u
    by (auto simp: holds_def demo_entry_def demo_auth_def)
  show "ledger_effect L (MarkFailedCall demo_auth 31 demo_failure) (demo_entry (InFlight 0 50 77 9 90))
      = demo_entry (Waiting 1 95)"
    using fits held [of 77 80 0 50 77 90]
    by (simp add: restated) (simp add: demo_failure_def after_failure_def wrap_i32_def)
  have cand: "candidate {} 1 99 (demo_entry (Waiting 1 95)) i \<longleftrightarrow> i = 31" for i
    by (simp add: candidate_def demo_entry_def)
  have first: "{j. j = 31 \<and> queue_key l j < queue_key l 31} = {}" for l by auto
  have batch: "in_batch {} 1 99 8 (demo_entry (Waiting 1 95)) i \<longleftrightarrow> i = 31" for i
    unfolding in_batch_def cand by (cases "i = 31") (simp_all add: first)
  have auth: "auth_workspace_id demo_auth = 1" "auth_actor_id demo_auth = 9" by (simp_all add: demo_auth_def)
  show "ledger_effect L (LeaseBatchCall {} 78 demo_auth 99 30 8) (demo_entry (Waiting 1 95))
      = demo_entry (InFlight 1 95 78 9 129)"
  proof
    fix i
    show "ledger_effect L (LeaseBatchCall {} 78 demo_auth 99 30 8) (demo_entry (Waiting 1 95)) i
        = demo_entry (InFlight 1 95 78 9 129) i"
      by (cases "i = 31") (simp_all add: auth batch restated, simp add: demo_entry_def)
  qed
  show "ledger_effect L (MarkDeliveredCall demo_auth 31 77 9 100) (demo_entry (InFlight 1 95 78 9 129))
      = demo_entry (InFlight 1 95 78 9 129)"
    "ledger_effect L (MarkDeliveredCall demo_auth 31 78 9 100) (demo_entry (InFlight 1 95 78 9 129))
      = demo_entry (Sent 100)"
    by (simp_all add: held restated)
qed

theorem outbox_refines_ledger_witness:
  "map_option en_state (ledger_of (outbox (committed
      (perform_all bits_leaf demo_calls (demo_outbox [demo_leased_row])))) 31) = Some (Sent 100)"
proof -
  obtain cs where cs: "subseq cs demo_calls"
    "ledger_of (outbox (committed (perform_all bits_leaf demo_calls (demo_outbox [demo_leased_row]))))
       = foldl (\<lambda>l c. ledger_effect bits_leaf c l) (ledger_of [demo_leased_row]) cs"
    "filter (\<lambda>c. \<not> creates_issue c) cs = filter (\<lambda>c. \<not> creates_issue c) demo_calls"
    using outbox_refines_ledger [where s = "demo_outbox [demo_leased_row]" and calls = demo_calls and L = bits_leaf]
      demo_leased_ok by auto
  have "length demo_calls \<le> length cs"
    using arg_cong [OF cs(3), of length] length_filter_le [of "\<lambda>c. \<not> creates_issue c" cs]
    by (simp add: demo_calls_def)
  then have "cs = demo_calls"
    using cs(1) list_emb_length [OF cs(1)] subseq_same_length [OF cs(1)] by simp
  then show ?thesis
    unfolding cs(2) by (simp only: demo_calls_def foldl.simps demo_entry_effects) (simp add: demo_entry_def)
qed

end
