(* ===== verification/Deps_Check.thy ===== *)
theory Deps_Check
  imports Prelude
begin

text \<open>
  The architecture guard, \<open>dandori-deps-check/src/main.rs\<close>: the allowed dependencies between the crates
  and the scan of their \<open>use\<close> items.  The file system is a parameter, so is the Rust parser \<open>syn\<close>,
  whose tree is reduced to its items and their \<open>use\<close> trees, and so is the answer of \<open>cargo metadata\<close>.
  The directory walk loops over a stack; it is a partial function, \<open>None\<close> if it does not end.
\<close>

section \<open>Use trees\<close>

datatype use_tree =
    UsePath string use_tree
  | UseName string
  | UseRename string string
  | UseGlob
  | UseGroup "use_tree list"

fun collect_use_tree :: "use_tree \<Rightarrow> string list \<Rightarrow> string list list \<Rightarrow> string list list"
  and collect_use_trees :: "use_tree list \<Rightarrow> string list \<Rightarrow> string list list \<Rightarrow> string list list" where
  "collect_use_tree (UsePath ident tree) prefix out = collect_use_tree tree (prefix @ [ident]) out"
| "collect_use_tree (UseName ident) prefix out = out @ [prefix @ [ident]]"
| "collect_use_tree (UseRename ident rename) prefix out = out @ [prefix @ [ident]]"
| "collect_use_tree UseGlob prefix out = out @ [prefix]"
| "collect_use_tree (UseGroup items) prefix out = collect_use_trees items prefix out"
| "collect_use_trees [] prefix out = out"
| "collect_use_trees (item # items) prefix out =
     collect_use_trees items prefix (collect_use_tree item prefix out)"

text \<open>
  An item is a \<open>use\<close>, a macro call with its unexpanded tokens, or anything else with the items nested in
  it, in the order \<open>syn\<close> visits them.
\<close>

datatype item = UseItem use_tree | MacroItem string | OtherItem "item list"

fun visit_item :: "item \<Rightarrow> string list list \<Rightarrow> string list list"
  and visit_items :: "item list \<Rightarrow> string list list \<Rightarrow> string list list" where
  "visit_item (UseItem tree) paths = collect_use_tree tree [] paths"
| "visit_item (MacroItem tokens) paths = paths"
| "visit_item (OtherItem nested) paths = visit_items nested paths"
| "visit_items [] paths = paths"
| "visit_items (i # is) paths = visit_items is (visit_item i paths)"

definition path_starts_with :: "string list \<Rightarrow> string list \<Rightarrow> bool" where
  "path_starts_with imported prefix =
     (if length imported < length prefix then False
      else list_all (\<lambda>(a, b). a = b) (zip imported prefix))"

section \<open>Files\<close>

text \<open>An entry that could not be read is \<open>None\<close>.\<close>

record file_system =
  fs_exists :: "string \<Rightarrow> bool"
  fs_read_dir :: "string \<Rightarrow> string option list option"
  fs_is_dir :: "string \<Rightarrow> bool"
  fs_read :: "string \<Rightarrow> string option"

text \<open>\<open>Path::extension\<close>: what follows the last dot of the file name, unless the name starts there.\<close>

definition file_name :: "string \<Rightarrow> string" where
  "file_name path = last (split_char (CHR ''/'') path)"

definition extension :: "string \<Rightarrow> string option" where
  "extension path =
     (let parts = split_char (CHR ''.'') (file_name path) in
      if file_name path = ''..'' \<or> length parts < 2 \<or> concat (butlast parts) = [] \<and> length parts = 2 then None
      else Some (last parts))"

fun visit_entries ::
  "file_system \<Rightarrow> string option list \<Rightarrow> string list \<times> string list \<Rightarrow> string list \<times> string list" where
  "visit_entries fs [] sf = sf"
| "visit_entries fs (None # entries) sf = visit_entries fs entries sf"
| "visit_entries fs (Some path # entries) (stack, files) =
     visit_entries fs entries
       (if fs_is_dir fs path then (path # stack, files)
        else if extension path = Some ''rs'' then (stack, files @ [path])
        else (stack, files))"

partial_function (option) collect_loop :: "file_system \<Rightarrow> string list \<Rightarrow> string list \<Rightarrow> string list option" where
  "collect_loop fs stack files =
     (case stack of
        [] \<Rightarrow> Some files
      | current # rest \<Rightarrow>
          (case fs_read_dir fs current of
             None \<Rightarrow> collect_loop fs rest files
           | Some entries \<Rightarrow>
               (case visit_entries fs entries (rest, files) of
                  (stack', files') \<Rightarrow> collect_loop fs stack' files')))"

definition collect_rs_files :: "file_system \<Rightarrow> string \<Rightarrow> string list option" where
  "collect_rs_files fs dir = (if \<not> fs_exists fs dir then Some [] else collect_loop fs [dir] [])"

section \<open>The two checks\<close>

text \<open>\<open>join\<close> of texts with a separator.\<close>

fun join :: "string \<Rightarrow> string list \<Rightarrow> string" where
  "join sep [] = []"
| "join sep [x] = x"
| "join sep (x # y # xs) = x @ sep @ join sep (y # xs)"

type_synonym rust_parser = "string \<Rightarrow> item list option"

definition scan_file ::
  "file_system \<Rightarrow> rust_parser \<Rightarrow> string \<Rightarrow> string list list \<Rightarrow> string \<Rightarrow> string list" where
  "scan_file fs parse_file crate_name forbidden_prefixes file =
     (case fs_read fs file of
        None \<Rightarrow> []
      | Some source \<Rightarrow>
          (case parse_file source of
             None \<Rightarrow> [crate_name @ '': failed to parse '' @ file]
           | Some ast \<Rightarrow>
               concat (map (\<lambda>imported.
                 map (\<lambda>_. crate_name @ '': '' @ file @ '' imports forbidden path `''
                        @ join ''::'' imported @ ''`'')
                   (filter (path_starts_with imported) forbidden_prefixes))
                 (visit_items ast []))))"

definition scan_crate ::
  "file_system \<Rightarrow> rust_parser \<Rightarrow> string \<Rightarrow> string \<Rightarrow> string list list \<Rightarrow> string list \<Rightarrow> string list option" where
  "scan_crate fs parse_file crate_name dir forbidden_prefixes errors =
     map_option (\<lambda>files. errors @ concat (map (scan_file fs parse_file crate_name forbidden_prefixes) files))
       (collect_rs_files fs dir)"

text \<open>The crates that are scanned, with their forbidden prefixes, in the order of the code.\<close>

definition transport_forbidden :: "string list list" where
  "transport_forbidden = [[''sqlx''], [''dandori_store''], [''dandori_domain''], [''dandori_policy'']]"

definition foundation_forbidden :: "string list list" where
  "foundation_forbidden =
     [[''dandori_store''], [''dandori_app_services''], [''dandori_orchestrator''], [''sqlx'']]"

definition scans :: "(string \<times> string \<times> string list list) list" where
  "scans =
     [(''dandori-api'', ''bin/dandori-api/src'', transport_forbidden),
      (''dandori-mcp'', ''bin/dandori-mcp/src'', transport_forbidden),
      (''dandori-worker'', ''bin/dandori-worker/src'', transport_forbidden),
      (''dandori-domain'', ''crates/dandori-domain/src'', foundation_forbidden),
      (''dandori-contract'', ''crates/dandori-contract/src'', foundation_forbidden),
      (''dandori-policy'', ''crates/dandori-policy/src'', foundation_forbidden),
      (''dandori-observability'', ''crates/dandori-observability/src'', foundation_forbidden),
      (''dandori-app-services'', ''crates/dandori-app-services/src'', [[''sqlx'']]),
      (''dandori-auth'', ''crates/dandori-auth/src'', [[''sqlx'']])]"

fun scan_crates ::
  "file_system \<Rightarrow> rust_parser \<Rightarrow> (string \<times> string \<times> string list list) list \<Rightarrow> string list \<Rightarrow> string list option" where
  "scan_crates fs parse_file [] errors = Some errors"
| "scan_crates fs parse_file ((crate_name, dir, forbidden) # rest) errors =
     Option.bind (scan_crate fs parse_file crate_name dir forbidden errors) (scan_crates fs parse_file rest)"

definition check_source_imports :: "file_system \<Rightarrow> rust_parser \<Rightarrow> string list \<Rightarrow> string list option" where
  "check_source_imports fs parse_file errors = scan_crates fs parse_file scans errors"

text \<open>A package is its name and the names of its dependencies.\<close>

type_synonym package = "string \<times> string list"

definition foundation :: "string list" where
  "foundation = [''dandori-domain'', ''dandori-contract'', ''dandori-policy'', ''dandori-observability'']"

definition capability :: "string list" where
  "capability = [''dandori-store'', ''dandori-graph'', ''dandori-workflow'', ''dandori-sync-github'',
     ''dandori-orchestrator'', ''dandori-app-services'']"

definition transport :: "string list" where
  "transport = [''dandori-api'', ''dandori-mcp'', ''dandori-worker'']"

definition forbidden_transport :: "string list" where
  "forbidden_transport = [''dandori-domain'', ''dandori-store'', ''dandori-orchestrator'']"

text \<open>The dependencies by package: of two packages of one name the later one counts.\<close>

definition deps_by_package :: "package list \<Rightarrow> string \<Rightarrow> string list option" where
  "deps_by_package packages = map_of (rev packages)"

definition depends_on :: "package list \<Rightarrow> string \<Rightarrow> string \<Rightarrow> bool" where
  "depends_on packages p q =
     (case deps_by_package packages p of None \<Rightarrow> False | Some deps \<Rightarrow> q \<in> set deps)"

definition layer_errors :: "package list \<Rightarrow> string list \<Rightarrow> string list \<Rightarrow> (string \<Rightarrow> string \<Rightarrow> string) \<Rightarrow> string list" where
  "layer_errors packages uppers lowers report =
     concat (map (\<lambda>p. map (report p) (filter (depends_on packages p) lowers)) uppers)"

definition check_dependencies :: "string list + package list \<Rightarrow> string list \<Rightarrow> string list + string list" where
  "check_dependencies metadata errors =
     map_ok (\<lambda>packages. errors
       @ layer_errors packages foundation capability (\<lambda>p q.
           ''foundation crate '' @ quoted p @ '' depends on capability crate '' @ quoted q)
       @ layer_errors packages transport forbidden_transport (\<lambda>p q.
           ''transport crate '' @ quoted p @ '' depends directly on '' @ quoted q)) metadata"

definition newline :: string where "newline = [char_of (10 :: nat)]"

definition deps_check_main ::
  "string list + package list \<Rightarrow> file_system \<Rightarrow> rust_parser \<Rightarrow> (string list + unit) option" where
  "deps_check_main metadata fs parse_file =
     (case check_dependencies metadata [] of
        Inl e \<Rightarrow> Some (Err e)
      | Inr errors \<Rightarrow>
          map_option (\<lambda>errors.
            if errors = [] then Ok ()
            else Err [''architecture violations ('' @ show_nat (length errors) @ '' total):'' @ newline
                      @ ''  - '' @ join (newline @ ''  - '') errors])
            (check_source_imports fs parse_file errors))"

section \<open>What a use tree imports\<close>

inductive imports_path :: "use_tree \<Rightarrow> string list \<Rightarrow> bool" where
  leaf: "imports_path (UseName ident) [ident]"
| renamed: "imports_path (UseRename ident rename) [ident]"
| glob: "imports_path UseGlob []"
| segment: "imports_path tree p \<Longrightarrow> imports_path (UsePath ident tree) (ident # p)"
| group: "tree \<in> set trees \<Longrightarrow> imports_path tree p \<Longrightarrow> imports_path (UseGroup trees) p"

inductive_simps imports_path_simps:
  "imports_path (UseName ident) p" "imports_path (UseRename ident rename) p" "imports_path UseGlob p"
  "imports_path (UsePath ident tree) p" "imports_path (UseGroup trees) p"

inductive item_imports :: "item \<Rightarrow> string list \<Rightarrow> bool" where
  own: "imports_path tree p \<Longrightarrow> item_imports (UseItem tree) p"
| nested: "i \<in> set is \<Longrightarrow> item_imports i p \<Longrightarrow> item_imports (OtherItem is) p"

inductive_simps item_imports_simps:
  "item_imports (UseItem tree) p" "item_imports (MacroItem tokens) p" "item_imports (OtherItem is) p"

lemma collect_use_tree_set:
  "set (collect_use_tree tree prefix out) = set out \<union> {prefix @ p |p. imports_path tree p}"
  "set (collect_use_trees trees prefix out) =
     set out \<union> {prefix @ p |p. \<exists>tree\<in>set trees. imports_path tree p}"
  by (induction tree prefix out and trees prefix out rule: collect_use_tree_collect_use_trees.induct)
     (auto simp: imports_path_simps)

lemma visit_item_set:
  "set (visit_item i paths) = set paths \<union> {p. item_imports i p}"
  "set (visit_items is paths) = set paths \<union> {p. \<exists>i\<in>set is. item_imports i p}"
  by (induction i paths and "is" paths rule: visit_item_visit_items.induct)
     (auto simp: item_imports_simps collect_use_tree_set)

lemma path_starts_with_iff: "path_starts_with p prefix \<longleftrightarrow> (\<exists>rest. p = prefix @ rest)"
proof
  assume starts: "path_starts_with p prefix"
  then have "take (length prefix) p = prefix"
    by (auto simp: path_starts_with_def list_all_length intro!: nth_equalityI split: if_splits)
  then show "\<exists>rest. p = prefix @ rest" by (metis append_take_drop_id)
next
  show "\<exists>rest. p = prefix @ rest \<Longrightarrow> path_starts_with p prefix"
    by (auto simp: path_starts_with_def list_all_length nth_append)
qed

section \<open>The walk finds every Rust file\<close>

text \<open>The entries at any depth below a directory.\<close>

inductive below :: "file_system \<Rightarrow> string \<Rightarrow> string \<Rightarrow> bool" for fs where
  entry: "fs_read_dir fs d = Some es \<Longrightarrow> Some p \<in> set es \<Longrightarrow> below fs d p"
| deeper: "fs_read_dir fs d = Some es \<Longrightarrow> Some q \<in> set es \<Longrightarrow> fs_is_dir fs q \<Longrightarrow> below fs q p \<Longrightarrow> below fs d p"

text \<open>The directories directly inside a directory; without links that lead back up it is well-founded.\<close>

definition subdirectories :: "file_system \<Rightarrow> (string \<times> string) set" where
  "subdirectories fs = {(q, d). \<exists>es. fs_read_dir fs d = Some es \<and> Some q \<in> set es \<and> fs_is_dir fs q}"

definition rust_file :: "file_system \<Rightarrow> string \<Rightarrow> bool" where
  "rust_file fs p \<longleftrightarrow> \<not> fs_is_dir fs p \<and> extension p = Some ''rs''"

lemma visit_entries_result:
  "visit_entries fs es (stack, files) = (stack', files') \<Longrightarrow>
     (\<exists>dirs. stack' = dirs @ stack \<and> set dirs = {q. Some q \<in> set es \<and> fs_is_dir fs q})
     \<and> set files' = set files \<union> {p. Some p \<in> set es \<and> rust_file fs p}"
proof (induction fs es "(stack, files)" arbitrary: stack files rule: visit_entries.induct)
  case (3 fs path entries stack files)
  show ?case
  proof (cases "fs_is_dir fs path")
    case True
    with 3 obtain dirs where "stack' = dirs @ path # stack"
        "set dirs = {q. Some q \<in> set entries \<and> fs_is_dir fs q}"
        "set files' = set files \<union> {p. Some p \<in> set entries \<and> rust_file fs p}"
      by fastforce
    with True show ?thesis
      by (intro conjI exI [of _ "dirs @ [path]"]) (auto simp: rust_file_def)
  next
    case False
    with 3 show ?thesis by (auto simp: rust_file_def split: if_splits)
  qed
qed auto

lemma below_unfold:
  "fs_read_dir fs d = Some es \<Longrightarrow>
     below fs d p \<longleftrightarrow> Some p \<in> set es \<or> (\<exists>q. Some q \<in> set es \<and> fs_is_dir fs q \<and> below fs q p)"
  by (subst below.simps) auto

lemma below_unreadable: "fs_read_dir fs d = None \<Longrightarrow> \<not> below fs d p"
  by (auto elim: below.cases)

lemma collect_loop_result:
  assumes "wf (subdirectories fs)"
  shows "\<exists>files'. collect_loop fs stack files = Some files'
    \<and> set files' = set files \<union> {p. rust_file fs p \<and> (\<exists>d\<in>set stack. below fs d p)}"
proof -
  have "wf (inv_image (mult (subdirectories fs)) mset)" by (intro wf_inv_image wf_mult assms)
  then show ?thesis
  proof (induction stack arbitrary: files rule: wf_induct_rule)
    case (less stack)
    show ?case
    proof (cases stack)
      case Nil
      then show ?thesis by (simp add: collect_loop.simps)
    next
      case (Cons current rest)
      show ?thesis
      proof (cases "fs_read_dir fs current")
        case None
        have "(rest, stack) \<in> inv_image (mult (subdirectories fs)) mset"
          using one_step_implies_mult [of "{#current#}" "{#}" "subdirectories fs" "mset rest"] Cons by simp
        from less [OF this, of files] None Cons show ?thesis
          by (auto simp: collect_loop.simps [of fs "current # rest"] below_unreadable)
      next
        case (Some es)
        obtain stack' files1 where visit: "visit_entries fs es (rest, files) = (stack', files1)"
          by (cases "visit_entries fs es (rest, files)")
        obtain dirs where dirs: "stack' = dirs @ rest" "set dirs = {q. Some q \<in> set es \<and> fs_is_dir fs q}"
          and files1: "set files1 = set files \<union> {p. Some p \<in> set es \<and> rust_file fs p}"
          using visit_entries_result [OF visit] by blast
        have "(stack', stack) \<in> inv_image (mult (subdirectories fs)) mset"
          using one_step_implies_mult [of "{#current#}" "mset dirs" "subdirectories fs" "mset rest"] Cons dirs Some
          by (auto simp: subdirectories_def union_commute)
        from less [OF this, of files1] obtain files' where
          "collect_loop fs stack' files1 = Some files'"
          "set files' = set files1 \<union> {p. rust_file fs p \<and> (\<exists>d\<in>set stack'. below fs d p)}"
          by blast
        then show ?thesis
          using Cons Some visit dirs files1
          by (auto simp: collect_loop.simps [of fs "current # rest"] below_unfold [OF Some])
      qed
    qed
  qed
qed

lemma collect_result:
  assumes "wf (subdirectories fs)"
  obtains files where "collect_rs_files fs dir = Some files"
    "set files = (if fs_exists fs dir then {p. rust_file fs p \<and> below fs dir p} else {})"
proof (cases "fs_exists fs dir")
  case True
  then show thesis
    using that collect_loop_result [OF assms, of "[dir]" "[]"] by (auto simp: collect_rs_files_def)
qed (use that in \<open>simp add: collect_rs_files_def\<close>)

text \<open>
  C38: on a file system without directory cycles the walk ends, and it returns exactly the Rust files
  at any depth below the directory.
\<close>

theorem collect_rs_files_exact:
  assumes "wf (subdirectories fs)"
  shows "\<exists>files. collect_rs_files fs dir = Some files
    \<and> set files = (if fs_exists fs dir then {p. rust_file fs p \<and> below fs dir p} else {})"
  by (rule collect_result [OF assms]) blast

text \<open>A small tree: one directory with a file and a subdirectory with another.\<close>

definition demo_fs :: file_system where
  "demo_fs =
     \<lparr>fs_exists = (\<lambda>p. p = ''src''),
      fs_read_dir = (\<lambda>p. if p = ''src'' then Some [Some ''src/lib.rs'', None, Some ''src/a'']
                         else if p = ''src/a'' then Some [Some ''src/a/b.rs'', Some ''src/a/notes.md'']
                         else None),
      fs_is_dir = (\<lambda>p. p = ''src'' \<or> p = ''src/a''),
      fs_read = (\<lambda>p. Some p)\<rparr>"

lemma demo_fs_wf: "wf (subdirectories demo_fs)"
proof (rule wf_subset)
  show "subdirectories demo_fs \<subseteq> measure (\<lambda>d. if d = ''src'' then 1 else 0)"
    by (auto simp: subdirectories_def demo_fs_def split: if_splits)
qed (rule wf_measure)

theorem collect_rs_files_exact_witness:
  "\<exists>files. collect_rs_files demo_fs ''src'' = Some files
    \<and> set files = {p. rust_file demo_fs p \<and> below demo_fs ''src'' p}"
  using collect_rs_files_exact [OF demo_fs_wf, of "''src''"] by (simp add: demo_fs_def)

section \<open>The guard decides the layering\<close>

text \<open>
  The rules, written out from the description of the guard: which package may not depend on which, and
  which crates may not be named at the root of an import below which directory.
\<close>

definition dependency_forbidden :: "string \<Rightarrow> string \<Rightarrow> bool" where
  "dependency_forbidden p q \<longleftrightarrow>
     p \<in> {''dandori-domain'', ''dandori-contract'', ''dandori-policy'', ''dandori-observability''}
       \<and> q \<in> {''dandori-store'', ''dandori-graph'', ''dandori-workflow'', ''dandori-sync-github'',
              ''dandori-orchestrator'', ''dandori-app-services''}
     \<or> p \<in> {''dandori-api'', ''dandori-mcp'', ''dandori-worker''}
       \<and> q \<in> {''dandori-domain'', ''dandori-store'', ''dandori-orchestrator''}"

definition layered :: "package list \<Rightarrow> bool" where
  "layered packages \<longleftrightarrow> (\<forall>(p, deps)\<in>set packages. \<forall>q\<in>set deps. \<not> dependency_forbidden p q)"

definition transport_directories :: "string set" where
  "transport_directories = {''bin/dandori-api/src'', ''bin/dandori-mcp/src'', ''bin/dandori-worker/src''}"

definition foundation_directories :: "string set" where
  "foundation_directories = {''crates/dandori-domain/src'', ''crates/dandori-contract/src'',
     ''crates/dandori-policy/src'', ''crates/dandori-observability/src''}"

definition sealed_directories :: "string set" where
  "sealed_directories = {''crates/dandori-app-services/src'', ''crates/dandori-auth/src''}"

definition import_forbidden :: "string \<Rightarrow> string \<Rightarrow> bool" where
  "import_forbidden dir root \<longleftrightarrow>
     dir \<in> transport_directories \<and> root \<in> {''sqlx'', ''dandori_store'', ''dandori_domain'', ''dandori_policy''}
     \<or> dir \<in> foundation_directories
       \<and> root \<in> {''dandori_store'', ''dandori_app_services'', ''dandori_orchestrator'', ''sqlx''}
     \<or> dir \<in> sealed_directories \<and> root \<in> {''sqlx''}"

definition guarded_directory :: "string \<Rightarrow> bool" where
  "guarded_directory dir \<longleftrightarrow> (\<exists>root. import_forbidden dir root)"

definition clean_sources :: "file_system \<Rightarrow> rust_parser \<Rightarrow> bool" where
  "clean_sources fs parse_file \<longleftrightarrow>
     (\<forall>dir p source. guarded_directory dir \<and> fs_exists fs dir \<and> rust_file fs p \<and> below fs dir p
          \<and> fs_read fs p = Some source \<longrightarrow>
        (\<exists>ast. parse_file source = Some ast
           \<and> (\<forall>i\<in>set ast. \<forall>root rest. item_imports i (root # rest) \<longrightarrow> \<not> import_forbidden dir root)))"

definition clean_file :: "file_system \<Rightarrow> rust_parser \<Rightarrow> string list list \<Rightarrow> string \<Rightarrow> bool" where
  "clean_file fs parse_file forbidden p \<longleftrightarrow>
     (\<forall>source. fs_read fs p = Some source \<longrightarrow>
        (\<exists>ast. parse_file source = Some ast
           \<and> (\<forall>i\<in>set ast. \<forall>q. item_imports i q \<longrightarrow> \<not> (\<exists>prefix\<in>set forbidden. \<exists>rest. q = prefix @ rest))))"

lemma scan_file_clean: "scan_file fs parse_file c forbidden p = [] \<longleftrightarrow> clean_file fs parse_file forbidden p"
  by (auto simp: scan_file_def clean_file_def filter_empty_conv visit_item_set path_starts_with_iff
      split: option.splits)

lemma scan_crate_result:
  assumes "wf (subdirectories fs)"
  shows "\<exists>es. scan_crate fs parse_file c dir forbidden errors = Some es
    \<and> (es = [] \<longleftrightarrow> errors = []
         \<and> (\<forall>p. fs_exists fs dir \<and> rust_file fs p \<and> below fs dir p \<longrightarrow> clean_file fs parse_file forbidden p))"
proof -
  obtain files where files: "collect_rs_files fs dir = Some files"
      "set files = (if fs_exists fs dir then {p. rust_file fs p \<and> below fs dir p} else {})"
    by (rule collect_result [OF assms])
  show ?thesis
    by (simp add: scan_crate_def files(1) scan_file_clean files(2))
qed

lemma scan_crates_result:
  assumes "wf (subdirectories fs)"
  shows "\<exists>es. scan_crates fs parse_file crates errors = Some es
    \<and> (es = [] \<longleftrightarrow> errors = [] \<and> (\<forall>(c, dir, forbidden)\<in>set crates. \<forall>p.
          fs_exists fs dir \<and> rust_file fs p \<and> below fs dir p \<longrightarrow> clean_file fs parse_file forbidden p))"
proof (induction crates arbitrary: errors)
  case (Cons crate crates)
  obtain c dir forbidden where crate: "crate = (c, dir, forbidden)" by (cases crate)
  obtain es where scan: "scan_crate fs parse_file c dir forbidden errors = Some es"
    and es: "es = [] \<longleftrightarrow> errors = []
         \<and> (\<forall>p. fs_exists fs dir \<and> rust_file fs p \<and> below fs dir p \<longrightarrow> clean_file fs parse_file forbidden p)"
    using scan_crate_result [OF assms] by blast
  from Cons [of es] show ?case by (auto simp: crate scan es)
qed simp

lemma layer_errors_empty:
  "layer_errors packages uppers lowers report = [] \<longleftrightarrow>
     (\<forall>p\<in>set uppers. \<forall>q\<in>set lowers. \<not> depends_on packages p q)"
  by (auto simp: layer_errors_def filter_empty_conv)

lemma depends_on_iff:
  assumes "distinct (map fst packages)"
  shows "depends_on packages p q \<longleftrightarrow> (\<exists>deps. (p, deps) \<in> set packages \<and> q \<in> set deps)"
proof -
  have "distinct (map fst (rev packages))" using assms by (metis rev_map distinct_rev)
  from map_of_eq_Some_iff [OF this]
  have lookup: "map_of (rev packages) p = Some deps \<longleftrightarrow> (p, deps) \<in> set packages" for deps by simp
  have "depends_on packages p q \<longleftrightarrow> (\<exists>deps. map_of (rev packages) p = Some deps \<and> q \<in> set deps)"
    by (simp add: depends_on_def deps_by_package_def split: option.split)
  then show ?thesis by (simp only: lookup)
qed

text \<open>The tables of the code say what the rules say.\<close>

lemma dependency_tables:
  "dependency_forbidden p q \<longleftrightarrow>
     p \<in> set foundation \<and> q \<in> set capability \<or> p \<in> set transport \<and> q \<in> set forbidden_transport"
  unfolding dependency_forbidden_def foundation_def capability_def transport_def forbidden_transport_def list.set
  by (rule refl)

text \<open>A row of the scans, by its kind.\<close>

lemma scan_rows [consumes 1]:
  assumes "(c, dir, forbidden) \<in> set scans"
  obtains (transport_dir) "dir \<in> transport_directories" "forbidden = transport_forbidden"
    | (foundation_dir) "dir \<in> foundation_directories" "forbidden = foundation_forbidden"
    | (sealed_dir) "dir \<in> sealed_directories" "forbidden = [[''sqlx'']]"
proof -
  have "list_all (\<lambda>(c, dir, forbidden).
      dir \<in> transport_directories \<and> forbidden = transport_forbidden
      \<or> dir \<in> foundation_directories \<and> forbidden = foundation_forbidden
      \<or> dir \<in> sealed_directories \<and> forbidden = [[''sqlx'']]) scans"
    unfolding scans_def transport_directories_def foundation_directories_def sealed_directories_def
    by (simp only: list.pred_inject prod.case insert_iff simp_thms)
  then show thesis using assms that by (auto simp: list_all_iff)
qed

lemma directories_apart:
  "transport_directories \<inter> foundation_directories = {}" "transport_directories \<inter> sealed_directories = {}"
  "foundation_directories \<inter> sealed_directories = {}"
  by (simp_all add: transport_directories_def foundation_directories_def sealed_directories_def)

lemma scan_table:
  assumes "(c, dir, forbidden) \<in> set scans"
  shows "prefix \<in> set forbidden \<longleftrightarrow> (\<exists>root. prefix = [root] \<and> import_forbidden dir root)"
  using assms
proof (cases rule: scan_rows)
  case transport_dir
  then have apart: "dir \<notin> foundation_directories" "dir \<notin> sealed_directories" using directories_apart by blast+
  have "import_forbidden dir root \<longleftrightarrow>
      root \<in> {''sqlx'', ''dandori_store'', ''dandori_domain'', ''dandori_policy''}" for root
    unfolding import_forbidden_def using transport_dir(1) apart by (simp only: simp_thms)
  then show ?thesis unfolding transport_dir(2) transport_forbidden_def by auto
next
  case foundation_dir
  then have apart: "dir \<notin> transport_directories" "dir \<notin> sealed_directories" using directories_apart by blast+
  have "import_forbidden dir root \<longleftrightarrow>
      root \<in> {''dandori_store'', ''dandori_app_services'', ''dandori_orchestrator'', ''sqlx''}" for root
    unfolding import_forbidden_def using foundation_dir(1) apart by (simp only: simp_thms)
  then show ?thesis unfolding foundation_dir(2) foundation_forbidden_def by auto
next
  case sealed_dir
  then have apart: "dir \<notin> transport_directories" "dir \<notin> foundation_directories" using directories_apart by blast+
  have "import_forbidden dir root \<longleftrightarrow> root \<in> {''sqlx''}" for root
    unfolding import_forbidden_def using sealed_dir(1) apart by (simp only: simp_thms)
  then show ?thesis unfolding sealed_dir(2) by auto
qed

lemma scanned_directories: "guarded_directory dir \<longleftrightarrow> (\<exists>c forbidden. (c, dir, forbidden) \<in> set scans)"
proof -
  have "(\<exists>c forbidden. (c, dir, forbidden) \<in> set scans) \<longleftrightarrow> dir \<in> set (map (fst \<circ> snd) scans)" by force
  also have "\<dots> \<longleftrightarrow> dir \<in> transport_directories \<union> foundation_directories \<union> sealed_directories"
    unfolding scans_def transport_directories_def foundation_directories_def sealed_directories_def
    by (simp only: list.map list.set comp_def fst_conv snd_conv Un_insert_left Un_empty_left)
  also have "\<dots> \<longleftrightarrow> guarded_directory dir"
    unfolding guarded_directory_def import_forbidden_def by blast
  finally show ?thesis by blast
qed

lemma layered_iff:
  "layered packages \<longleftrightarrow>
     (\<forall>p\<in>set foundation. \<forall>q\<in>set capability. \<not> (\<exists>deps. (p, deps) \<in> set packages \<and> q \<in> set deps))
     \<and> (\<forall>p\<in>set transport. \<forall>q\<in>set forbidden_transport. \<not> (\<exists>deps. (p, deps) \<in> set packages \<and> q \<in> set deps))"
  unfolding layered_def dependency_tables by (simp only: Ball_def split_paired_All prod.case) blast

lemma clean_file_roots:
  assumes "(c, dir, forbidden) \<in> set scans"
  shows "clean_file fs parse_file forbidden p \<longleftrightarrow>
    (\<forall>source. fs_read fs p = Some source \<longrightarrow>
       (\<exists>ast. parse_file source = Some ast
          \<and> (\<forall>i\<in>set ast. \<forall>root rest. item_imports i (root # rest) \<longrightarrow> \<not> import_forbidden dir root)))"
proof -
  have "(\<exists>prefix\<in>set forbidden. \<exists>rest. q = prefix @ rest) \<longleftrightarrow>
      (\<exists>root rest. q = root # rest \<and> import_forbidden dir root)" for q
    unfolding Bex_def scan_table [OF assms] by (metis append_Cons append_Nil)
  then have "(\<forall>q. item_imports i q \<longrightarrow> \<not> (\<exists>prefix\<in>set forbidden. \<exists>rest. q = prefix @ rest)) \<longleftrightarrow>
      (\<forall>root rest. item_imports i (root # rest) \<longrightarrow> \<not> import_forbidden dir root)" for i
    by auto
  then show ?thesis unfolding clean_file_def by simp
qed

lemma clean_sources_iff:
  "clean_sources fs parse_file \<longleftrightarrow>
     (\<forall>(crate_name, dir, forbidden)\<in>set scans. \<forall>p.
        fs_exists fs dir \<and> rust_file fs p \<and> below fs dir p \<longrightarrow> clean_file fs parse_file forbidden p)"
proof -
  have "(\<forall>(crate_name, dir, forbidden)\<in>set scans. \<forall>p.
        fs_exists fs dir \<and> rust_file fs p \<and> below fs dir p \<longrightarrow> clean_file fs parse_file forbidden p)
    \<longleftrightarrow> (\<forall>c dir forbidden. (c, dir, forbidden) \<in> set scans \<longrightarrow>
          (\<forall>p. fs_exists fs dir \<and> rust_file fs p \<and> below fs dir p \<longrightarrow>
            (\<forall>source. fs_read fs p = Some source \<longrightarrow>
               (\<exists>ast. parse_file source = Some ast
                  \<and> (\<forall>i\<in>set ast. \<forall>root rest. item_imports i (root # rest) \<longrightarrow> \<not> import_forbidden dir root)))))"
    by (simp only: Ball_def split_paired_All prod.case clean_file_roots cong: imp_cong)
  then show ?thesis unfolding clean_sources_def scanned_directories by blast
qed

text \<open>
  C37: for packages of distinct names, on a file system without directory cycles, the guard always comes
  to a verdict, and it passes exactly when no foundation crate depends on a capability crate, no
  transport crate on a crate it must not reach, and every Rust file below the guarded directories that can
  be read parses and has no \<open>use\<close> item in its source as written, at any depth and through any grouping or
  renaming, whose path begins with a crate that is forbidden there.  It judges \<open>use\<close> items only: a file
  that cannot be read, an import that a macro emits and a full path in an expression pass.
\<close>

theorem guard_exact:
  assumes "wf (subdirectories fs)" "distinct (map fst packages)"
  shows "\<exists>verdict. deps_check_main (Ok packages) fs parse_file = Some verdict
    \<and> (verdict = Ok () \<longleftrightarrow> layered packages \<and> clean_sources fs parse_file)"
proof -
  obtain r1 r2 where errors: "check_dependencies (Ok packages) [] =
      Ok (layer_errors packages foundation capability r1 @ layer_errors packages transport forbidden_transport r2)"
    unfolding check_dependencies_def map_ok.simps append_Nil by blast
  define errors where "errors = layer_errors packages foundation capability r1
    @ layer_errors packages transport forbidden_transport r2"
  have "errors = [] \<longleftrightarrow> layered packages"
    unfolding errors_def append_is_Nil_conv layer_errors_empty depends_on_iff [OF assms(2)] layered_iff
    by (rule refl)
  note layers = errors [folded errors_def] this
  from scan_crates_result [OF assms(1), of parse_file scans errors] show ?thesis
    by (elim exE conjE) (simp add: deps_check_main_def layers check_source_imports_def clean_sources_iff)
qed

text \<open>
  A forbidden dependency is found; and what the guard does not see: a file of the API crate whose only
  trace of \<open>sqlx\<close> is a macro call passes.
\<close>

definition hidden_fs :: file_system where
  "hidden_fs =
     \<lparr>fs_exists = (\<lambda>p. p = ''bin/dandori-api/src''),
      fs_read_dir = (\<lambda>p. if p = ''bin/dandori-api/src'' then Some [Some ''bin/dandori-api/src/main.rs''] else None),
      fs_is_dir = (\<lambda>p. p = ''bin/dandori-api/src''), fs_read = Some\<rparr>"

lemma hidden_fs_wf: "wf (subdirectories hidden_fs)"
proof -
  have "subdirectories hidden_fs = {}" by (auto simp: subdirectories_def hidden_fs_def split: if_splits)
  then show ?thesis by simp
qed

theorem guard_exact_witness:
  "(\<exists>verdict. deps_check_main (Ok [(''dandori-api'', [''dandori-store''])]) demo_fs (\<lambda>_. None) = Some verdict
      \<and> verdict \<noteq> Ok ())
   \<and> deps_check_main (Ok []) hidden_fs (\<lambda>_. Some [MacroItem ''emit! { use sqlx::PgPool; }'']) = Some (Ok ())"
proof -
  have "clean_sources hidden_fs (\<lambda>_. Some [MacroItem ''emit! { use sqlx::PgPool; }''])"
    by (simp add: clean_sources_def item_imports_simps)
  then show ?thesis
    using guard_exact [OF demo_fs_wf, of "[(''dandori-api'', [''dandori-store''])]" "\<lambda>_. None"]
      guard_exact [OF hidden_fs_wf, of "[]" "\<lambda>_. Some [MacroItem ''emit! { use sqlx::PgPool; }'']"]
    by (auto simp: layered_def dependency_forbidden_def)
qed

end
