(* ===== verification/Migrations.thy ===== *)
theory Migrations
  imports Prelude
begin

text \<open>
  The migrations of the store, \<open>migration.rs\<close> and the statements of \<open>migration_sql.rs\<close>, as operations on
  the catalog of the database: its enum types, tables with their columns, references, row level
  security and policies, its indexes and functions.  A statement fails where PostgreSQL refuses it;
  a migration runs in a transaction, so a failing one leaves the catalog as it was.  Column types,
  checks and keys are the matter of \<open>Schema\<close>.  The one statement on rows, the \<open>UPDATE\<close> of the last
  migration, and its \<open>DO\<close> block, which grants to a configured role, are in \<open>Row_Security\<close>, where the
  migrations run on a database with its workspaces.
\<close>

section \<open>The catalog\<close>

record table =
  tb_name :: string
  tb_columns :: "string list"
  tb_enums :: "string list"
  tb_references :: "string list"
  tb_constraints :: "(string \<times> string) list"
  tb_set_not_null :: "string list"
  tb_rls :: bool
  tb_forced :: bool
  tb_policies :: "string list"

record catalog =
  cat_enums :: "string list"
  cat_tables :: "table list"
  cat_indexes :: "(string \<times> string \<times> string list) list"
  cat_functions :: "string list"
  cat_public :: "string list"

text \<open>
  \<open>tb_set_not_null\<close>: the columns a later statement made not null; \<open>cat_public\<close>: the functions everybody
  may call, as is the default.
\<close>

definition empty_catalog :: catalog where
  "empty_catalog = \<lparr>cat_enums = [], cat_tables = [], cat_indexes = [], cat_functions = [],
     cat_public = []\<rparr>"

definition table_named :: "string \<Rightarrow> catalog \<Rightarrow> table option" where
  "table_named t c = find (\<lambda>x. tb_name x = t) (cat_tables c)"

definition has_columns :: "string \<Rightarrow> string list \<Rightarrow> catalog \<Rightarrow> bool" where
  "has_columns t cols c =
     (case table_named t c of None \<Rightarrow> False | Some x \<Rightarrow> list_all (\<lambda>col. col \<in> set (tb_columns x)) cols)"

definition relation_exists :: "string \<Rightarrow> catalog \<Rightarrow> bool" where
  "relation_exists n c \<longleftrightarrow> n \<in> set (map tb_name (cat_tables c)) \<or> n \<in> set (map fst (cat_indexes c))"

section \<open>Statements\<close>

datatype ddl =
    CreateType string
  | DropTypeIfExists string
  | CreateTable string "string list" "string list" "string list"
  | DropTableIfExists string
  | CreateIndex string string "string list"
  | DropIndexIfExists string
  | EnableRls string
  | DisableRls string
  | ForceRls string
  | NoForceRls string
  | CreatePolicy string string
  | DropPolicyIfExists string string
  | AddColumn string string
  | DropColumnIfExists string string
  | SetNotNull string string
  | AddCheck string string string
  | DropConstraintIfExists string string
  | CreateFunction string string "string list"
  | RevokeFromPublic string
  | DropFunctionIfExists string

text \<open>\<open>ALTER TABLE\<close> needs the table.\<close>

definition alter_table :: "string \<Rightarrow> (table \<Rightarrow> table) \<Rightarrow> catalog \<Rightarrow> catalog option" where
  "alter_table t f c =
     (case table_named t c of
        None \<Rightarrow> None
      | Some x \<Rightarrow> Some (c\<lparr>cat_tables := map (\<lambda>y. if tb_name y = t then f y else y) (cat_tables c)\<rparr>))"

fun execute :: "ddl \<Rightarrow> catalog \<Rightarrow> catalog option" where
  "execute (CreateType n) c =
     (if n \<in> set (cat_enums c) then None else Some (c\<lparr>cat_enums := cat_enums c @ [n]\<rparr>))"
| "execute (DropTypeIfExists n) c =
     (if list_ex (\<lambda>x. n \<in> set (tb_enums x)) (cat_tables c) then None
      else Some (c\<lparr>cat_enums := filter (\<lambda>m. m \<noteq> n) (cat_enums c)\<rparr>))"
| "execute (CreateTable n cols enums refs) c =
     (if relation_exists n c \<or> \<not> list_all (\<lambda>e. e \<in> set (cat_enums c)) enums
         \<or> \<not> list_all (\<lambda>r. table_named r c \<noteq> None) refs then None
      else Some (c\<lparr>cat_tables := cat_tables c @
             [\<lparr>tb_name = n, tb_columns = cols, tb_enums = enums, tb_references = refs, tb_constraints = [],
               tb_set_not_null = [], tb_rls = False, tb_forced = False, tb_policies = []\<rparr>]\<rparr>))"
| "execute (DropTableIfExists n) c =
     (if list_ex (\<lambda>x. tb_name x \<noteq> n \<and> n \<in> set (tb_references x)) (cat_tables c) then None
      else Some (c\<lparr>cat_tables := filter (\<lambda>x. tb_name x \<noteq> n) (cat_tables c),
                   cat_indexes := filter (\<lambda>(i, t, cols). t \<noteq> n) (cat_indexes c)\<rparr>))"
| "execute (CreateIndex n t cols) c =
     (if relation_exists n c \<or> \<not> has_columns t cols c then None
      else Some (c\<lparr>cat_indexes := cat_indexes c @ [(n, t, cols)]\<rparr>))"
| "execute (DropIndexIfExists n) c = Some (c\<lparr>cat_indexes := filter (\<lambda>i. fst i \<noteq> n) (cat_indexes c)\<rparr>)"
| "execute (EnableRls t) c = alter_table t (\<lambda>x. x\<lparr>tb_rls := True\<rparr>) c"
| "execute (DisableRls t) c = alter_table t (\<lambda>x. x\<lparr>tb_rls := False\<rparr>) c"
| "execute (ForceRls t) c = alter_table t (\<lambda>x. x\<lparr>tb_forced := True\<rparr>) c"
| "execute (NoForceRls t) c = alter_table t (\<lambda>x. x\<lparr>tb_forced := False\<rparr>) c"
| "execute (CreatePolicy p t) c =
     (if list_ex (\<lambda>x. tb_name x = t \<and> p \<in> set (tb_policies x)) (cat_tables c) then None
      else alter_table t (\<lambda>x. x\<lparr>tb_policies := tb_policies x @ [p]\<rparr>) c)"
| "execute (DropPolicyIfExists p t) c =
     (if table_named t c = None then Some c
      else alter_table t (\<lambda>x. x\<lparr>tb_policies := filter (\<lambda>q. q \<noteq> p) (tb_policies x)\<rparr>) c)"
| "execute (AddColumn t col) c =
     (if has_columns t [col] c then None
      else alter_table t (\<lambda>x. x\<lparr>tb_columns := tb_columns x @ [col]\<rparr>) c)"
| "execute (DropColumnIfExists t col) c =
     map_option (\<lambda>c'. c'\<lparr>cat_indexes := filter (\<lambda>(i, t', cols). t' \<noteq> t \<or> col \<notin> set cols) (cat_indexes c')\<rparr>)
       (alter_table t (\<lambda>x. x\<lparr>tb_columns := filter (\<lambda>k. k \<noteq> col) (tb_columns x),
                           tb_constraints := filter (\<lambda>k. snd k \<noteq> col) (tb_constraints x),
                           tb_set_not_null := filter (\<lambda>k. k \<noteq> col) (tb_set_not_null x)\<rparr>) c)"
| "execute (SetNotNull t col) c =
     (if \<not> has_columns t [col] c then None
      else alter_table t (\<lambda>x. x\<lparr>tb_set_not_null := tb_set_not_null x @ [col]\<rparr>) c)"
| "execute (AddCheck t n col) c =
     (if \<not> has_columns t [col] c \<or> list_ex (\<lambda>x. tb_name x = t \<and> n \<in> fst ` set (tb_constraints x)) (cat_tables c)
      then None else alter_table t (\<lambda>x. x\<lparr>tb_constraints := tb_constraints x @ [(n, col)]\<rparr>) c)"
| "execute (DropConstraintIfExists t n) c =
     alter_table t (\<lambda>x. x\<lparr>tb_constraints := filter (\<lambda>k. fst k \<noteq> n) (tb_constraints x)\<rparr>) c"
| "execute (CreateFunction n t cols) c =
     (if \<not> has_columns t cols c then None
      else Some (if n \<in> set (cat_functions c) then c
                 else c\<lparr>cat_functions := cat_functions c @ [n], cat_public := cat_public c @ [n]\<rparr>))"
| "execute (RevokeFromPublic n) c =
     (if n \<notin> set (cat_functions c) then None
      else Some (c\<lparr>cat_public := filter (\<lambda>m. m \<noteq> n) (cat_public c)\<rparr>))"
| "execute (DropFunctionIfExists n) c =
     Some (c\<lparr>cat_functions := filter (\<lambda>m. m \<noteq> n) (cat_functions c),
              cat_public := filter (\<lambda>m. m \<noteq> n) (cat_public c)\<rparr>)"

fun execute_all :: "ddl list \<Rightarrow> catalog \<Rightarrow> catalog option" where
  "execute_all [] c = Some c"
| "execute_all (d # ds) c = Option.bind (execute d c) (execute_all ds)"

section \<open>The statements of the migrations\<close>

text \<open>A named check of a new table is a statement of its own.\<close>

definition CREATE_ENUMS_AND_CORE_TABLES_SQL :: "ddl list" where
  "CREATE_ENUMS_AND_CORE_TABLES_SQL =
     [CreateType ''issue_state_category'', CreateType ''issue_priority'', CreateType ''outbox_status'',
      CreateTable ''workspace''
        [''id'', ''name'', ''row_version'', ''created_at'', ''updated_at''] [] [],
      CreateTable ''workflow_version''
        [''id'', ''workspace_id'', ''name'', ''version'', ''checksum'', ''states'', ''transitions'', ''created_at'']
        [] [''workspace''],
      CreateTable ''project''
        [''id'', ''workspace_id'', ''name'', ''workflow_version_id'', ''row_version'', ''created_at'', ''updated_at'']
        [] [''workspace'', ''workflow_version''],
      CreateTable ''milestone''
        [''id'', ''workspace_id'', ''project_id'', ''title'', ''due_at'', ''row_version'', ''created_at'', ''updated_at'']
        [] [''workspace'', ''project''],
      CreateTable ''issue''
        [''id'', ''workspace_id'', ''project_id'', ''milestone_id'', ''title'', ''description'', ''state_category'',
         ''priority'', ''archived_at'', ''row_version'', ''created_at'', ''updated_at'']
        [''issue_state_category'', ''issue_priority''] [''workspace'', ''project'', ''milestone'']]"

definition DROP_ENUMS_AND_CORE_TABLES_SQL :: "ddl list" where
  "DROP_ENUMS_AND_CORE_TABLES_SQL =
     [DropTableIfExists ''issue'', DropTableIfExists ''milestone'', DropTableIfExists ''project'',
      DropTableIfExists ''workflow_version'', DropTableIfExists ''workspace'',
      DropTypeIfExists ''outbox_status'', DropTypeIfExists ''issue_priority'',
      DropTypeIfExists ''issue_state_category'']"

definition CREATE_ACTIVITY_OUTBOX_AND_IDEMPOTENCY_SQL :: "ddl list" where
  "CREATE_ACTIVITY_OUTBOX_AND_IDEMPOTENCY_SQL =
     [CreateTable ''activity''
        [''id'', ''workspace_id'', ''project_id'', ''issue_id'', ''command_id'', ''actor_id'', ''event_type'',
         ''event_payload'', ''created_at'']
        [] [''workspace'', ''project'', ''issue''],
      CreateTable ''outbox''
        [''id'', ''workspace_id'', ''event_id'', ''event_type'', ''aggregate_type'', ''aggregate_id'',
         ''occurred_at'', ''correlation_id'', ''payload'', ''attempts'', ''available_at'', ''status'', ''leased_at'',
         ''leased_until'', ''lease_token'', ''lease_owner'', ''published_at'', ''last_error'', ''created_at'',
         ''updated_at'']
        [''outbox_status''] [''workspace''],
      CreateTable ''idempotency_record''
        [''workspace_id'', ''command_name'', ''idempotency_key'', ''request_fingerprint'', ''response_payload'',
         ''expires_at'', ''created_at'']
        [] [''workspace'']]"

definition DROP_ACTIVITY_OUTBOX_AND_IDEMPOTENCY_SQL :: "ddl list" where
  "DROP_ACTIVITY_OUTBOX_AND_IDEMPOTENCY_SQL =
     [DropTableIfExists ''idempotency_record'', DropTableIfExists ''outbox'', DropTableIfExists ''activity'']"

definition CREATE_INDEXES_SQL :: "ddl list" where
  "CREATE_INDEXES_SQL =
     [CreateIndex ''idx_project_workspace_id_id'' ''project'' [''workspace_id'', ''id''],
      CreateIndex ''idx_milestone_workspace_id_id'' ''milestone'' [''workspace_id'', ''id''],
      CreateIndex ''idx_issue_workspace_id_id'' ''issue'' [''workspace_id'', ''id''],
      CreateIndex ''idx_issue_workspace_project'' ''issue'' [''workspace_id'', ''project_id'', ''archived_at''],
      CreateIndex ''idx_issue_workspace_project_state'' ''issue'' [''workspace_id'', ''project_id'', ''state_category''],
      CreateIndex ''idx_activity_workspace_created'' ''activity'' [''workspace_id'', ''created_at''],
      CreateIndex ''idx_outbox_poll_pending'' ''outbox'' [''workspace_id'', ''available_at'', ''id'', ''status''],
      CreateIndex ''idx_outbox_lease_expiry'' ''outbox'' [''workspace_id'', ''leased_until'', ''id'', ''status''],
      CreateIndex ''idx_outbox_retention'' ''outbox'' [''workspace_id'', ''status'', ''published_at'', ''updated_at''],
      CreateIndex ''idx_idempotency_expires_at'' ''idempotency_record'' [''expires_at''],
      CreateIndex ''idx_idempotency_fingerprint'' ''idempotency_record''
        [''workspace_id'', ''command_name'', ''idempotency_key'', ''request_fingerprint'']]"

definition DROP_INDEXES_SQL :: "ddl list" where
  "DROP_INDEXES_SQL =
     map DropIndexIfExists
       [''idx_idempotency_expires_at'', ''idx_idempotency_fingerprint'', ''idx_outbox_retention'',
        ''idx_outbox_lease_expiry'', ''idx_outbox_poll_pending'', ''idx_activity_workspace_created'',
        ''idx_issue_workspace_project_state'', ''idx_issue_workspace_project'', ''idx_issue_workspace_id_id'',
        ''idx_milestone_workspace_id_id'', ''idx_project_workspace_id_id'']"

text \<open>The tenant tables with their policies, in the order of the policies.\<close>

definition tenant_policies :: "(string \<times> string) list" where
  "tenant_policies =
     [(''tenant_workspace_policy'', ''workspace''), (''tenant_workflow_version_policy'', ''workflow_version''),
      (''tenant_project_policy'', ''project''), (''tenant_milestone_policy'', ''milestone''),
      (''tenant_issue_policy'', ''issue''), (''tenant_activity_policy'', ''activity''),
      (''tenant_outbox_policy'', ''outbox''), (''tenant_idempotency_policy'', ''idempotency_record'')]"

definition ENABLE_RLS_AND_POLICIES_SQL :: "ddl list" where
  "ENABLE_RLS_AND_POLICIES_SQL =
     map (\<lambda>(p, t). EnableRls t) tenant_policies @ map (\<lambda>(p, t). ForceRls t) tenant_policies
     @ map (\<lambda>(p, t). CreatePolicy p t) tenant_policies"

definition DROP_RLS_AND_POLICIES_SQL :: "ddl list" where
  "DROP_RLS_AND_POLICIES_SQL =
     map (\<lambda>(p, t). DropPolicyIfExists p t) (rev tenant_policies)
     @ map (\<lambda>(p, t). NoForceRls t) (rev tenant_policies)
     @ map (\<lambda>(p, t). DisableRls t) (rev tenant_policies)"

text \<open>
  The statements on the catalog; the \<open>UPDATE\<close> of the rows comes after the first of them, the \<open>DO\<close> block
  after the last.
\<close>

definition CREATE_WORKER_PARTITION_LEASE_SQL :: "ddl list" where
  "CREATE_WORKER_PARTITION_LEASE_SQL =
     [AddColumn ''workspace'' ''shard_bucket'',
      SetNotNull ''workspace'' ''shard_bucket'',
      AddCheck ''workspace'' ''workspace_shard_bucket_range_check'' ''shard_bucket'',
      CreateIndex ''idx_workspace_shard_bucket'' ''workspace'' [''shard_bucket'', ''id''],
      CreateTable ''worker_partition_lease''
        [''workspace_id'', ''shard_bucket'', ''lease_owner'', ''leased_at'', ''leased_until'', ''updated_at'']
        [] [''workspace''],
      AddCheck ''worker_partition_lease'' ''worker_partition_lease_shard_bucket_range_check'' ''shard_bucket'',
      CreateIndex ''idx_worker_partition_lease_owner_until'' ''worker_partition_lease''
        [''lease_owner'', ''leased_until''],
      CreateIndex ''idx_worker_partition_lease_until'' ''worker_partition_lease'' [''leased_until''],
      CreateIndex ''idx_worker_partition_lease_bucket_until'' ''worker_partition_lease''
        [''shard_bucket'', ''leased_until''],
      CreateFunction ''list_workspace_ids_for_partition_lease'' ''workspace'' [''id'', ''shard_bucket''],
      RevokeFromPublic ''list_workspace_ids_for_partition_lease'']"

definition DROP_WORKER_PARTITION_LEASE_SQL :: "ddl list" where
  "DROP_WORKER_PARTITION_LEASE_SQL =
     [DropFunctionIfExists ''list_workspace_ids_for_partition_lease'',
      DropIndexIfExists ''idx_worker_partition_lease_bucket_until'',
      DropIndexIfExists ''idx_worker_partition_lease_until'',
      DropIndexIfExists ''idx_worker_partition_lease_owner_until'',
      DropTableIfExists ''worker_partition_lease'',
      DropIndexIfExists ''idx_workspace_shard_bucket'',
      DropConstraintIfExists ''workspace'' ''workspace_shard_bucket_range_check'',
      DropColumnIfExists ''workspace'' ''shard_bucket'']"

section \<open>The migrator\<close>

datatype migration =
    CreateEnumsAndCoreTables
  | CreateActivityOutboxAndIdempotency
  | CreateIndexes
  | EnableRlsAndPolicies
  | CreateWorkerPartitionLease

definition migrations :: "migration list" where
  "migrations =
     [CreateEnumsAndCoreTables, CreateActivityOutboxAndIdempotency, CreateIndexes, EnableRlsAndPolicies,
      CreateWorkerPartitionLease]"

fun migration_name :: "migration \<Rightarrow> string" where
  "migration_name CreateEnumsAndCoreTables = ''m20260415_000001_create_enums_and_core_tables''"
| "migration_name CreateActivityOutboxAndIdempotency =
     ''m20260415_000002_create_activity_outbox_and_idempotency''"
| "migration_name CreateIndexes = ''m20260415_000003_create_indexes''"
| "migration_name EnableRlsAndPolicies = ''m20260415_000004_enable_rls_and_policies''"
| "migration_name CreateWorkerPartitionLease = ''m20260416_000005_create_worker_partition_lease''"

fun migration_up :: "migration \<Rightarrow> catalog \<Rightarrow> catalog option" where
  "migration_up CreateEnumsAndCoreTables = execute_all CREATE_ENUMS_AND_CORE_TABLES_SQL"
| "migration_up CreateActivityOutboxAndIdempotency = execute_all CREATE_ACTIVITY_OUTBOX_AND_IDEMPOTENCY_SQL"
| "migration_up CreateIndexes = execute_all CREATE_INDEXES_SQL"
| "migration_up EnableRlsAndPolicies = execute_all ENABLE_RLS_AND_POLICIES_SQL"
| "migration_up CreateWorkerPartitionLease = execute_all CREATE_WORKER_PARTITION_LEASE_SQL"

fun migration_down :: "migration \<Rightarrow> catalog \<Rightarrow> catalog option" where
  "migration_down CreateEnumsAndCoreTables = execute_all DROP_ENUMS_AND_CORE_TABLES_SQL"
| "migration_down CreateActivityOutboxAndIdempotency = execute_all DROP_ACTIVITY_OUTBOX_AND_IDEMPOTENCY_SQL"
| "migration_down CreateIndexes = execute_all DROP_INDEXES_SQL"
| "migration_down EnableRlsAndPolicies = execute_all DROP_RLS_AND_POLICIES_SQL"
| "migration_down CreateWorkerPartitionLease = execute_all DROP_WORKER_PARTITION_LEASE_SQL"

text \<open>
  The migrator of the library runs the pending migrations in their order, and reverts applied ones
  from the last; the database remembers the applied names.
\<close>

fun run_up :: "migration list \<Rightarrow> string list \<times> catalog \<Rightarrow> (string list \<times> catalog) option" where
  "run_up [] st = Some st"
| "run_up (m # ms) (applied, c) =
     (if migration_name m \<in> set applied then run_up ms (applied, c)
      else Option.bind (migration_up m c) (\<lambda>c'. run_up ms (applied @ [migration_name m], c')))"

fun run_down :: "migration list \<Rightarrow> string list \<times> catalog \<Rightarrow> (string list \<times> catalog) option" where
  "run_down [] st = Some st"
| "run_down (m # ms) (applied, c) =
     (if migration_name m \<notin> set applied then run_down ms (applied, c)
      else Option.bind (migration_down m c)
             (\<lambda>c'. run_down ms (filter (\<lambda>n. n \<noteq> migration_name m) applied, c')))"

definition migrate_database :: "string list \<times> catalog \<Rightarrow> (string list \<times> catalog) option" where
  "migrate_database st = run_up migrations st"

section \<open>Guarantees\<close>

lemma migrations_length: "length migrations = 5"
  by (simp add: migrations_def)

text \<open>\<open>migrated k\<close> is a fresh database after the first \<open>k\<close> migrations.\<close>

definition migrated :: "nat \<Rightarrow> (string list \<times> catalog) option" where
  "migrated k = run_up (take k migrations) ([], empty_catalog)"

lemma run_up_append: "run_up (xs @ ys) st = Option.bind (run_up xs st) (run_up ys)"
proof (induction xs st rule: run_up.induct)
  case (2 m ms applied c)
  then show ?case by (cases "migration_up m c") auto
qed simp

lemma run_down_Cons: "run_down (m # ms) st = Option.bind (run_down [m] st) (run_down ms)"
  by (cases st) (auto split: bind_split)

lemma run_up_applied:
  "run_up ms (applied, c) = Some (applied', c') \<Longrightarrow> set applied' = set applied \<union> migration_name ` set ms"
  by (induction ms "(applied, c)" arbitrary: applied c rule: run_up.induct)
     (auto split: if_splits bind_splits)

lemma run_up_again:
  "migration_name ` set ms \<subseteq> set applied \<Longrightarrow> run_up ms (applied, c) = Some (applied, c)"
  by (induction ms) auto

lemma migrated_later:
  assumes "k \<le> j"
  shows "migrated j = Option.bind (migrated k) (run_up (drop k (take j migrations)))"
proof -
  have "take j migrations = take k migrations @ drop k (take j migrations)"
    using append_take_drop_id [of k "take j migrations"] assms by (simp add: min_absorb1)
  then show ?thesis unfolding migrated_def by (metis run_up_append)
qed

lemma run_up_from:
  assumes "migrated k = Some st" "k \<le> j"
  shows "run_up (take j migrations) st = migrated j"
proof -
  obtain applied c where st: "st = (applied, c)" by (cases st)
  have split: "take j migrations = take k migrations @ drop k (take j migrations)"
    using append_take_drop_id [of k "take j migrations"] assms(2) by (simp add: min_absorb1)
  have "migration_name ` set (take k migrations) \<subseteq> set applied"
    using run_up_applied [OF assms(1) [unfolded migrated_def st]] by simp
  from run_up_again [OF this] have "run_up (take j migrations) st = run_up (drop k (take j migrations)) st"
    by (subst split) (simp add: run_up_append st)
  then show ?thesis using migrated_later [OF assms(2)] assms(1) by simp
qed

text \<open>Each migration is undone by its own reverse.\<close>

lemma steps_down:
  "Option.bind (migrated 1) (run_down [migrations ! 0]) = migrated 0"
  "Option.bind (migrated 2) (run_down [migrations ! 1]) = migrated 1"
  "Option.bind (migrated 3) (run_down [migrations ! 2]) = migrated 2"
  "Option.bind (migrated 4) (run_down [migrations ! 3]) = migrated 3"
  "Option.bind (migrated 5) (run_down [migrations ! 4]) = migrated 4"
  by code_simp+

lemma migrated_all: "migrated 5 \<noteq> None"
  by code_simp

lemma migrated_some: "migrated k \<noteq> None"
proof (cases "k \<le> 5")
  case True
  with migrated_all migrated_later [OF True] show ?thesis by (metis bind.bind_lzero)
next
  case False
  then have "migrated k = migrated 5" by (simp add: migrated_def migrations_def)
  with migrated_all show ?thesis by simp
qed

lemma revert_step:
  assumes "Option.bind (migrated 5) (run_down ms) = migrated (Suc k)"
    and "Option.bind (migrated (Suc k)) (run_down [m]) = migrated k"
  shows "Option.bind (migrated 5) (run_down (ms @ [m])) = migrated k"
proof -
  have "run_down (ms @ [m]) st = Option.bind (run_down ms st) (run_down [m])" for st
    by (induction ms st rule: run_down.induct) (auto split: bind_split)
  then have "run_down (ms @ [m]) = (\<lambda>st. Option.bind (run_down ms st) (run_down [m]))" by auto
  then show ?thesis using assms by (simp add: Option.bind_assoc [symmetric])
qed

text \<open>The catalog of the last step is brought back to that of any earlier one.\<close>

lemma revert_to:
  "k \<le> 5 \<Longrightarrow> Option.bind (migrated 5) (run_down (rev (drop k migrations))) = migrated k"
proof (induction "5 - k" arbitrary: k)
  case 0
  then have "k = 5" by simp
  then show ?case by (simp add: migrations_def)
next
  case (Suc n)
  then have k: "k < 5" by simp
  have "Option.bind (migrated 5) (run_down (rev (drop (Suc k) migrations) @ [migrations ! k])) = migrated k"
  proof (rule revert_step)
    show "Option.bind (migrated 5) (run_down (rev (drop (Suc k) migrations))) = migrated (Suc k)"
      using Suc k by auto
    show "Option.bind (migrated (Suc k)) (run_down [migrations ! k]) = migrated k"
      using k steps_down by (auto simp: less_Suc_eq numeral_eq_Suc)
  qed
  moreover have "drop k migrations = migrations ! k # drop (Suc k) migrations"
    using k Cons_nth_drop_Suc [of k migrations] by (simp add: migrations_length)
  ultimately show ?case by simp
qed

text \<open>
  In the migrated schema every table has row level security in force, also for its owner, under
  exactly one policy, except the leases of the workers, which belong to no tenant.
\<close>

theorem migrated_tables_guarded:
  "case migrated 5 of
     None \<Rightarrow> False
   | Some (applied, c) \<Rightarrow>
       map tb_name (filter (\<lambda>x. \<not> (tb_rls x \<and> tb_forced x \<and> length (tb_policies x) = 1)) (cat_tables c))
         = [''worker_partition_lease'']
       \<and> length (cat_tables c) = 9"
  by code_simp

end
