(* ===== verification/Observability.thy ===== *)
theory Observability
  imports Json
begin

text \<open>
  The crate \<open>dandori-observability\<close>: correlation identifiers and the installation of the tracing
  subscriber.  The environment filter and the global subscriber of the \<open>tracing\<close> crates are arguments;
  the metric helpers only write log lines.
\<close>

section \<open>Correlation identifiers\<close>

definition CORRELATION_ID_HEADER :: string where
  "CORRELATION_ID_HEADER = ''x-correlation-id''"

datatype correlation_id = CorrelationId (as_uuid: uuid)

definition correlation_display :: "leaf \<Rightarrow> correlation_id \<Rightarrow> string" where
  "correlation_display L c = uuid_str L (as_uuid c)"

text \<open>\<open>fresh\<close> is the version 7 identifier drawn when none arrives.\<close>

definition parse_or_new :: "leaf \<Rightarrow> uuid \<Rightarrow> string option \<Rightarrow> correlation_id" where
  "parse_or_new L fresh raw =
     (case raw of
        None \<Rightarrow> CorrelationId fresh
      | Some s \<Rightarrow> (case uuid_parse L (trim s) of Inl e \<Rightarrow> CorrelationId fresh | Inr u \<Rightarrow> CorrelationId u))"

lemma parse_or_new_exact:
  "parse_or_new L fresh raw = CorrelationId u \<longleftrightarrow>
     (case Option.bind raw (\<lambda>s. case uuid_parse L (trim s) of Inl e \<Rightarrow> None | Inr v \<Rightarrow> Some v) of
        None \<Rightarrow> u = fresh | Some v \<Rightarrow> u = v)"
  by (auto simp: parse_or_new_def split: option.splits sum.splits)

lemma parse_or_new_display:
  assumes "leaf_ok L" "trim (uuid_str L (as_uuid c)) = uuid_str L (as_uuid c)"
  shows "parse_or_new L fresh (Some (correlation_display L c)) = c"
  using assms by (cases c) (simp add: parse_or_new_def correlation_display_def leaf_uuid_parse)

section \<open>Tracing\<close>

datatype observability_error = AlreadyInstalled | FilterBuild string

datatype tracing_format = JsonFormat | PrettyFormat

record tracing_config =
  tc_format :: tracing_format
  tc_default_filter :: string
  tc_filter_env :: string
  tc_service_name :: string

definition TracingConfig_for_service :: "string \<Rightarrow> tracing_config" where
  "TracingConfig_for_service service_name =
     \<lparr>tc_format = JsonFormat, tc_default_filter = ''info,dandori=debug'', tc_filter_env = ''RUST_LOG'',
      tc_service_name = service_name\<rparr>"

definition TracingConfig_pretty :: "tracing_config \<Rightarrow> tracing_config" where
  "TracingConfig_pretty cfg = cfg\<lparr>tc_format := PrettyFormat\<rparr>"

text \<open>What the process has installed: the cell \<open>INSTALLED\<close>, and the global subscriber by its format.\<close>

record tracing_state =
  ts_installed :: bool
  ts_subscriber :: "tracing_format option"

text \<open>\<open>from_env v\<close> is the filter of the variable \<open>v\<close>, \<open>filter_of t\<close> that of a text, or their errors.\<close>

definition init_tracing ::
  "(string \<Rightarrow> string + 'f) \<Rightarrow> (string \<Rightarrow> string + 'f) \<Rightarrow> tracing_config \<Rightarrow> tracing_state
    \<Rightarrow> (observability_error + unit) \<times> tracing_state" where
  "init_tracing from_env filter_of cfg st =
     (if ts_installed st then (Ok (), st)
      else
        let st' = st\<lparr>ts_installed := True\<rparr>;
            env_filter = (case from_env (tc_filter_env cfg) of
                            Inr f \<Rightarrow> Ok f | Inl e \<Rightarrow> map_err FilterBuild (filter_of (tc_default_filter cfg)))
        in case env_filter of
             Inl e \<Rightarrow> (Err e, st')
           | Inr f \<Rightarrow>
               if ts_subscriber st' \<noteq> None then (Err AlreadyInstalled, st')
               else (Ok (), st'\<lparr>ts_subscriber := Some (tc_format cfg)\<rparr>))"

lemma init_tracing_once:
  assumes "snd (init_tracing from_env filter_of cfg st) = st'"
  shows "init_tracing from_env' filter_of' cfg' st' = (Ok (), st')"
proof -
  have "ts_installed st'"
    using assms by (auto simp: init_tracing_def Let_def split: sum.splits if_splits)
  then show ?thesis by (simp add: init_tracing_def)
qed

text \<open>
  A first call that fails still marks the subscriber as installed: every later call then reports
  success, with nothing installed.
\<close>

lemma failed_init_is_final:
  assumes "from_env (tc_filter_env cfg) = Err e" "filter_of (tc_default_filter cfg) = Err e'"
    and "\<not> ts_installed st" "ts_subscriber st = None"
  shows "case init_tracing from_env filter_of cfg st of (r, st') \<Rightarrow>
    r = Err (FilterBuild e')
    \<and> init_tracing from_env' filter_of' cfg' st' = (Ok (), st') \<and> ts_subscriber st' = None"
  using assms by (simp add: init_tracing_def Let_def)

end
