(* ===== verification/Delivery_Trace.thy ===== *)
theory Delivery_Trace
  imports Worker_Theorems "HOL-Library.Sublist"
begin

text \<open>
  What the worker does on the network, next to what it does in the database: the trace of the
  requests it sends and of the answers it takes.  An event is recorded as delivered only after a
  request that carries it was answered with success, over every schedule, answer and fault.
\<close>

section \<open>The trace of a run\<close>

datatype network_event =
    RequestSent outbox_message "string \<times> json"
  | AnswerTaken outbox_message http_response

text \<open>What a tick of a tenant does on the network.\<close>

definition tick_trace :: "worker_env \<Rightarrow> tick \<Rightarrow> tenant_world \<Rightarrow> network_event list" where
  "tick_trace env t w =
     (let (ts, s, b) = w in
      case (ts_phase ts, t) of
        (Publishing (message # rest) flying completed, BeginTick now_epoch) \<Rightarrow>
          if length flying < max (wc_publish_concurrency (we_config env)) 1 then
            (case dispatch_begin (we_leaf env) (we_registry env) (we_publisher env) now_epoch b message of
               Inl outcome \<Rightarrow> []
             | Inr request \<Rightarrow> [RequestSent message request])
          else []
      | (Publishing waiting flying completed, AnswerTick i response) \<Rightarrow>
          if we_publisher env \<noteq> NoopPublisher \<and> i < length flying
          then [AnswerTaken (fst (flying ! i)) response] else []
      | _ \<Rightarrow> [])"

fun run_trace ::
  "worker_env \<Rightarrow> (nat \<times> tick) list \<Rightarrow> tenant_state list \<times> session \<times> breaker \<Rightarrow> network_event list" where
  "run_trace env [] w = []"
| "run_trace env ((i, t) # ticks) w =
     (if may_tick (we_config env) (fst w) i then tick_trace env t (fst w ! i, snd w) else [])
       @ run_trace env ticks (run_tick env (i, t) w)"

text \<open>The trace of \<open>run_once\<close>.\<close>

definition network_trace ::
  "worker_env \<Rightarrow> uuid \<Rightarrow> timestamp \<Rightarrow> (nat \<times> tick) list \<Rightarrow> worker_memory \<times> session \<times> breaker
    \<Rightarrow> network_event list" where
  "network_trace env cid now ticks msb =
     (let (m, s, b) = msb in
      case acquire_workspaces (we_config env) cid now (m, s) of
        (Inl error, _) \<Rightarrow> []
      | (Inr assigned, m', s') \<Rightarrow>
          run_trace env ticks (map (start_tenant (we_config env)) assigned, s', b))"

section \<open>What each tick does to a tenant and to the trace\<close>

text \<open>A message was answered with success, after its request was sent.\<close>

definition requested :: "network_event list \<Rightarrow> outbox_message \<Rightarrow> (string \<times> json) \<Rightarrow> bool" where
  "requested trace message request \<longleftrightarrow> RequestSent message request \<in> set trace"

definition acknowledged :: "network_event list \<Rightarrow> outbox_message \<Rightarrow> (string \<times> json) \<Rightarrow> bool" where
  "acknowledged trace message request \<longleftrightarrow>
     (\<exists>status body. is_success status
        \<and> subseq [RequestSent message request, AnswerTaken message (Responded status body)] trace)"

lemma subseq_later: "subseq xs ys \<Longrightarrow> subseq xs (ys @ zs)"
  using list_emb_append_mono [of "(=)" xs ys "[]" zs] by simp

lemma acknowledged_append: "acknowledged trace message request \<Longrightarrow> acknowledged (trace @ later) message request"
  unfolding acknowledged_def using subseq_later by blast

lemma requested_append: "requested trace message request \<Longrightarrow> requested (trace @ later) message request"
  by (simp add: requested_def)

lemma requested_answered:
  assumes "requested trace message request" "is_success status"
  shows "acknowledged (trace @ [AnswerTaken message (Responded status body)]) message request"
proof -
  have "subseq [RequestSent message request] trace"
    using assms(1) by (simp add: requested_def subseq_singleton_left)
  then have "subseq ([RequestSent message request] @ [AnswerTaken message (Responded status body)])
      (trace @ [AnswerTaken message (Responded status body)])"
    by (rule list_emb_append_mono) simp
  with assms(2) show ?thesis by (auto simp: acknowledged_def)
qed


fun pending_messages :: "tenant_phase \<Rightarrow> outbox_message list" where
  "pending_messages (Publishing waiting flying completed) = waiting @ map fst flying @ map fst completed"
| "pending_messages (Marking completed) = map fst completed"
| "pending_messages _ = []"

fun flying_messages :: "tenant_phase \<Rightarrow> outbox_message list" where
  "flying_messages (Publishing waiting flying completed) = map fst flying"
| "flying_messages _ = []"

fun outcomes :: "tenant_phase \<Rightarrow> delivery list" where
  "outcomes (Publishing waiting flying completed) = completed"
| "outcomes (Marking completed) = completed"
| "outcomes _ = []"

lemma advance_messages [simp]:
  "pending_messages (advance phase) = pending_messages phase"
  "flying_messages (advance phase) = flying_messages phase"
  "outcomes (advance phase) = outcomes phase"
  by (cases phase rule: advance.cases; simp)+

lemma set_remove_nth: "i < length xs \<Longrightarrow> set xs = insert (xs ! i) (set (remove_nth i xs))"
  by (subst id_take_nth_drop [of i xs]) (auto simp: remove_nth_def)

section \<open>The invariant of the trace\<close>

definition message_from :: "db \<Rightarrow> outbox_message \<Rightarrow> bool" where
  "message_from d0 m \<longleftrightarrow>
     (\<exists>r\<in>set (outbox d0). om_id m = o_id r \<and> om_event_id m = o_event_id r
        \<and> om_workspace_id m = o_workspace_id r \<and> om_payload m = o_payload r)"

definition stems_from :: "db \<Rightarrow> db \<Rightarrow> bool" where
  "stems_from d0 d \<longleftrightarrow>
     (\<forall>r\<in>set (outbox d). \<exists>r0\<in>set (outbox d0).
        o_id r = o_id r0 \<and> o_event_id r = o_event_id r0 \<and> o_workspace_id r = o_workspace_id r0
        \<and> o_payload r = o_payload r0)"

definition carries :: "worker_env \<Rightarrow> outbox_message \<Rightarrow> (string \<times> json) \<Rightarrow> bool" where
  "carries env m request \<longleftrightarrow>
     (\<exists>p event. we_publisher env = HttpPublisher p
        \<and> issue_created_de (we_leaf env) (om_payload m) = Some event
        \<and> request = (hp_endpoint p, publish_request (we_leaf env) m event))"

definition sent :: "worker_env \<Rightarrow> network_event list \<Rightarrow> outbox_message \<Rightarrow> bool" where
  "sent env trace m \<longleftrightarrow> (\<exists>request. requested trace m request \<and> carries env m request)"

definition confirmed :: "worker_env \<Rightarrow> network_event list \<Rightarrow> outbox_message \<Rightarrow> bool" where
  "confirmed env trace m \<longleftrightarrow> (\<exists>request. acknowledged trace m request \<and> carries env m request)"

definition tenant_traced :: "worker_env \<Rightarrow> db \<Rightarrow> network_event list \<Rightarrow> tenant_state \<Rightarrow> bool" where
  "tenant_traced env d0 trace ts \<longleftrightarrow>
     (\<forall>m\<in>set (pending_messages (ts_phase ts)). message_from d0 m)
     \<and> (\<forall>m\<in>set (flying_messages (ts_phase ts)). sent env trace m)
     \<and> (\<forall>(m, outcome)\<in>set (outcomes (ts_phase ts)). outcome = Inr () \<longrightarrow> confirmed env trace m)"

definition db_traced :: "worker_env \<Rightarrow> db \<Rightarrow> network_event list \<Rightarrow> db \<Rightarrow> bool" where
  "db_traced env d0 trace d \<longleftrightarrow>
     schema_ok d \<and> stems_from d0 d
     \<and> (\<forall>r\<in>set (outbox d). o_status r = Delivered \<longrightarrow>
          (\<exists>r0\<in>set (outbox d0). o_id r0 = o_id r \<and> o_status r0 = Delivered)
          \<or> (\<exists>m. om_id m = o_id r \<and> message_from d0 m \<and> confirmed env trace m))"

lemma sent_append: "sent env trace m \<Longrightarrow> sent env (trace @ later) m"
  by (auto simp: sent_def intro: requested_append)

lemma confirmed_append: "confirmed env trace m \<Longrightarrow> confirmed env (trace @ later) m"
  by (auto simp: confirmed_def intro: acknowledged_append)

lemma traced_append:
  "tenant_traced env d0 trace ts \<Longrightarrow> tenant_traced env d0 (trace @ later) ts"
  by (auto simp: tenant_traced_def intro: sent_append confirmed_append)

lemma db_traced_append: "db_traced env d0 trace d \<Longrightarrow> db_traced env d0 (trace @ later) d"
  unfolding db_traced_def by (meson confirmed_append)

text \<open>Only a call that marks a row as delivered makes it so.\<close>

lemma effect_delivered:
  assumes "schema_ok d" "\<not> creates_issue c" "r \<in> set (outbox (call_effect L c d))" "o_status r = Delivered"
  shows "(\<exists>r0\<in>set (outbox d). o_id r0 = o_id r \<and> o_status r0 = Delivered)
    \<or> (\<exists>auth token owner now. c = MarkDeliveredCall auth (o_id r) token owner now)"
proof -
  have ok: "outbox_ok d" and uk: "unique_key o_id (outbox d)"
    using assms(1) by (auto simp: schema_ok_def outbox_ok_def)
  have settled: "(\<exists>r0\<in>set (outbox d). o_id r0 = o_id r \<and> o_status r0 = Delivered) \<or> i = o_id r \<and> P"
    if "r \<in> set (outbox (snd (settle_spec auth i token owner now f d)))"
      "\<And>l x. o_id (f l x) = o_id x" "\<And>l x. o_status (f l x) = Delivered \<Longrightarrow> P" for auth i token owner now f P
  proof (cases "settle auth i token owner now f d")
    case (Inl e)
    with that(1) assms(4) show ?thesis by (auto simp: settle_spec_def)
  next
    case (Inr d')
    then obtain l where "d' = d\<lparr>outbox := update_where (\<lambda>x. o_id x = i) (f l) (outbox d)\<rparr>"
      by (auto simp: settle_Ok [OF uk])
    with that Inr assms(4) show ?thesis by (auto simp: settle_spec_def set_update_where)
  qed
  show ?thesis
  proof (cases c)
    case (LeaseBatchCall locked token auth now lease_for n)
    show ?thesis
    proof (cases "0 \<le> n")
      case True
      with assms(3,4) LeaseBatchCall show ?thesis
        by (auto simp: lease_outbox_batch_spec_def lease_statement_Ok [OF ok] Let_def set_update_where
            leased_row_def)
    next
      case False
      with assms(3,4) LeaseBatchCall show ?thesis
        by (auto simp: lease_outbox_batch_spec_def lease_statement_def)
    qed
  next
    case (MarkDeliveredCall auth i token owner now)
    with settled [of auth i token owner now "\<lambda>_. delivered_row now" True] assms(3) show ?thesis
      by (auto simp: mark_outbox_delivered_spec_def row_identities)
  next
    case (MarkFailedCall auth i f)
    have "o_status (failure_row f l x) \<noteq> Delivered" for l x by (simp add: status_after_failure)
    with settled [of auth i "fc_lease_token f" "fc_lease_owner f" "fc_now f" "failure_row f" False]
      assms(3) MarkFailedCall show ?thesis
      by (simp add: mark_outbox_failed_spec_def row_identities)
  next
    case (CleanupOutboxCall auth t u)
    with assms(3,4) show ?thesis by (auto simp: cleanup_outbox_spec_def Let_def set_delete_where)
  qed (use assms in \<open>auto simp: other_tables_outbox acquire_outbox\<close>)
qed

lemma effect_stems:
  assumes "schema_ok d" "\<not> creates_issue c" "stems_from d0 d"
  shows "stems_from d0 (call_effect L c d)"
  unfolding stems_from_def
proof
  fix r assume "r \<in> set (outbox (call_effect L c d))"
  then obtain x where "x \<in> set (outbox d)" "r = x \<or> row_moves (\<lambda>_. True) x r"
    using moves_row [OF call_moves [OF assms(1) call_failures_all assms(2), of L], of r]
    by (metis (no_types, lifting) mem_Collect_eq set_delete_where)
  then show "\<exists>r0\<in>set (outbox d0). o_id r = o_id r0 \<and> o_event_id r = o_event_id r0
      \<and> o_workspace_id r = o_workspace_id r0 \<and> o_payload r = o_payload r0"
    using assms(3) row_moves_identity [of _ x r] unfolding stems_from_def by metis
qed

lemma call_traced:
  assumes "db_traced env d0 trace (committed s)" "\<not> creates_issue c"
    and "\<And>auth i token owner now. c = MarkDeliveredCall auth i token owner now \<Longrightarrow>
           \<exists>m. om_id m = i \<and> message_from d0 m \<and> confirmed env trace m"
  shows "db_traced env d0 trace (committed (perform L c s))"
proof -
  let ?d = "committed s"
  have d: "schema_ok ?d" "stems_from d0 ?d" using assms(1) by (simp_all add: db_traced_def)
  have "(\<exists>r0\<in>set (outbox d0). o_id r0 = o_id r \<and> o_status r0 = Delivered)
      \<or> (\<exists>m. om_id m = o_id r \<and> message_from d0 m \<and> confirmed env trace m)"
    if "r \<in> set (outbox (call_effect L c ?d))" "o_status r = Delivered" for r
    using effect_delivered [OF d(1) assms(2) that] assms(1,3) unfolding db_traced_def by metis
  then have "db_traced env d0 trace (call_effect L c ?d)"
    using effect_stems [OF d(1) assms(2) d(2)] call_effect_schema [OF d(1)] by (simp add: db_traced_def)
  with assms(1) perform_outcome [of L c s] show ?thesis by metis
qed

section \<open>The invariant over a run\<close>

lemma dispatch_over_http:
  assumes "we_publisher env = HttpPublisher p"
  shows "dispatch_begin (we_leaf env) (we_registry env) (we_publisher env) now_epoch b m = Inl outcome \<Longrightarrow>
      outcome \<noteq> Inr ()"
    "dispatch_begin (we_leaf env) (we_registry env) (we_publisher env) now_epoch b m = Inr request \<Longrightarrow>
      carries env m request"
proof -
  have handle: "handle_begin (we_leaf env) (HttpPublisher p) now_epoch b handler m \<noteq> Inl (Inr ())
      \<and> (handle_begin (we_leaf env) (HttpPublisher p) now_epoch b handler m = Inr request \<longrightarrow>
           carries env m request)" for handler
    using assms by (cases handler) (auto simp: http_begin_def publish_err_def carries_def split: option.splits)
  show "dispatch_begin (we_leaf env) (we_registry env) (we_publisher env) now_epoch b m = Inl outcome \<Longrightarrow>
      outcome \<noteq> Inr ()"
    using handle assms by (auto simp: dispatch_begin_def Let_def publish_err_def split: option.splits)
  show "dispatch_begin (we_leaf env) (we_registry env) (we_publisher env) now_epoch b m = Inr request \<Longrightarrow>
      carries env m request"
    using handle assms by (auto simp: dispatch_begin_def Let_def split: option.splits)
qed

lemma http_finish_Ok:
  "fst (http_finish status_text p now_epoch response b) = Inr () \<Longrightarrow>
     \<exists>status body. response = Responded status body \<and> is_success status"
  by (cases response) (auto simp: http_finish_def publish_err_def split: if_splits)

lemma leased_messages:
  assumes "schema_ok d" "stems_from d0 d"
    and "lease_outbox_batch_spec locked token auth now lease_for n d = (Ok messages, d')"
  shows "\<forall>m\<in>set messages. message_from d0 m"
proof -
  have ok: "outbox_ok d" using assms(1) by (simp add: schema_ok_def)
  have n: "0 \<le> n" using assms(3) by (auto simp: lease_outbox_batch_spec_def lease_statement_def split: if_splits)
  have "messages = map (message_of_row token (auth_actor_id auth) (now + lease_for))
      (filter (\<lambda>r. o_id r \<in> lease_choice locked (auth_workspace_id auth) now n d) (outbox d))"
    using assms(3) by (simp add: lease_outbox_batch_spec_def lease_statement_Ok [OF ok n] Let_def)
  then show ?thesis
    using assms(2) by (fastforce simp: stems_from_def message_from_def message_of_row_def)
qed

lemma finished_traced: "tenant_traced env d0 trace (ts\<lparr>ts_phase := Finished e\<rparr>)"
  by (simp add: tenant_traced_def)

lemma lease_tick_traced:
  assumes "db_traced env d0 trace (committed s)" "lease_tick env cid locked token now (ts, s, b) = (ts', s', b')"
  shows "tenant_traced env d0 trace ts' \<and> db_traced env d0 trace (committed s')"
proof -
  obtain r where run: "lease_outbox_batch locked token (ts_auth ts) now
      (duration_seconds (wc_lease_seconds (we_config env))) (wc_batch_size (we_config env)) s = (r, s')"
    using assms(2) by (auto simp: lease_tick_def Let_def split: prod.splits)
  have "db_traced env d0 trace (committed s')"
    using call_traced [OF assms(1), of "LeaseBatchCall locked token (ts_auth ts) now
        (duration_seconds (wc_lease_seconds (we_config env))) (wc_batch_size (we_config env))"] run by simp
  moreover have "tenant_traced env d0 trace ts'"
  proof (cases r)
    case (Inl e)
    with assms(2) run show ?thesis
      by (auto simp: lease_tick_def Let_def continue_with_def finished_traced)
  next
    case (Inr messages)
    then have spec: "lease_outbox_batch_spec locked token (ts_auth ts) now
        (duration_seconds (wc_lease_seconds (we_config env))) (wc_batch_size (we_config env)) (committed s)
        = (Ok messages, committed s')"
      using lease_op.returned [of locked token "ts_auth ts" now
          "duration_seconds (wc_lease_seconds (we_config env))" "wc_batch_size (we_config env)" s] run by simp
    have "\<forall>m\<in>set messages. message_from d0 m"
      using assms(1) by (intro leased_messages [OF _ _ spec]) (simp_all add: db_traced_def)
    with assms(2) run Inr show ?thesis
      by (auto simp: lease_tick_def Let_def continue_with_def tenant_traced_def)
  qed
  ultimately show ?thesis by simp
qed

lemma begin_tick_traced:
  assumes "tenant_traced env d0 trace ts" "we_publisher env = HttpPublisher p"
    and "ts_phase ts = Publishing waiting flying completed"
    and "begin_tick env now_epoch waiting flying completed (ts, s, b) = (ts', s', b')"
  shows "tenant_traced env d0 (trace @ tick_trace env (BeginTick now_epoch) (ts, s, b)) ts'"
proof (cases "\<exists>m rest. waiting = m # rest
    \<and> length flying < max (wc_publish_concurrency (we_config env)) 1")
  case False
  with assms(4) have "ts' = ts" by (auto simp: begin_tick_def split: list.splits)
  with assms(1) show ?thesis by (simp add: traced_append)
next
  case True
  then obtain m rest where w: "waiting = m # rest" "length flying < max (wc_publish_concurrency (we_config env)) 1"
    by blast
  show ?thesis
  proof (cases "dispatch_begin (we_leaf env) (we_registry env) (we_publisher env) now_epoch b m")
    case (Inl outcome)
    have "outcome \<noteq> Inr ()" by (rule dispatch_over_http(1) [OF assms(2) Inl])
    with assms(1,3,4) w Inl show ?thesis
      by (auto simp: begin_tick_def tick_trace_def tenant_traced_def)
  next
    case (Inr request)
    let ?trace = "trace @ [RequestSent m request]"
    have "tenant_traced env d0 ?trace ts" by (rule traced_append [OF assms(1)])
    moreover have "sent env ?trace m"
      unfolding sent_def
      by (rule exI [of _ request]) (simp add: requested_def dispatch_over_http(2) [OF assms(2) Inr])
    ultimately show ?thesis
      using assms(3,4) w Inr by (auto simp: begin_tick_def tick_trace_def tenant_traced_def)
  qed
qed

lemma answer_tick_traced:
  assumes "tenant_traced env d0 trace ts" "we_publisher env = HttpPublisher p"
    and "ts_phase ts = Publishing waiting flying completed"
    and "answer_tick env i response waiting flying completed (ts, s, b) = (ts', s', b')"
  shows "tenant_traced env d0 (trace @ tick_trace env (AnswerTick i response) (ts, s, b)) ts'"
proof (cases "i < length flying")
  case False
  with assms(2,4) have "ts' = ts" by (auto simp: answer_tick_def)
  with assms(1) show ?thesis by (simp add: traced_append)
next
  case True
  obtain m e where m: "flying ! i = (m, e)" by (cases "flying ! i")
  obtain outcome b1 where fin: "http_finish (we_status_text env) p e response b = (outcome, b1)"
    by (cases "http_finish (we_status_text env) p e response b")
  let ?trace = "trace @ [AnswerTaken m response]"
  have trace: "tick_trace env (AnswerTick i response) (ts, s, b) = [AnswerTaken m response]"
    using assms(2,3) True m by (cases waiting) (simp_all add: tick_trace_def)
  have ts': "ts_phase ts' = advance (Publishing waiting (remove_nth i flying) (completed @ [(m, outcome)]))"
    using assms(2,4) True m fin by (auto simp: answer_tick_def)
  have old: "tenant_traced env d0 ?trace ts" by (rule traced_append [OF assms(1)])
  have flying: "set flying = insert (m, e) (set (remove_nth i flying))"
    using set_remove_nth [OF True] m by simp
  have "confirmed env ?trace m" if ok: "outcome = Inr ()"
  proof -
    obtain status body where r: "response = Responded status body" "is_success status"
      using http_finish_Ok [of "we_status_text env" p e response b] fin ok by auto
    have "sent env trace m" using assms(1,3) flying by (simp add: tenant_traced_def)
    with r show ?thesis by (auto simp: sent_def confirmed_def intro: requested_answered)
  qed
  with old assms(3) flying show ?thesis
    unfolding trace tenant_traced_def ts' advance_messages by auto
qed

lemma mark_tick_traced:
  assumes "tenant_traced env d0 trace ts" "db_traced env d0 trace (committed s)"
    and "ts_phase ts = Marking completed"
    and "mark_tick env cid now roll completed (ts, s, b) = (ts', s', b')"
  shows "tenant_traced env d0 trace ts' \<and> db_traced env d0 trace (committed s')"
proof (cases completed)
  case Nil
  with assms show ?thesis by (simp add: mark_tick_def)
next
  case (Cons delivery rest)
  obtain m outcome where d: "delivery = (m, outcome)" by (cases delivery)
  have s': "s' = snd (apply_publish_outcome (we_config env) (ts_auth ts) now roll delivery (ts_report ts) s)"
    and ts': "ts_phase ts' = advance (Marking rest) \<or> is_finished (ts_phase ts')"
    using assms(4) Cons by (auto simp: mark_tick_def continue_with_def Let_def split: prod.splits sum.splits)
  have "db_traced env d0 trace (committed s')"
  proof (cases outcome)
    case (Inl error)
    then show ?thesis
      using call_traced [OF assms(2), of "MarkFailedCall (ts_auth ts) (om_id m)
          (failure_of (we_config env) now roll m error)"]
      by (simp add: s' d apply_publish_outcome_def Let_def case_prod_beta)
  next
    case (Inr u)
    have "message_from d0 m \<and> confirmed env trace m"
      using assms(1,3) Cons d Inr by (simp add: tenant_traced_def)
    then show ?thesis
      using call_traced [OF assms(2), of "MarkDeliveredCall (ts_auth ts) (om_id m) (om_lease_token m)
          (om_lease_owner m) now"]
      by (auto simp: s' d Inr apply_publish_outcome_def Let_def case_prod_beta)
  qed
  moreover have "tenant_traced env d0 trace ts'"
    using ts' assms(1,3) Cons by (cases "ts_phase ts'") (auto simp: tenant_traced_def)
  ultimately show ?thesis by simp
qed

lemma tick_traced:
  assumes "tenant_traced env d0 trace ts" "db_traced env d0 trace (committed s)"
    and "we_publisher env = HttpPublisher p" "tenant_tick env t (ts, s, b) = (ts', s', b')"
  shows "tenant_traced env d0 (trace @ tick_trace env t (ts, s, b)) ts'"
    "db_traced env d0 (trace @ tick_trace env t (ts, s, b)) (committed s')"
proof -
  let ?trace = "trace @ tick_trace env t (ts, s, b)"
  note old = traced_append [OF assms(1), of "tick_trace env t (ts, s, b)"]
    db_traced_append [OF assms(2), of "tick_trace env t (ts, s, b)"]
  have "tenant_traced env d0 ?trace ts' \<and> db_traced env d0 ?trace (committed s')"
  proof (cases rule: tenant_tick_cases [of env t "(ts, s, b)"])
    case idle
    with assms(4) old show ?thesis by simp
  next
    case (lease cid locked token now)
    then have "lease_tick env cid locked token now (ts, s, b) = (ts', s', b')" using assms(4) by simp
    from lease_tick_traced [OF old(2) this] show ?thesis .
  next
    case (send now_epoch waiting flying completed)
    have "s' = s"
      using send(2) assms(4) by (auto simp: begin_tick_def split: list.splits if_splits sum.splits)
    with begin_tick_traced [OF assms(1,3), of waiting flying completed now_epoch s b ts' s' b'] send assms(4) old
    show ?thesis by simp
  next
    case (answer i response waiting flying completed)
    have "s' = s"
      using answer(2) assms(4) by (auto simp: answer_tick_def split: publisher.splits if_splits prod.splits)
    with answer_tick_traced [OF assms(1,3), of waiting flying completed i response s b ts' s' b'] answer assms(4) old
    show ?thesis by simp
  next
    case (mark cid now roll completed)
    then have "mark_tick env cid now roll completed (ts, s, b) = (ts', s', b')" "ts_phase ts = Marking completed"
      using assms(4) by simp_all
    from mark_tick_traced [OF old this(2,1)] show ?thesis .
  next
    case (sweep_outbox cid now1 now2)
    let ?c = "CleanupOutboxCall (ts_auth ts)
        (now1 - duration_hours (wc_delivered_retention_hours (we_config env)))
        (now2 - duration_hours (wc_dead_letter_retention_hours (we_config env)))"
    have "s' = perform (we_leaf env) ?c s" "pending_messages (ts_phase ts') = []"
      "flying_messages (ts_phase ts') = []" "outcomes (ts_phase ts') = []"
      using sweep_outbox assms(4)
      by (auto simp: cleanup_outbox_tick_def Let_def continue_with_def split: prod.splits sum.splits)
    with call_traced [OF old(2), of ?c "we_leaf env"] show ?thesis by (simp add: tenant_traced_def)
  next
    case (sweep_idempotency cid now)
    let ?c = "CleanupIdempotencyCall (ts_auth ts)
        (now - duration_hours (wc_idempotency_retention_hours (we_config env)))"
    have "s' = perform (we_leaf env) ?c s" "pending_messages (ts_phase ts') = []"
      "flying_messages (ts_phase ts') = []" "outcomes (ts_phase ts') = []"
      using sweep_idempotency assms(4)
      by (auto simp: cleanup_idempotency_tick_def Let_def continue_with_def split: prod.splits sum.splits)
    with call_traced [OF old(2), of ?c "we_leaf env"] show ?thesis by (simp add: tenant_traced_def)
  qed
  then show "tenant_traced env d0 ?trace ts'" "db_traced env d0 ?trace (committed s')" by blast+
qed

lemma run_traced:
  assumes "list_all (tenant_traced env d0 trace) tss" "db_traced env d0 trace (committed s)"
    and "we_publisher env = HttpPublisher p"
  shows "db_traced env d0 (trace @ run_trace env ticks (tss, s, b))
    (committed (fst (snd (run_tenants env ticks (tss, s, b)))))"
  using assms(1,2)
proof (induction ticks arbitrary: trace tss s b)
  case Nil
  then show ?case by (simp add: run_tenants_def)
next
  case (Cons it ticks)
  obtain i t where it: "it = (i, t)" by (cases it)
  show ?case
  proof (cases "may_tick (we_config env) tss i")
    case False
    with Cons.IH [OF Cons.prems] show ?thesis by (simp add: it run_tenants_def run_tick_def)
  next
    case True
    then have i: "i < length tss" by (simp add: may_tick_def)
    obtain ts' s' b' where w: "tenant_tick env t (tss ! i, s, b) = (ts', s', b')"
      by (cases "tenant_tick env t (tss ! i, s, b)")
    let ?trace = "trace @ tick_trace env t (tss ! i, s, b)"
    have ti: "tenant_traced env d0 trace (tss ! i)" using Cons.prems(1) i by (simp add: list_all_length)
    note new = tick_traced [OF ti Cons.prems(2) assms(3) w]
    have "list_all (tenant_traced env d0 ?trace) (tss[i := ts'])"
      using Cons.prems(1) new(1) i by (auto simp: list_all_length nth_list_update traced_append)
    from Cons.IH [OF this new(2), of b'] True w show ?thesis
      by (simp add: it run_tenants_def run_tick_def)
  qed
qed

lemma acquire_traced:
  assumes "db_traced env d0 trace (committed s)" "acquire_workspaces config cid now (m, s) = (res, m1, s1)"
  shows "db_traced env d0 trace (committed s1)"
proof (cases "wc_workspace_ids config")
  case (Some ids)
  with assms show ?thesis by (simp add: acquire_workspaces_def)
next
  case None
  let ?n = "if in_i64 (int (wc_partition_batch config)) then int (wc_partition_batch config) else 2 ^ 63 - 1"
  show ?thesis
    using assms(2) None call_traced [OF assms(1), of "AcquirePartitionsCall (wc_worker_instance_id config) now
        (now + duration_seconds (wc_partition_lease_seconds config)) ?n (wc_partition_shard_buckets config)" L for L]
    by (auto simp: acquire_workspaces_def Let_def split: prod.splits sum.splits)
qed

lemma run_once_traced:
  assumes "schema_ok (committed s)" "we_publisher env = HttpPublisher p"
    and "run_once env cid now ticks (m, s, b) = (result, m', s', b')"
  shows "db_traced env (committed s) (network_trace env cid now ticks (m, s, b)) (committed s')"
proof -
  let ?d0 = "committed s"
  obtain res m1 s1 where acq: "acquire_workspaces (we_config env) cid now (m, s) = (res, m1, s1)"
    by (cases "acquire_workspaces (we_config env) cid now (m, s)")
  have "db_traced env ?d0 [] (committed s)"
    using assms(1) by (auto simp: db_traced_def stems_from_def)
  then have s1: "db_traced env ?d0 [] (committed s1)" using acq by (rule acquire_traced)
  show ?thesis
  proof (cases res)
    case (Inl e)
    with acq assms(3) s1 show ?thesis by (simp add: run_once_def network_trace_def)
  next
    case (Inr ids)
    let ?tss = "map (start_tenant (we_config env)) ids"
    have "list_all (tenant_traced env ?d0 []) ?tss"
      by (simp add: list_all_iff start_tenant_def tenant_traced_def)
    from run_traced [OF this s1 assms(2), of ticks b]
    have run: "db_traced env ?d0 (run_trace env ticks (?tss, s1, b))
        (committed (fst (snd (run_tenants env ticks (?tss, s1, b)))))" by simp
    show ?thesis
    proof (cases "ids = []")
      case True
      have "db_traced env ?d0 (network_trace env cid now ticks (m, s, b)) (committed s1)"
        using db_traced_append [OF s1] by simp
      with True acq Inr assms(3) show ?thesis by (simp add: run_once_def)
    next
      case False
      with run acq Inr assms(3) show ?thesis
        by (auto simp: run_once_def network_trace_def split: prod.splits)
    qed
  qed
qed

lemma traced_delivery:
  assumes "db_traced env d0 trace d" "unique_key o_id (outbox d0)" "we_publisher env = HttpPublisher p"
    and "r \<in> set (outbox d0)" "o_status r \<noteq> Delivered"
    and "r' \<in> set (outbox d)" "o_id r' = o_id r" "o_status r' = Delivered"
  shows "\<exists>message event status body.
    om_id message = o_id r \<and> om_event_id message = o_event_id r \<and> om_workspace_id message = o_workspace_id r
    \<and> issue_created_de (we_leaf env) (o_payload r) = Some event \<and> is_success status
    \<and> subseq [RequestSent message (hp_endpoint p, publish_request (we_leaf env) message event),
              AnswerTaken message (Responded status body)] trace"
proof -
  have "\<not> (\<exists>r0\<in>set (outbox d0). o_id r0 = o_id r \<and> o_status r0 = Delivered)"
    using unique_keyD [OF assms(2) _ assms(4)] assms(5) by blast
  then obtain message where m: "om_id message = o_id r" "message_from d0 message" "confirmed env trace message"
    using assms(1,6-8) unfolding db_traced_def by metis
  from m(1,2) have "om_event_id message = o_event_id r" "om_workspace_id message = o_workspace_id r"
    "om_payload message = o_payload r"
    using unique_keyD [OF assms(2) _ assms(4)] by (auto simp: message_from_def)
  with m show ?thesis
    by (auto simp: confirmed_def acknowledged_def carries_def assms(3))
qed

text \<open>
  C13: an event is recorded as delivered only after the endpoint has received it: whatever the schedule,
  the answers and the faults of a run, a row that the run leaves delivered had its event, decoded from
  its payload, sent to the configured endpoint during the run, and that request was then answered with
  a status of success.
\<close>

theorem delivered_after_acknowledgement:
  assumes "schema_ok (committed s)" "we_publisher env = HttpPublisher p"
    and "r \<in> set (outbox (committed s))" "o_status r \<noteq> Delivered"
    and "run_once env cid now ticks (m, s, b) = (result, m', s', b')"
    and "r' \<in> set (outbox (committed s'))" "o_id r' = o_id r" "o_status r' = Delivered"
  shows "\<exists>message event status body.
    om_id message = o_id r \<and> om_event_id message = o_event_id r \<and> om_workspace_id message = o_workspace_id r
    \<and> issue_created_de (we_leaf env) (o_payload r) = Some event \<and> is_success status
    \<and> subseq [RequestSent message (hp_endpoint p, publish_request (we_leaf env) message event),
              AnswerTaken message (Responded status body)]
        (network_trace env cid now ticks (m, s, b))"
  using traced_delivery [OF run_once_traced [OF assms(1,2,5)] _ assms(2-4,6-8)] assms(1)
  by (simp add: schema_ok_def outbox_ok_def)

section \<open>Settling after the lease\<close>

lemma settle_late:
  assumes "outbox_ok d" "r \<in> set (outbox d)" "o_id r = i" "o_leased_until r = Some until" "until \<le> now"
  obtains e where "settle_spec auth i token owner now f d = (Err e, d)"
proof -
  have uk: "unique_key o_id (outbox d)" using assms(1) by (simp add: outbox_ok_def)
  have "settle auth i token owner now f d \<noteq> Inr d'" for d'
    unfolding settle_Ok [OF uk]
    using assms(2-5) unique_keyD [OF uk] by (fastforce simp: lease_held_def split: option.splits)
  then show thesis
    using that by (cases "settle auth i token owner now f d") (auto simp: settle_spec_def)
qed

context store_operation
begin

lemma refused:
  assumes "spec (committed s) = (Err e, committed s)"
  shows "\<exists>e. fst (op s) = Err e" "committed (snd (op s)) = committed s"
  using answered_or_lost [of s] assms by (metis fst_conv snd_conv)+

end

lemma apply_late:
  assumes "outbox_ok (committed s)" "r \<in> set (outbox (committed s))" "o_id r = om_id message"
    "o_leased_until r = Some until" "until \<le> now"
  obtains e s' where "apply_publish_outcome config auth now roll (message, outcome) report s = (Err e, s')"
    "committed s' = committed s"
proof (cases outcome)
  case (Inr u)
  obtain e where "mark_outbox_delivered_spec auth (om_id message) (om_lease_token message)
      (om_lease_owner message) now (committed s) = (Err e, committed s)"
    unfolding mark_outbox_delivered_spec_def by (rule settle_late [OF assms])
  from delivered_op.refused [OF this] that show thesis
    by (auto simp: apply_publish_outcome_def Inr case_prod_beta)
next
  case (Inl error)
  let ?f = "failure_of config now roll message error"
  have "fc_now ?f = now" by (simp add: failure_of_def)
  then obtain e where "mark_outbox_failed_spec auth (om_id message) ?f (committed s) = (Err e, committed s)"
    unfolding mark_outbox_failed_spec_def by (metis settle_late [OF assms])
  from failed_op.refused [OF this] that show thesis
    by (auto simp: apply_publish_outcome_def Inl case_prod_beta Let_def)
qed

lemma finished_stays:
  assumes "is_finished (ts_phase ts)"
  shows "run_tenant env ticks (ts, s, b) = (ts, s, b)"
proof -
  have "tenant_tick env t (ts, s, b) = (ts, s, b)" for t
    using assms by (cases "ts_phase ts") (auto simp: tenant_tick_def)
  then show ?thesis by (induction ticks) (simp_all add: run_tenant_def)
qed

text \<open>
  C23: a batch that is settled after its lease is abandoned: when the lease of the first message to settle
  is over, whatever its publication ended with and whatever the connection does, the settlement is
  refused, the tenant's cycle ends with an error and settles nothing more; every row stays as it is,
  so the events that were published are due again.
\<close>

theorem late_settlement_abandons_batch:
  assumes "outbox_ok (committed s)" "ts_phase ts = Marking ((message, outcome) # rest)"
    and "r \<in> set (outbox (committed s))" "o_id r = om_id message" "o_status r = Leased"
    and "o_leased_until r = Some until" "until \<le> now"
  shows "case run_tenant env (MarkTick cid now roll # ticks) (ts, s, b) of (ts', s', b') \<Rightarrow>
    (\<exists>error. ts_phase ts' = Finished (Some error)) \<and> ts_report ts' = ts_report ts
    \<and> committed s' = committed s \<and> r \<in> set (outbox (committed s')) \<and> lease_due now r"
proof -
  obtain e s1 where late: "apply_publish_outcome (we_config env) (ts_auth ts) now roll (message, outcome)
      (ts_report ts) s = (Err e, s1)" "committed s1 = committed s"
    by (rule apply_late [OF assms(1,3,4,6,7)])
  let ?ts = "ts\<lparr>ts_phase := Finished (Some (map_store_worker_error cid e))\<rparr>"
  have "tenant_tick env (MarkTick cid now roll) (ts, s, b) = (?ts, s1, b)"
    using late by (simp add: tenant_tick_def assms(2) mark_tick_def continue_with_def)
  then have "run_tenant env (MarkTick cid now roll # ticks) (ts, s, b) = (?ts, s1, b)"
    using finished_stays [of ?ts env ticks s1 b] by (simp add: run_tenant_def)
  then show ?thesis
    using late(2) assms(3-7) by (simp add: lease_due_def)
qed

text \<open>The demonstration row is leased until 90 and its settlement is tried at 95.\<close>

theorem late_settlement_abandons_batch_witness:
  "case run_tenant \<lparr>we_leaf = bits_leaf, we_status_text = show_nat, we_config = worker_config_default,
      we_publisher = NoopPublisher, we_registry = default_registry\<rparr> [MarkTick 0 95 0]
      (\<lparr>ts_auth = demo_auth, ts_phase = Marking [(demo_message, Ok ())], ts_report = worker_report_default\<rparr>,
       demo_outbox [demo_leased_row], \<lparr>consecutive_failures = 0, circuit_open_until_epoch = 0\<rparr>) of
     (ts', s', b') \<Rightarrow> (\<exists>error. ts_phase ts' = Finished (Some error))
       \<and> outbox (committed s') = [demo_leased_row] \<and> lease_due 95 demo_leased_row"
  using late_settlement_abandons_batch [of "demo_outbox [demo_leased_row]"
      "\<lparr>ts_auth = demo_auth, ts_phase = Marking [(demo_message, Ok ())], ts_report = worker_report_default\<rparr>"
      demo_message "Ok ()" "[]" demo_leased_row 90 95
      "\<lparr>we_leaf = bits_leaf, we_status_text = show_nat, we_config = worker_config_default,
        we_publisher = NoopPublisher, we_registry = default_registry\<rparr>" 0 0 "[]"
      "\<lparr>consecutive_failures = 0, circuit_open_until_epoch = 0\<rparr>"]
  by (auto simp: demo_outbox_ok split: prod.splits)

text \<open>
  A failure whose text does not fit its column is not recorded either: the tenant's cycle ends with an
  error, no attempt is counted and nothing changes.  This happens when an endpoint refuses an event with
  a body of more than about 4000 characters.
\<close>

lemma oversized_answer_abandons_batch:
  assumes "ts_phase ts = Marking ((message, Inl error) # rest)"
    and "\<not> text_at_most 4000 (kind_debug (pe_kind error) @ '': '' @ pe_message error)"
  shows "case run_tenant env (MarkTick cid now roll # ticks) (ts, s, b) of (ts', s', b') \<Rightarrow>
    (\<exists>error. ts_phase ts' = Finished (Some error)) \<and> ts_report ts' = ts_report ts
    \<and> committed s' = committed s"
proof -
  let ?f = "failure_of (we_config env) now roll message error"
  have "\<not> text_at_most 4000 (fc_error_message ?f)" using assms(2) by (simp add: failure_of_def)
  then obtain e where "fst (mark_outbox_failed (ts_auth ts) (om_id message) ?f s) = Err e"
    "committed (snd (mark_outbox_failed (ts_auth ts) (om_id message) ?f s)) = committed s"
    using oversized_failure_never_recorded by blast
  then obtain s1 where late: "apply_publish_outcome (we_config env) (ts_auth ts) now roll
      (message, Inl error) (ts_report ts) s = (Err e, s1)" "committed s1 = committed s"
    by (auto simp: apply_publish_outcome_def case_prod_beta Let_def)
  let ?ts = "ts\<lparr>ts_phase := Finished (Some (map_store_worker_error cid e))\<rparr>"
  have "tenant_tick env (MarkTick cid now roll) (ts, s, b) = (?ts, s1, b)"
    using late by (simp add: tenant_tick_def assms(1) mark_tick_def continue_with_def)
  then have "run_tenant env (MarkTick cid now roll # ticks) (ts, s, b) = (?ts, s1, b)"
    using finished_stays [of ?ts env ticks s1 b] by (simp add: run_tenant_def)
  then show ?thesis using late(2) by simp
qed

end
