(* ===== verification/Timely_Run.thy ===== *)
theory Timely_Run
  imports Delivery_Trace Worker_Liveness
begin

text \<open>
  What a timely run brings about: on a connection that answers, with every message settled within its
  lease and failure messages the column takes, every complete run of the worker settles all due events
  of its tenants: each is delivered, or its attempt is counted and it waits for the next one or is
  dead-lettered, whatever the interleaving of tenants and publications.  The flag \<open>strict\<close> says that
  nothing fails, and then every due event is delivered.
\<close>

section \<open>A timely environment\<close>

definition failure_fits :: "publish_error \<Rightarrow> bool" where
  "failure_fits error \<longleftrightarrow> text_at_most 4000 (kind_debug (pe_kind error) @ '': '' @ pe_message error)"

definition outcome_ok :: "bool \<Rightarrow> publish_result \<Rightarrow> bool" where
  "outcome_ok strict outcome \<longleftrightarrow>
     (case outcome of Inr u \<Rightarrow> True | Inl error \<Rightarrow> \<not> strict \<and> failure_fits error)"

lemma outcome_ok_simps [simp]:
  "outcome_ok strict (Inr u)" "outcome_ok True outcome \<longleftrightarrow> outcome = Inr ()"
  "outcome_ok strict (Inl error) \<longleftrightarrow> \<not> strict \<and> failure_fits error"
  by (cases outcome; simp add: outcome_ok_def)+

text \<open>What an answer of the network makes of a publication.\<close>

definition answer_outcome :: "(nat \<Rightarrow> string) \<Rightarrow> http_response \<Rightarrow> publish_result" where
  "answer_outcome status_text response =
     fst (http_finish status_text \<lparr>hp_endpoint = [], hp_failure_threshold = 0, hp_cooldown_seconds = 0\<rparr> 0 response
       \<lparr>consecutive_failures = 0, circuit_open_until_epoch = 0\<rparr>)"

lemma http_finish_outcome: "fst (http_finish status_text p now_epoch response b) = answer_outcome status_text response"
  by (simp add: answer_outcome_def http_finish_def split: http_response.splits)

text \<open>
  The ticks of a timely run that begins at \<open>t0\<close>: nothing else locks the rows, messages are settled
  before the shortest lease ends, failure messages fit, and the sweep keeps what was settled since \<open>t0\<close>.
\<close>

fun timely_tick :: "bool \<Rightarrow> worker_env \<Rightarrow> timestamp \<Rightarrow> tick \<Rightarrow> bool" where
  "timely_tick strict env t0 (LeaseTick cid locked token now) \<longleftrightarrow> locked = {} \<and> t0 \<le> now"
| "timely_tick strict env t0 (BeginTick now_epoch) \<longleftrightarrow> strict \<longrightarrow> 0 \<le> now_epoch"
| "timely_tick strict env t0 (AnswerTick i response) \<longleftrightarrow>
     outcome_ok strict (answer_outcome (we_status_text env) response)"
| "timely_tick strict env t0 (MarkTick cid now roll) \<longleftrightarrow>
     t0 \<le> now \<and> now < t0 + duration_seconds (wc_lease_seconds (we_config env))"
| "timely_tick strict env t0 (CleanupOutboxTick cid now1 now2) \<longleftrightarrow>
     now1 - duration_hours (wc_delivered_retention_hours (we_config env)) \<le> t0
     \<and> (strict \<or> now2 - duration_hours (wc_dead_letter_retention_hours (we_config env)) \<le> t0)"
| "timely_tick strict env t0 (CleanupIdempotencyTick cid now) \<longleftrightarrow> True"

definition tenant_outbox :: "uuid \<Rightarrow> db \<Rightarrow> outbox_row list" where
  "tenant_outbox w d = filter (\<lambda>r. o_workspace_id r = w) (outbox d)"

definition deliverable :: "leaf \<Rightarrow> outbox_message \<Rightarrow> bool" where
  "deliverable L m \<longleftrightarrow>
     om_event_type m = event_type_as_str IssueCreatedV1 \<and> dispatch_version m = 1
     \<and> issue_created_de L (om_payload m) \<noteq> None"

text \<open>A tenant whose open events decode.\<close>

definition ready_tenant :: "worker_env \<Rightarrow> db \<Rightarrow> uuid \<Rightarrow> bool" where
  "ready_tenant env d w \<longleftrightarrow>
     0 \<le> wc_batch_size (we_config env)
     \<and> list_all (\<lambda>r. deliverable (we_leaf env) (message_of_row 0 0 0 r))
         (filter (\<lambda>r. \<not> settled r) (tenant_outbox w d))"

text \<open>
  A row that the batch of a run beginning at \<open>t0\<close> reaches: its time has come, and fewer open rows than
  the batch has places are in front of it.
\<close>

definition next_in_line :: "worker_env \<Rightarrow> timestamp \<Rightarrow> outbox_row list \<Rightarrow> outbox_row \<Rightarrow> bool" where
  "next_in_line env t0 rows r \<longleftrightarrow>
     o_available_at r \<le> t0
     \<and> int (length (filter (\<lambda>x. \<not> settled x \<and> (o_available_at x, o_id x) < (o_available_at r, o_id r)) rows))
         < wc_batch_size (we_config env)"

text \<open>A row that others have added since the run began.\<close>

definition newcomer :: "worker_env \<Rightarrow> timestamp \<Rightarrow> outbox_row \<Rightarrow> bool" where
  "newcomer env t0 r \<longleftrightarrow> t0 < o_available_at r \<and> deliverable (we_leaf env) (message_of_row 0 0 0 r)"

lemma next_in_line_newcomers:
  assumes "list_all (newcomer env t0) new"
  shows "next_in_line env t0 (rows @ new) r \<longleftrightarrow> next_in_line env t0 rows r"
proof (cases "o_available_at r \<le> t0")
  case True
  then have "\<not> (o_available_at x, o_id x) < (o_available_at r, o_id r)" if "x \<in> set new" for x
    using assms that by (fastforce simp: list_all_iff newcomer_def)
  then have "filter (\<lambda>x. \<not> settled x \<and> (o_available_at x, o_id x) < (o_available_at r, o_id r)) new = []"
    unfolding filter_empty_conv by blast
  then show ?thesis unfolding next_in_line_def filter_append by simp
qed (simp add: next_in_line_def)

lemma deliverable_message:
  "deliverable L (message_of_row token owner until r) = deliverable L (message_of_row 0 0 0 r)"
  by (simp add: deliverable_def message_of_row_def dispatch_version_def resolve_schema_version_def)

lemma lease_due_mono: "lease_due t0 r \<Longrightarrow> t0 \<le> now \<Longrightarrow> lease_due now r"
  by (auto simp: lease_due_def split: option.splits)

lemma lease_due_open: "lease_due now r \<Longrightarrow> \<not> settled r"
  by (auto simp: lease_due_def settled_def)

text \<open>A deliverable message is refused only by an open breaker.\<close>

definition breaker_refusal :: publish_result where
  "breaker_refusal = publish_err TransientKind ''circuit breaker open; skipping remote call''"

lemma breaker_refusal_ok: "outcome_ok False breaker_refusal"
  by (simp add: breaker_refusal_def publish_err_def failure_fits_def text_at_most_def char_length_def
      continuation_def byte_def)

lemma deliverable_dispatched:
  assumes "deliverable (we_leaf env) m" "we_registry env = default_registry"
    and "we_publisher env = HttpPublisher p"
  obtains (sent) request where "\<not> breaker_open b now_epoch"
      "dispatch_begin (we_leaf env) (we_registry env) (we_publisher env) now_epoch b m = Inr request"
  | (refused) "breaker_open b now_epoch"
      "dispatch_begin (we_leaf env) (we_registry env) (we_publisher env) now_epoch b m = Inl breaker_refusal"
  using assms
  by (cases "breaker_open b now_epoch")
    (auto simp: deliverable_def dispatch_begin_def Let_def default_registry_def register_def
      OutboxRegistry_new_def resolve_def http_begin_def breaker_refusal_def)

section \<open>A tenant on course\<close>

text \<open>The row of a message, leased, with the attempts it had when the run began.\<close>

definition leased_for ::
  "timestamp \<Rightarrow> auth_context \<Rightarrow> outbox_row list \<Rightarrow> outbox_row list \<Rightarrow> outbox_message \<Rightarrow> bool" where
  "leased_for horizon auth rows0 rows m \<longleftrightarrow>
     om_lease_owner m = auth_actor_id auth
     \<and> (\<exists>r\<in>set rows. o_id r = om_id m \<and> o_status r = Leased \<and> o_lease_token r = Some (om_lease_token m)
          \<and> o_lease_owner r = Some (auth_actor_id auth)
          \<and> (\<exists>until. o_leased_until r = Some until \<and> horizon \<le> until)
          \<and> (\<forall>r0\<in>set rows0. o_id r0 = om_id m \<longrightarrow> o_attempts r0 = o_attempts r))"

text \<open>What a counted attempt makes of a row, under a budget of \<open>M\<close> attempts.\<close>

definition tried :: "int \<Rightarrow> outbox_row \<Rightarrow> outbox_row \<Rightarrow> bool" where
  "tried M r0 r \<longleftrightarrow> o_attempts r = wrap_i32 (o_attempts r0 + 1)
     \<and> (o_status r = DeadLetter \<or> o_status r = Failed \<and> o_attempts r < M)"

definition settled_since ::
  "bool \<Rightarrow> int \<Rightarrow> timestamp \<Rightarrow> outbox_row list \<Rightarrow> outbox_row list \<Rightarrow> uuid \<Rightarrow> bool" where
  "settled_since strict M t0 rows0 rows i \<longleftrightarrow>
     (\<exists>r0\<in>set rows0. \<exists>r\<in>set rows. o_id r0 = i \<and> o_id r = i
        \<and> (o_status r = Delivered \<and> (\<exists>t. o_published_at r = Some t \<and> t0 \<le> t)
           \<or> \<not> strict \<and> tried M r0 r \<and> t0 \<le> o_updated_at r))"

fun waiting_messages :: "tenant_phase \<Rightarrow> outbox_message list" where
  "waiting_messages (Publishing waiting flying completed) = waiting"
| "waiting_messages _ = []"

lemma waiting_advance [simp]: "waiting_messages (advance phase) = waiting_messages phase"
  by (cases phase rule: advance.cases) simp_all

text \<open>The identifiers of the rows the run has promised to settle.\<close>

definition due_ids :: "worker_env \<Rightarrow> timestamp \<Rightarrow> outbox_row list \<Rightarrow> uuid set" where
  "due_ids env t0 rows0 = {o_id r | r. r \<in> set rows0 \<and> lease_due t0 r \<and> next_in_line env t0 rows0 r}"

definition progressing ::
  "bool \<Rightarrow> worker_env \<Rightarrow> timestamp \<Rightarrow> outbox_row list \<Rightarrow> auth_context \<Rightarrow> outbox_row list \<Rightarrow> tenant_phase \<Rightarrow> bool"
where
  "progressing strict env t0 rows0 auth rows phase \<longleftrightarrow>
     (\<forall>i\<in>due_ids env t0 rows0. i \<in> om_id ` set (pending_messages phase)
        \<or> settled_since strict (wc_max_attempts (we_config env)) t0 rows0 rows i)
     \<and> distinct (map om_id (pending_messages phase))
     \<and> (\<forall>m\<in>set (pending_messages phase).
          leased_for (t0 + duration_seconds (wc_lease_seconds (we_config env))) auth rows0 rows m)
     \<and> (\<forall>(m, outcome)\<in>set (outcomes phase). outcome_ok strict outcome)
     \<and> (\<forall>m\<in>set (waiting_messages phase). deliverable (we_leaf env) m)"

fun course ::
  "bool \<Rightarrow> worker_env \<Rightarrow> timestamp \<Rightarrow> outbox_row list \<Rightarrow> auth_context \<Rightarrow> outbox_row list \<Rightarrow> tenant_phase \<Rightarrow> bool"
where
  "course strict env t0 rows0 auth rows Leasing \<longleftrightarrow> (\<exists>new. rows = rows0 @ new \<and> list_all (newcomer env t0) new)"
| "course strict env t0 rows0 auth rows (Finished (Some e)) \<longleftrightarrow> False"
| "course strict env t0 rows0 auth rows phase \<longleftrightarrow> progressing strict env t0 rows0 auth rows phase"

definition on_course :: "bool \<Rightarrow> worker_env \<Rightarrow> timestamp \<Rightarrow> db \<Rightarrow> db \<Rightarrow> tenant_state \<Rightarrow> bool" where
  "on_course strict env t0 d0 d ts \<longleftrightarrow>
     (let w = auth_workspace_id (ts_auth ts) in
      (strict \<longrightarrow> wr_failed (ts_report ts) = 0)
      \<and> course strict env t0 (tenant_outbox w d0) (ts_auth ts) (tenant_outbox w d) (ts_phase ts))"

lemma course_advance:
  "progressing strict env t0 rows0 auth rows phase \<Longrightarrow> phase \<noteq> Leasing \<Longrightarrow> \<not> is_finished phase \<Longrightarrow>
     course strict env t0 rows0 auth rows (advance phase)"
  by (cases phase rule: advance.cases) (simp_all add: progressing_def)

text \<open>Calls of others that at most add rows leave a tenant on its course.\<close>

lemma leased_for_more: "leased_for horizon auth rows0 rows m \<Longrightarrow> leased_for horizon auth rows0 (rows @ new) m"
  by (auto simp: leased_for_def)

lemma settled_since_more: "settled_since strict M t0 rows0 rows i \<Longrightarrow> settled_since strict M t0 rows0 (rows @ new) i"
  by (fastforce simp: settled_since_def)

lemma progressing_more:
  "progressing strict env t0 rows0 auth rows phase \<Longrightarrow> progressing strict env t0 rows0 auth (rows @ new) phase"
  unfolding progressing_def using leased_for_more settled_since_more by blast

lemma course_more:
  "course strict env t0 rows0 auth rows phase \<Longrightarrow> list_all (newcomer env t0) new \<Longrightarrow>
     course strict env t0 rows0 auth (rows @ new) phase"
  by (cases "(strict, env, t0, rows0, auth, rows, phase)" rule: course.cases) (auto intro: progressing_more)

lemma on_course_frame:
  assumes "on_course strict env t0 d0 d ts" "list_all (newcomer env t0) new"
    and "tenant_outbox (auth_workspace_id (ts_auth ts)) d' = tenant_outbox (auth_workspace_id (ts_auth ts)) d @ new"
  shows "on_course strict env t0 d0 d' ts"
  using assms course_more by (simp add: on_course_def Let_def)

section \<open>Leasing and settling\<close>

lemma set_tenant_outbox: "r \<in> set (tenant_outbox w d) \<longleftrightarrow> r \<in> set (outbox d) \<and> o_workspace_id r = w"
  by (auto simp: tenant_outbox_def)

lemma length_filter_mono: "(\<And>x. P x \<Longrightarrow> Q x) \<Longrightarrow> length (filter P xs) \<le> length (filter Q xs)"
  by (induction xs) auto

lemma sorted_reach:
  assumes "sorted (map k xs)" "distinct (map k xs)" "x \<in> set xs" "length (filter (\<lambda>y. k y < k x) xs) < n"
  shows "x \<in> set (take n xs)"
proof -
  obtain i where i: "i < length xs" "xs ! i = x" using assms(3) by (auto simp: in_set_conv_nth)
  have "k y < k x" if y: "y \<in> set (take i xs)" for y
  proof -
    obtain j where j: "j < i" "y = xs ! j" using y i(1) by (auto simp: in_set_conv_nth)
    then have "k y \<le> k x" "k y \<noteq> k x"
      using assms(1,2) i sorted_nth_mono [of "map k xs" j i] nth_eq_iff_index_eq [OF assms(2), of j i] by auto
    then show ?thesis by simp
  qed
  then have "filter (\<lambda>y. k y < k x) (take i xs) = take i xs" by (simp add: filter_id_conv)
  moreover have "length (filter (\<lambda>y. k y < k x) (take i xs)) \<le> length (filter (\<lambda>y. k y < k x) xs)"
    by (metis append_take_drop_id filter_append le_add1 length_append)
  ultimately have "i < n" using assms(4) i(1) by simp
  then show ?thesis using i by (auto simp: in_set_conv_nth)
qed

text \<open>The batch takes what is next in line.\<close>

lemma chosen_next_in_line:
  assumes "unique_key o_id (outbox d)" "r \<in> set (tenant_outbox w d)" "lease_due now r"
    and "next_in_line env t0 (tenant_outbox w d) r"
  shows "o_id r \<in> lease_choice {} w now (wc_batch_size (we_config env)) d"
proof -
  let ?k = "\<lambda>r. (o_available_at r, o_id r)"
  let ?due = "filter (\<lambda>r. o_workspace_id r = w \<and> lease_due now r) (outbox d)"
  let ?xs = "sort_key ?k ?due"
  have "distinct (map o_id ?due)"
    using assms(1) by (auto simp: unique_key_def distinct_map intro: inj_on_subset)
  then have "distinct (map ?k ?due)" by (auto simp: distinct_map inj_on_def)
  then have dist: "distinct (map ?k ?xs)" by (simp add: distinct_map inj_on_def)
  have "length (filter (\<lambda>x. ?k x < ?k r) ?xs) = length (filter (\<lambda>x. ?k x < ?k r) ?due)"
    by (simp add: filter_sort)
  also have "\<dots> \<le> length (filter (\<lambda>x. \<not> settled x \<and> ?k x < ?k r) (tenant_outbox w d))"
    unfolding tenant_outbox_def filter_filter by (rule length_filter_mono) (auto dest: lease_due_open)
  also have "\<dots> < nat (wc_batch_size (we_config env))"
    using assms(4) unfolding next_in_line_def by linarith
  finally have "r \<in> set (take (nat (wc_batch_size (we_config env))) ?xs)"
    using assms(2,3) by (intro sorted_reach [OF _ dist]) (auto simp: set_tenant_outbox)
  then show ?thesis by (simp add: lease_choice_def due_in_order_def)
qed

lemma timely_lease:
  assumes "schema_ok d" "ready_tenant env d0 w" "tenant_outbox w d = tenant_outbox w d0 @ new"
    and "auth_workspace_id auth = w" "t0 \<le> now" "list_all (newcomer env t0) new"
  obtains messages d' where
    "lease_outbox_batch_spec {} token auth now (duration_seconds (wc_lease_seconds (we_config env)))
       (wc_batch_size (we_config env)) d = (Ok messages, d')"
    "progressing strict env t0 (tenant_outbox w d0) auth (tenant_outbox w d') (Publishing messages [] [])"
proof -
  let ?n = "wc_batch_size (we_config env)" and ?u = "now + duration_seconds (wc_lease_seconds (we_config env))"
  let ?C = "\<lambda>r. o_id r \<in> lease_choice {} w now ?n d"
  let ?f = "leased_row now ?u token (auth_actor_id auth)"
  have ok: "outbox_ok d" and uk: "unique_key o_id (outbox d)"
    using assms(1) by (auto simp: schema_ok_def outbox_ok_def)
  have n: "0 \<le> ?n" using assms(2) by (simp add: ready_tenant_def)
  let ?ms = "map (message_of_row token (auth_actor_id auth) ?u) (filter ?C (outbox d))"
  let ?d' = "d\<lparr>outbox := update_where ?C ?f (outbox d)\<rparr>"
  have spec: "lease_outbox_batch_spec {} token auth now (duration_seconds (wc_lease_seconds (we_config env))) ?n d
      = (Ok ?ms, ?d')"
    by (simp add: lease_outbox_batch_spec_def assms(4) lease_statement_Ok [OF ok n] Let_def)
  have "distinct (map om_id ?ms)"
    using uk by (auto simp: message_of_row_def comp_def unique_key_def distinct_map intro: inj_on_subset)
  moreover have "leased_for (t0 + duration_seconds (wc_lease_seconds (we_config env))) auth (tenant_outbox w d0)
        (tenant_outbox w ?d') m \<and> deliverable (we_leaf env) m" if m: "m \<in> set ?ms" for m
  proof -
    obtain r where r: "r \<in> set (outbox d)" "?C r" "m = message_of_row token (auth_actor_id auth) ?u r"
      using m by auto
    have w: "o_workspace_id r = w" "lease_due now r" using lease_choice_row [OF uk r(1,2)] by blast+
    have "r \<in> set (tenant_outbox w d0) \<or> r \<in> set new" using r(1) w(1) assms(3) set_tenant_outbox [of r w d] by auto
    then have "deliverable (we_leaf env) m"
      using assms(2,6) lease_due_open [OF w(2)] r(3)
      by (auto simp: ready_tenant_def newcomer_def list_all_iff deliverable_message [of _ token])
    moreover have "?f r \<in> set (tenant_outbox w ?d')"
      using r(1,2) w(1) by (auto simp: set_tenant_outbox set_update_where row_identities)
    moreover have "\<forall>r0\<in>set (tenant_outbox w d0). o_id r0 = o_id r \<longrightarrow> o_attempts r0 = o_attempts r"
    proof (intro ballI impI)
      fix r0 assume r0: "r0 \<in> set (tenant_outbox w d0)" "o_id r0 = o_id r"
      then have "r0 \<in> set (outbox d)" using assms(3) set_tenant_outbox [of r0 w d] by simp
      from unique_keyD [OF uk this r(1)] r0(2) show "o_attempts r0 = o_attempts r" by simp
    qed
    ultimately show ?thesis
      using assms(5) r(3) unfolding leased_for_def
      by - (rule conjI, rule conjI, simp add: message_of_row_def, rule bexI [of _ "?f r"],
        simp_all add: message_of_row_def leased_row_def)
  qed
  moreover have "i \<in> om_id ` set ?ms" if due: "i \<in> due_ids env t0 (tenant_outbox w d0)" for i
  proof -
    obtain r where r: "r \<in> set (tenant_outbox w d)" "lease_due t0 r" "next_in_line env t0 (tenant_outbox w d) r" "i = o_id r"
      using due assms(3) next_in_line_newcomers [OF assms(6)] by (auto simp: due_ids_def)
    then have "r \<in> set (filter ?C (outbox d))"
      using chosen_next_in_line [OF uk r(1) lease_due_mono [OF r(2) assms(5)] r(3)] by (simp add: set_tenant_outbox)
    then show ?thesis using r(4) by (force simp: message_of_row_def)
  qed
  ultimately have "progressing strict env t0 (tenant_outbox w d0) auth (tenant_outbox w ?d') (Publishing ?ms [] [])"
    by (simp add: progressing_def)
  with spec show thesis by (rule that)
qed

text \<open>The lease is held, so the settlement goes through, with either outcome.\<close>

lemma timely_settle:
  assumes "schema_ok d" "leased_for horizon auth rows0 (tenant_outbox (auth_workspace_id auth) d) m" "now < horizon"
    and "\<And>r. outbox_checks r \<Longrightarrow> outbox_checks (f r r)"
  obtains r where "r \<in> set (tenant_outbox (auth_workspace_id auth) d)" "o_id r = om_id m"
    "\<forall>r0\<in>set rows0. o_id r0 = om_id m \<longrightarrow> o_attempts r0 = o_attempts r"
    "settle_spec auth (om_id m) (om_lease_token m) (om_lease_owner m) now f d
       = (Ok (), d\<lparr>outbox := update_where (\<lambda>x. o_id x = om_id m) (f r) (outbox d)\<rparr>)"
proof -
  have uk: "unique_key o_id (outbox d)" and chk: "\<forall>r\<in>set (outbox d). outbox_checks r"
    using assms(1) by (auto simp: schema_ok_def outbox_ok_def outbox_row_ok_def)
  obtain r until where r: "r \<in> set (outbox d)" "o_workspace_id r = auth_workspace_id auth" "o_id r = om_id m"
    "o_status r = Leased" "o_lease_token r = Some (om_lease_token m)"
    "o_lease_owner r = Some (auth_actor_id auth)" "o_leased_until r = Some until" "horizon \<le> until"
    "om_lease_owner m = auth_actor_id auth" "\<forall>r0\<in>set rows0. o_id r0 = om_id m \<longrightarrow> o_attempts r0 = o_attempts r"
    using assms(2) unfolding leased_for_def Bex_def set_tenant_outbox by blast
  have "settle auth (om_id m) (om_lease_token m) (om_lease_owner m) now f d
      = Inr (d\<lparr>outbox := update_where (\<lambda>x. o_id x = om_id m) (f r) (outbox d)\<rparr>)"
    unfolding settle_Ok [OF uk]
    using r chk assms(3,4) by (auto simp: lease_held_def intro!: bexI [of _ r])
  then show thesis using that [of r] r by (simp add: settle_spec_def set_tenant_outbox)
qed

text \<open>Settling one message leaves the others leased and what is settled settled.\<close>

lemma settle_others:
  assumes "rows' = update_where (\<lambda>x. o_id x = i) f rows" "\<And>x. o_id (f x) = o_id x"
  shows "leased_for horizon auth rows0 rows m \<Longrightarrow> om_id m \<noteq> i \<Longrightarrow> leased_for horizon auth rows0 rows' m"
    and "settled_since strict M t0 rows0 rows j \<Longrightarrow> j \<noteq> i \<Longrightarrow> settled_since strict M t0 rows0 rows' j"
    and "r0 \<in> set rows0 \<Longrightarrow> o_id r0 = i \<Longrightarrow> r \<in> set rows \<Longrightarrow> o_id r = i \<Longrightarrow>
      o_status (f r) = Delivered \<and> (\<exists>t. o_published_at (f r) = Some t \<and> t0 \<le> t)
        \<or> \<not> strict \<and> tried M r0 (f r) \<and> t0 \<le> o_updated_at (f r) \<Longrightarrow>
      settled_since strict M t0 rows0 rows' i"
proof -
  have kept: "r \<in> set rows'" if "r \<in> set rows" "o_id r \<noteq> i" for r
    using that by (auto simp: assms(1) set_update_where)
  have became: "f r \<in> set rows'" if "r \<in> set rows" "o_id r = i" for r
    using that by (auto simp: assms(1) set_update_where)
  show "leased_for horizon auth rows0 rows m \<Longrightarrow> om_id m \<noteq> i \<Longrightarrow> leased_for horizon auth rows0 rows' m"
    unfolding leased_for_def using kept by metis
  show "settled_since strict M t0 rows0 rows j \<Longrightarrow> j \<noteq> i \<Longrightarrow> settled_since strict M t0 rows0 rows' j"
    unfolding settled_since_def using kept by metis
  show "settled_since strict M t0 rows0 rows' i"
    if "r0 \<in> set rows0" "o_id r0 = i" "r \<in> set rows" "o_id r = i"
      "o_status (f r) = Delivered \<and> (\<exists>t. o_published_at (f r) = Some t \<and> t0 \<le> t)
        \<or> \<not> strict \<and> tried M r0 (f r) \<and> t0 \<le> o_updated_at (f r)" for r0 r
    unfolding settled_since_def using that became assms(2) by metis
qed

lemma tenant_outbox_update:
  "(\<And>r. o_workspace_id (f r) = o_workspace_id r) \<Longrightarrow>
     tenant_outbox w (d\<lparr>outbox := update_where P f (outbox d)\<rparr>) = update_where P f (tenant_outbox w d)"
proof -
  assume f: "\<And>r. o_workspace_id (f r) = o_workspace_id r"
  have "filter (\<lambda>r. o_workspace_id r = w) (update_where P f rs)
      = update_where P f (filter (\<lambda>r. o_workspace_id r = w) rs)" for rs
    by (induction rs) (auto simp: update_where_def f)
  then show ?thesis by (simp add: tenant_outbox_def)
qed

lemma timely_mark:
  assumes "progressing strict env t0 rows0 auth rows (Marking ((m, outcome) # rest))"
    and "\<And>x. o_id (f x) = o_id x"
    and "om_id m \<in> due_ids env t0 rows0 \<Longrightarrow> settled_since strict (wc_max_attempts (we_config env)) t0 rows0
      (update_where (\<lambda>x. o_id x = om_id m) f rows) (om_id m)"
  shows "progressing strict env t0 rows0 auth (update_where (\<lambda>x. o_id x = om_id m) f rows) (Marking rest)"
proof -
  note others = settle_others [OF refl assms(2), where rows = rows and i = "om_id m"]
  have "i \<in> om_id ` set (pending_messages (Marking rest))
      \<or> settled_since strict (wc_max_attempts (we_config env)) t0 rows0
          (update_where (\<lambda>x. o_id x = om_id m) f rows) i" if "i \<in> due_ids env t0 rows0" for i
    using assms(1,3) that others(2) by (cases "i = om_id m") (auto simp: progressing_def)
  moreover have "om_id x \<noteq> om_id m" if x: "x \<in> set (map fst rest)" for x
  proof
    assume "om_id x = om_id m"
    with x have "om_id m \<in> set (map om_id (map fst rest))" by (metis image_eqI set_map)
    then show False using assms(1) by (simp add: progressing_def)
  qed
  ultimately show ?thesis
    using assms(1) others(1) by (auto simp: progressing_def)
qed

definition over :: "tenant_phase \<Rightarrow> bool" where
  "over phase \<longleftrightarrow> pending_messages phase = [] \<and> outcomes phase = [] \<and> waiting_messages phase = []"

lemma progressing_over:
  "over phase \<Longrightarrow> progressing strict env t0 rows0 auth rows phase
     \<longleftrightarrow> (\<forall>i\<in>due_ids env t0 rows0. settled_since strict (wc_max_attempts (we_config env)) t0 rows0 rows i)"
  by (simp add: over_def progressing_def)

lemma timely_sweep:
  assumes "settled_since strict M t0 rows0 (tenant_outbox w d) i" "delivered_before \<le> t0"
    and "strict \<or> dead_before \<le> t0"
  shows "settled_since strict M t0 rows0
    (tenant_outbox w (snd (cleanup_outbox_spec auth delivered_before dead_before d))) i"
proof -
  obtain r0 r where r: "r0 \<in> set rows0" "r \<in> set (tenant_outbox w d)" "o_id r0 = i" "o_id r = i"
    "o_status r = Delivered \<and> (\<exists>t. o_published_at r = Some t \<and> t0 \<le> t)
       \<or> \<not> strict \<and> tried M r0 r \<and> t0 \<le> o_updated_at r"
    using assms(1) unfolding settled_since_def by blast
  then have "\<not> outbox_expired delivered_before dead_before r"
    using assms(2,3) by (auto simp: outbox_expired_def tried_def)
  with r have "r \<in> set (tenant_outbox w (snd (cleanup_outbox_spec auth delivered_before dead_before d)))"
    by (simp add: cleanup_outbox_spec_def Let_def set_tenant_outbox set_delete_where)
  with r show ?thesis unfolding settled_since_def by blast
qed

section \<open>The ticks keep a tenant on course\<close>

text \<open>A connection that answers; when nothing fails, the breaker is closed.\<close>

definition steady :: "bool \<Rightarrow> session \<Rightarrow> breaker \<Rightarrow> bool" where
  "steady strict s b \<longleftrightarrow>
     faults s = [] \<and> schema_ok (committed s) \<and> (strict \<longrightarrow> circuit_open_until_epoch b = 0)"

lemma on_course_phase:
  assumes "on_course strict env t0 d0 d ts" "ts_phase ts \<noteq> Leasing"
  shows "progressing strict env t0 (tenant_outbox (auth_workspace_id (ts_auth ts)) d0) (ts_auth ts)
      (tenant_outbox (auth_workspace_id (ts_auth ts)) d) (ts_phase ts)"
    "strict \<Longrightarrow> wr_failed (ts_report ts) = 0"
  using assms by (cases "(strict, env, t0, tenant_outbox (auth_workspace_id (ts_auth ts)) d0, ts_auth ts,
      tenant_outbox (auth_workspace_id (ts_auth ts)) d, ts_phase ts)" rule: course.cases;
      simp add: on_course_def Let_def)+

lemma on_courseI:
  assumes "progressing strict env t0 (tenant_outbox (auth_workspace_id (ts_auth ts)) d0) (ts_auth ts)
      (tenant_outbox (auth_workspace_id (ts_auth ts)) d) phase"
    and "strict \<Longrightarrow> wr_failed (ts_report ts) = 0" "phase \<noteq> Leasing" "\<not> is_finished phase"
    and "ts_phase ts = advance phase"
  shows "on_course strict env t0 d0 d ts"
  using course_advance [OF assms(1,3,4)] assms(2,5) by (simp add: on_course_def Let_def)

lemma timely_lease_tick:
  assumes "on_course strict env t0 d0 (committed s) ts" "steady strict s b" "ts_phase ts = Leasing"
    and "ready_tenant env d0 (auth_workspace_id (ts_auth ts))" "t0 \<le> now"
    and "lease_tick env cid {} token now (ts, s, b) = (ts', s', b')"
  shows "on_course strict env t0 d0 (committed s') ts' \<and> steady strict s' b' \<and> ts_auth ts' = ts_auth ts"
proof -
  let ?w = "auth_workspace_id (ts_auth ts)"
  obtain new where start: "strict \<longrightarrow> wr_failed (ts_report ts) = 0"
    "tenant_outbox ?w (committed s) = tenant_outbox ?w d0 @ new" "list_all (newcomer env t0) new"
    using assms(1,3) by (auto simp: on_course_def Let_def)
  have s: "faults s = []" "schema_ok (committed s)" using assms(2) by (simp_all add: steady_def)
  obtain messages d' where lease: "lease_outbox_batch_spec {} token (ts_auth ts) now
      (duration_seconds (wc_lease_seconds (we_config env))) (wc_batch_size (we_config env)) (committed s)
      = (Ok messages, d')"
    "progressing strict env t0 (tenant_outbox ?w d0) (ts_auth ts) (tenant_outbox ?w d') (Publishing messages [] [])"
    by (rule timely_lease [OF s(2) assms(4) start(2) refl assms(5) start(3)])
  note run = lease_op.fault_free [OF s(1), of "{}" token "ts_auth ts" now
      "duration_seconds (wc_lease_seconds (we_config env))" "wc_batch_size (we_config env)"]
  have ts': "ts' = ts\<lparr>ts_phase := advance (Publishing messages [] []),
      ts_report := (ts_report ts)\<lparr>wr_leased := wr_leased (ts_report ts) + length messages\<rparr>\<rparr>"
    "committed s' = d'" "faults s' = []" "b' = b"
    using assms(6) run lease(1)
    by (auto simp: lease_tick_def Let_def continue_with_def split: prod.splits)
  have "schema_ok d'"
    using lease_schema [OF s(2), of "{}" token "ts_auth ts" now] lease(1) by (metis snd_conv)
  then show ?thesis
    using lease(2) start(1) assms(2) ts'
    by (auto simp: steady_def intro!: on_courseI [where phase = "Publishing messages [] []"])
qed

lemma timely_begin_tick:
  assumes "on_course strict env t0 d0 (committed s) ts" "steady strict s b" "we_registry env = default_registry"
    and "we_publisher env = HttpPublisher p" "ts_phase ts = Publishing waiting flying completed"
    and "strict \<longrightarrow> 0 \<le> now_epoch"
    and "begin_tick env now_epoch waiting flying completed (ts, s, b) = (ts', s', b')"
  shows "on_course strict env t0 d0 (committed s') ts' \<and> steady strict s' b' \<and> ts_auth ts' = ts_auth ts"
proof (cases "\<exists>m rest. waiting = m # rest
    \<and> length flying < max (wc_publish_concurrency (we_config env)) 1")
  case False
  with assms show ?thesis by (auto simp: begin_tick_def split: list.splits)
next
  case True
  then obtain m rest where w: "waiting = m # rest" "length flying < max (wc_publish_concurrency (we_config env)) 1"
    by blast
  let ?w = "auth_workspace_id (ts_auth ts)"
  have c: "strict \<Longrightarrow> wr_failed (ts_report ts) = 0" and prog:
    "progressing strict env t0 (tenant_outbox ?w d0) (ts_auth ts) (tenant_outbox ?w (committed s))
      (Publishing (m # rest) flying completed)"
    using on_course_phase [OF assms(1)] assms(5) w(1) by simp_all
  have "deliverable (we_leaf env) m" using prog by (simp add: progressing_def)
  then show ?thesis
  proof (cases rule: deliverable_dispatched [of env m p b now_epoch, OF _ assms(3,4), consumes 1, case_names sent refused])
    case (sent request)
    let ?phase = "Publishing rest (flying @ [(m, now_epoch)]) completed"
    have "progressing strict env t0 (tenant_outbox ?w d0) (ts_auth ts) (tenant_outbox ?w (committed s)) ?phase"
      using prog by (auto simp: progressing_def)
    moreover have "advance ?phase = ?phase" by (cases ?phase rule: advance.cases) auto
    ultimately show ?thesis
      using assms(2,7) c w sent
      by (auto simp: begin_tick_def intro!: on_courseI [where phase = ?phase])
  next
    case refused
    let ?phase = "Publishing rest flying (completed @ [(m, breaker_refusal)])"
    have lax: "\<not> strict" using refused(1) assms(2,6) by (auto simp: steady_def breaker_open_def)
    have "mset (pending_messages ?phase) = mset (pending_messages (Publishing (m # rest) flying completed))"
      by simp
    then have pending: "set (pending_messages ?phase) = set (pending_messages (Publishing (m # rest) flying completed))"
      "distinct (map om_id (pending_messages ?phase))
        \<longleftrightarrow> distinct (map om_id (pending_messages (Publishing (m # rest) flying completed)))"
      by (metis mset_eq_setD, metis mset_map mset_eq_imp_distinct_iff)
    have "progressing strict env t0 (tenant_outbox ?w d0) (ts_auth ts) (tenant_outbox ?w (committed s)) ?phase"
      using prog lax breaker_refusal_ok unfolding progressing_def pending by auto
    then show ?thesis
      using assms(2,7) w refused lax
      by (auto simp: begin_tick_def intro!: on_courseI [where phase = ?phase])
  qed
qed

lemma timely_answer_tick:
  assumes "on_course strict env t0 d0 (committed s) ts" "steady strict s b"
    and "we_publisher env = HttpPublisher p" "ts_phase ts = Publishing waiting flying completed"
    and "outcome_ok strict (answer_outcome (we_status_text env) response)"
    and "answer_tick env i response waiting flying completed (ts, s, b) = (ts', s', b')"
  shows "on_course strict env t0 d0 (committed s') ts' \<and> steady strict s' b' \<and> ts_auth ts' = ts_auth ts"
proof (cases "i < length flying")
  case False
  with assms show ?thesis by (auto simp: answer_tick_def)
next
  case True
  obtain m e where m: "flying ! i = (m, e)" by (cases "flying ! i")
  let ?w = "auth_workspace_id (ts_auth ts)"
  let ?outcome = "answer_outcome (we_status_text env) response"
  let ?phase = "Publishing waiting (remove_nth i flying) (completed @ [(m, ?outcome)])"
  have c: "strict \<Longrightarrow> wr_failed (ts_report ts) = 0" and prog:
    "progressing strict env t0 (tenant_outbox ?w d0) (ts_auth ts) (tenant_outbox ?w (committed s))
      (Publishing waiting flying completed)"
    using on_course_phase [OF assms(1)] assms(4) by simp_all
  have split: "flying = take i flying @ (m, e) # drop (Suc i) flying"
    using id_take_nth_drop [OF True] m by simp
  have "mset (pending_messages ?phase) = mset (pending_messages (Publishing waiting flying completed))"
    by (subst (2) split) (simp add: remove_nth_def)
  then have pending: "set (pending_messages ?phase) = set (pending_messages (Publishing waiting flying completed))"
    "distinct (map om_id (pending_messages ?phase))
      \<longleftrightarrow> distinct (map om_id (pending_messages (Publishing waiting flying completed)))"
    by (metis mset_eq_setD, metis mset_map mset_eq_imp_distinct_iff)
  have "progressing strict env t0 (tenant_outbox ?w d0) (ts_auth ts) (tenant_outbox ?w (committed s)) ?phase"
    using prog assms(5) unfolding progressing_def pending by auto
  moreover obtain b1 where b1: "http_finish (we_status_text env) p e response b = (?outcome, b1)"
    using http_finish_outcome [of "we_status_text env" p e response b]
    by (cases "http_finish (we_status_text env) p e response b") simp
  moreover have "strict \<Longrightarrow> b1 = record_success b"
    using b1 assms(5)
    by (auto simp: http_finish_def publish_err_def split: http_response.splits if_splits)
  ultimately show ?thesis
    using assms(2,3,6) c True m
    by (auto simp: answer_tick_def steady_def record_success_def intro!: on_courseI [where phase = ?phase])
qed

text \<open>What the settlement of a message makes of its row.\<close>

definition settled_row ::
  "worker_config \<Rightarrow> timestamp \<Rightarrow> nat \<Rightarrow> outbox_message \<Rightarrow> publish_result \<Rightarrow> outbox_row \<Rightarrow> outbox_row \<Rightarrow> outbox_row" where
  "settled_row config now roll m outcome =
     (case outcome of
        Inr u \<Rightarrow> \<lambda>l. delivered_row now
      | Inl error \<Rightarrow> failure_row (failure_of config now roll m error))"

lemma settled_row_simps:
  "o_id (settled_row config now roll m outcome l r) = o_id r"
  "o_event_id (settled_row config now roll m outcome l r) = o_event_id r"
  "o_workspace_id (settled_row config now roll m outcome l r) = o_workspace_id r"
  "outbox_checks r \<Longrightarrow> outcome_ok strict outcome \<Longrightarrow> outbox_checks (settled_row config now roll m outcome r r)"
  by (cases outcome; simp add: settled_row_def row_identities outbox_row_checks failure_of_def failure_fits_def)+

lemma settled_row_settles:
  assumes "outcome_ok strict outcome" "o_attempts r0 = o_attempts r" "t0 \<le> now"
  shows "o_status (settled_row config now roll m outcome r r) = Delivered
      \<and> (\<exists>t. o_published_at (settled_row config now roll m outcome r r) = Some t \<and> t0 \<le> t)
    \<or> \<not> strict \<and> tried (wc_max_attempts config) r0 (settled_row config now roll m outcome r r)
      \<and> t0 \<le> o_updated_at (settled_row config now roll m outcome r r)"
proof (cases outcome)
  case (Inr u)
  then show ?thesis using assms(3) by (simp add: settled_row_def delivered_row_def)
next
  case (Inl error)
  then show ?thesis
    using assms by (auto simp: settled_row_def tried_def failure_row_def dead_letter_row_def failed_row_def
        failure_of_def Let_def)
qed

lemma timely_apply:
  assumes "faults s = []" "schema_ok (committed s)" "outcome_ok strict outcome" "now < horizon"
    and "leased_for horizon auth rows0 (tenant_outbox (auth_workspace_id auth) (committed s)) m"
  obtains r report' s' where
    "r \<in> set (tenant_outbox (auth_workspace_id auth) (committed s))" "o_id r = om_id m"
    "\<forall>r0\<in>set rows0. o_id r0 = om_id m \<longrightarrow> o_attempts r0 = o_attempts r"
    "apply_publish_outcome config auth now roll (m, outcome) report s = (Ok report', s')"
    "committed s' = (committed s)\<lparr>outbox := update_where (\<lambda>x. o_id x = om_id m)
        (settled_row config now roll m outcome r) (outbox (committed s))\<rparr>"
    "faults s' = []" "schema_ok (committed s')" "strict \<longrightarrow> wr_failed report' = wr_failed report"
proof -
  let ?f = "settled_row config now roll m outcome"
  obtain r where r: "r \<in> set (tenant_outbox (auth_workspace_id auth) (committed s))" "o_id r = om_id m"
    "\<forall>r0\<in>set rows0. o_id r0 = om_id m \<longrightarrow> o_attempts r0 = o_attempts r"
    "settle_spec auth (om_id m) (om_lease_token m) (om_lease_owner m) now ?f (committed s)
       = (Ok (), (committed s)\<lparr>outbox := update_where (\<lambda>x. o_id x = om_id m) (?f r) (outbox (committed s))\<rparr>)"
    by (rule timely_settle [OF assms(2,5,4), of ?f]) (use settled_row_simps(4) assms(3) in blast)+
  note schema = settle_schema [OF assms(2), of ?f auth "om_id m" "om_lease_token m" "om_lease_owner m" now]
  show thesis
  proof (cases outcome)
    case (Inr u)
    with that r schema delivered_op.fault_free [OF assms(1), of auth "om_id m" "om_lease_token m" "om_lease_owner m" now]
    show thesis
      by (auto simp: apply_publish_outcome_def mark_outbox_delivered_spec_def case_prod_beta settled_row_def
          row_identities)
  next
    case (Inl error)
    let ?c = "failure_of config now roll m error"
    have lease: "fc_lease_token ?c = om_lease_token m" "fc_lease_owner ?c = om_lease_owner m" "fc_now ?c = now"
      by (simp_all add: failure_of_def)
    have "mark_outbox_failed_spec auth (om_id m) ?c (committed s)
        = (Ok (), (committed s)\<lparr>outbox := update_where (\<lambda>x. o_id x = om_id m) (?f r) (outbox (committed s))\<rparr>)"
      unfolding mark_outbox_failed_spec_def lease using r(4) Inl by (simp add: settled_row_def)
    moreover have "\<not> strict" using assms(3) Inl by simp
    ultimately show thesis
      using that r schema failed_op.fault_free [OF assms(1), of auth "om_id m" ?c] Inl
      by (auto simp: apply_publish_outcome_def case_prod_beta Let_def settled_row_simps)
  qed
qed

lemma timely_mark_tick:
  assumes "on_course strict env t0 d0 (committed s) ts" "steady strict s b" "ts_phase ts = Marking completed"
    and "t0 \<le> now" "now < t0 + duration_seconds (wc_lease_seconds (we_config env))"
    and "mark_tick env cid now roll completed (ts, s, b) = (ts', s', b')"
  shows "on_course strict env t0 d0 (committed s') ts' \<and> steady strict s' b' \<and> ts_auth ts' = ts_auth ts"
proof (cases completed)
  case Nil
  with assms show ?thesis by (simp add: mark_tick_def)
next
  case (Cons delivery rest)
  obtain m outcome where d: "delivery = (m, outcome)" by (cases delivery)
  let ?auth = "ts_auth ts"
  let ?w = "auth_workspace_id ?auth"
  let ?f = "settled_row (we_config env) now roll m outcome"
  have s: "faults s = []" "schema_ok (committed s)" using assms(2) by (simp_all add: steady_def)
  have c: "strict \<Longrightarrow> wr_failed (ts_report ts) = 0" and prog:
    "progressing strict env t0 (tenant_outbox ?w d0) ?auth (tenant_outbox ?w (committed s))
      (Marking ((m, outcome) # rest))"
    using on_course_phase [OF assms(1)] assms(3) Cons d by simp_all
  have ok: "outcome_ok strict outcome"
    and held: "leased_for (t0 + duration_seconds (wc_lease_seconds (we_config env))) ?auth (tenant_outbox ?w d0)
      (tenant_outbox ?w (committed s)) m"
    using prog by (simp_all add: progressing_def)
  obtain r report' s1 where r: "r \<in> set (tenant_outbox ?w (committed s))" "o_id r = om_id m"
    and r0: "\<forall>r0\<in>set (tenant_outbox ?w d0). o_id r0 = om_id m \<longrightarrow> o_attempts r0 = o_attempts r"
    and s1: "apply_publish_outcome (we_config env) ?auth now roll (m, outcome) (ts_report ts) s = (Ok report', s1)"
    "committed s1 = (committed s)\<lparr>outbox := update_where (\<lambda>x. o_id x = om_id m) (?f r) (outbox (committed s))\<rparr>"
    "faults s1 = []" "schema_ok (committed s1)" "strict \<longrightarrow> wr_failed report' = wr_failed (ts_report ts)"
    by (rule timely_apply [OF s ok assms(5) held, of "we_config env" roll "ts_report ts"])
  have ts': "ts' = ts\<lparr>ts_phase := advance (Marking rest), ts_report := report'\<rparr>" "b' = b" "s' = s1"
    using assms(6) Cons d s1(1) by (simp_all add: mark_tick_def continue_with_def)
  have settles: "settled_since strict (wc_max_attempts (we_config env)) t0 (tenant_outbox ?w d0)
      (update_where (\<lambda>x. o_id x = om_id m) (?f r) (tenant_outbox ?w (committed s))) (om_id m)"
    if "om_id m \<in> due_ids env t0 (tenant_outbox ?w d0)"
  proof -
    have "\<exists>r1\<in>set (tenant_outbox ?w d0). o_id r1 = om_id m" using that by (auto simp: due_ids_def)
    then obtain r1 where r1: "r1 \<in> set (tenant_outbox ?w d0)" "o_id r1 = om_id m" by blast
    then have "o_attempts r1 = o_attempts r" using r0 by blast
    from settle_others(3) [of _ _ "?f r", OF refl settled_row_simps(1) r1 r settled_row_settles [OF ok this assms(4)]]
    show ?thesis .
  qed
  have "progressing strict env t0 (tenant_outbox ?w d0) ?auth (tenant_outbox ?w (committed s1)) (Marking rest)"
    unfolding s1(2) tenant_outbox_update [of "?f r", OF settled_row_simps(3)]
    by (rule timely_mark [OF prog settled_row_simps(1) settles])
  then show ?thesis
    using c s1 assms(2) ts' by (auto simp: steady_def intro!: on_courseI [where phase = "Marking rest"])
qed

lemma course_over:
  "over phase \<Longrightarrow> phase \<noteq> Leasing \<Longrightarrow> (\<And>e. phase \<noteq> Finished (Some e)) \<Longrightarrow>
     course strict env t0 rows0 auth rows phase
       \<longleftrightarrow> (\<forall>i\<in>due_ids env t0 rows0. settled_since strict (wc_max_attempts (we_config env)) t0 rows0 rows i)"
  by (cases "(strict, env, t0, rows0, auth, rows, phase)" rule: course.cases)
     (simp_all add: progressing_over)

lemma timely_cleanup_tick:
  assumes "on_course strict env t0 d0 (committed s) ts" "steady strict s b" "ts_phase ts = CleaningOutbox"
    and "timely_tick strict env t0 (CleanupOutboxTick cid now1 now2)"
    and "cleanup_outbox_tick env cid now1 now2 (ts, s, b) = (ts', s', b')"
  shows "on_course strict env t0 d0 (committed s') ts' \<and> steady strict s' b' \<and> ts_auth ts' = ts_auth ts"
proof -
  let ?before = "now1 - duration_hours (wc_delivered_retention_hours (we_config env))"
    and ?dead = "now2 - duration_hours (wc_dead_letter_retention_hours (we_config env))"
  have s: "faults s = []" "schema_ok (committed s)" using assms(2) by (simp_all add: steady_def)
  note run = cleanup_outbox_op.fault_free [OF s(1), of "ts_auth ts" ?before ?dead]
  have ts': "ts_auth ts' = ts_auth ts" "ts_phase ts' = CleaningIdempotency" "wr_failed (ts_report ts') = wr_failed (ts_report ts)"
    "committed s' = snd (cleanup_outbox_spec (ts_auth ts) ?before ?dead (committed s))" "faults s' = []" "b' = b"
    using assms(5) run
    by (auto simp: cleanup_outbox_tick_def Let_def continue_with_def cleanup_outbox_spec_def split: prod.splits)
  have "over CleaningOutbox" "over CleaningIdempotency" by (simp_all add: over_def)
  then show ?thesis
    using assms(1-4) ts' timely_sweep [of strict _ t0 _ _ _ _ ?before ?dead] cleanup_outbox_schema [OF s(2)]
    by (auto simp: on_course_def Let_def course_over steady_def simp del: course.simps(3-))
qed

lemma timely_idempotency_tick:
  assumes "on_course strict env t0 d0 (committed s) ts" "steady strict s b" "ts_phase ts = CleaningIdempotency"
    and "cleanup_idempotency_tick env cid now (ts, s, b) = (ts', s', b')"
  shows "on_course strict env t0 d0 (committed s') ts' \<and> steady strict s' b' \<and> ts_auth ts' = ts_auth ts"
proof -
  let ?before = "now - duration_hours (wc_idempotency_retention_hours (we_config env))"
  have s: "faults s = []" "schema_ok (committed s)" using assms(2) by (simp_all add: steady_def)
  note run = cleanup_idempotency_op.fault_free [OF s(1), of "ts_auth ts" ?before]
  have ts': "ts_auth ts' = ts_auth ts" "ts_phase ts' = Finished None" "wr_failed (ts_report ts') = wr_failed (ts_report ts)"
    "committed s' = snd (cleanup_idempotency_spec (ts_auth ts) ?before (committed s))" "faults s' = []" "b' = b"
    using assms(4) run
    by (auto simp: cleanup_idempotency_tick_def Let_def continue_with_def cleanup_idempotency_spec_def split: prod.splits)
  have "over (Finished None)" "over CleaningIdempotency" by (simp_all add: over_def)
  moreover have "tenant_outbox w (committed s') = tenant_outbox w (committed s)" for w
    by (simp add: ts'(4) tenant_outbox_def other_tables_outbox)
  ultimately show ?thesis
    using assms(1-3) ts' cleanup_idempotency_schema [OF s(2)]
    by (auto simp: on_course_def Let_def course_over steady_def simp del: course.simps(3-))
qed

lemma timely_tenant_tick:
  assumes "on_course strict env t0 d0 (committed s) ts" "steady strict s b" "timely_tick strict env t0 t"
    and "we_registry env = default_registry" "we_publisher env = HttpPublisher p"
    and "ready_tenant env d0 (auth_workspace_id (ts_auth ts))"
    and "tenant_tick env t (ts, s, b) = (ts', s', b')"
  shows "on_course strict env t0 d0 (committed s') ts' \<and> steady strict s' b' \<and> ts_auth ts' = ts_auth ts"
proof (cases rule: tenant_tick_cases [of env t "(ts, s, b)"])
  case idle
  with assms show ?thesis by simp
next
  case (lease cid locked token now)
  with assms(3) have "locked = {}" "t0 \<le> now" by simp_all
  with lease assms(7) timely_lease_tick [OF assms(1,2) _ assms(6), of now cid token ts' s' b'] show ?thesis
    by simp
next
  case (send now_epoch waiting flying completed)
  with assms(3,7) timely_begin_tick [OF assms(1,2,4,5), of waiting flying completed now_epoch ts' s' b']
  show ?thesis by simp
next
  case (answer i response waiting flying completed)
  with assms(3,7) timely_answer_tick [OF assms(1,2,5), of waiting flying completed response i ts' s' b']
  show ?thesis by simp
next
  case (mark cid now roll completed)
  with assms(3,7) timely_mark_tick [OF assms(1,2), of completed now cid roll ts' s' b'] show ?thesis by simp
next
  case (sweep_outbox cid now1 now2)
  with assms(3,7) timely_cleanup_tick [OF assms(1,2), of cid now1 now2 ts' s' b'] show ?thesis by simp
next
  case (sweep_idempotency cid now)
  with assms(7) timely_idempotency_tick [OF assms(1,2), of cid now ts' s' b'] show ?thesis by simp
qed

section \<open>A run on course\<close>

definition run_on_course ::
  "bool \<Rightarrow> worker_env \<Rightarrow> timestamp \<Rightarrow> db \<Rightarrow> tenant_state list \<times> session \<times> breaker \<Rightarrow> bool" where
  "run_on_course strict env t0 d0 w \<longleftrightarrow>
     (let (tss, s, b) = w in
      steady strict s b \<and> distinct (map (auth_workspace_id \<circ> ts_auth) tss)
      \<and> list_all (\<lambda>ts. on_course strict env t0 d0 (committed s) ts
            \<and> ready_tenant env d0 (auth_workspace_id (ts_auth ts))) tss)"

lemma other_tenant_outbox:
  assumes "tenant_tick env t (ts, s, b) = (ts', s', b')" "w \<noteq> auth_workspace_id (ts_auth ts)"
  shows "tenant_outbox w (committed s') = tenant_outbox w (committed s)"
proof -
  have "tenant_view w (committed s') = tenant_view w (committed s)"
    using tenant_tick_store [OF assms(1), of "we_leaf env"]
  proof (elim conjE disjE exE)
    fix c assume c: "s' = perform (we_leaf env) c s" "own_call env {auth_workspace_id (ts_auth ts)} c"
    then have "call_tenant c \<noteq> Some w" using assms(2) by (cases c) auto
    then show ?thesis using isolation.after_call [of c w s] c(1) by simp
  qed simp
  then show ?thesis by (simp add: tenant_view_def tenant_outbox_def)
qed

lemma timely_run_tick:
  assumes "run_on_course strict env t0 d0 (tss, s, b)" "timely_tick strict env t0 (snd it)"
    and "we_registry env = default_registry" "we_publisher env = HttpPublisher p"
  shows "run_on_course strict env t0 d0 (run_tick env it (tss, s, b))"
proof -
  obtain i t where it: "it = (i, t)" by (cases it)
  show ?thesis
  proof (cases "may_tick (we_config env) tss i")
    case False
    with assms(1) show ?thesis by (simp add: it run_tick_def)
  next
    case True
    then have i: "i < length tss" by (simp add: may_tick_def)
    obtain ts' s' b' where w: "tenant_tick env t (tss ! i, s, b) = (ts', s', b')"
      by (cases "tenant_tick env t (tss ! i, s, b)")
    have run: "steady strict s b" "distinct (map (auth_workspace_id \<circ> ts_auth) tss)"
      and all: "\<And>j. j < length tss \<Longrightarrow> on_course strict env t0 d0 (committed s) (tss ! j)
        \<and> ready_tenant env d0 (auth_workspace_id (ts_auth (tss ! j)))"
      using assms(1) by (simp_all add: run_on_course_def list_all_length)
    have "on_course strict env t0 d0 (committed s') ts' \<and> steady strict s' b' \<and> ts_auth ts' = ts_auth (tss ! i)"
      using all [OF i] assms(2) by (intro timely_tenant_tick [OF _ run(1) _ assms(3,4) _ w]) (simp_all add: it)
    then have mine: "on_course strict env t0 d0 (committed s') ts'" "steady strict s' b'" "ts_auth ts' = ts_auth (tss ! i)"
      by blast+
    have others: "on_course strict env t0 d0 (committed s') (tss ! j)" if "j < length tss" "j \<noteq> i" for j
    proof (rule on_course_frame [where new = "[]"])
      show "on_course strict env t0 d0 (committed s) (tss ! j)" using all that(1) by blast
      have "auth_workspace_id (ts_auth (tss ! j)) \<noteq> auth_workspace_id (ts_auth (tss ! i))"
        using run(2) that i by (simp add: distinct_conv_nth)
      then show "tenant_outbox (auth_workspace_id (ts_auth (tss ! j))) (committed s')
          = tenant_outbox (auth_workspace_id (ts_auth (tss ! j))) (committed s) @ []"
        using other_tenant_outbox [OF w] by simp
    qed simp
    have "map (auth_workspace_id \<circ> ts_auth) (tss[i := ts']) = map (auth_workspace_id \<circ> ts_auth) tss"
      using mine(3) i by (simp add: map_update list_update_same_conv)
    moreover have "on_course strict env t0 d0 (committed s') (tss[i := ts'] ! j)
        \<and> ready_tenant env d0 (auth_workspace_id (ts_auth (tss[i := ts'] ! j)))" if "j < length tss" for j
      using that mine(1,3) others all i by (cases "j = i") auto
    ultimately show ?thesis
      using True w mine(2) run(2) by (simp add: it run_tick_def run_on_course_def list_all_length)
  qed
qed

lemma add_outcomes_finished:
  "\<forall>ts\<in>set tss. ts_phase ts = Finished None \<Longrightarrow>
     wr_tenant_failures (foldl add_outcome r tss) = wr_tenant_failures r"
  "\<forall>ts\<in>set tss. ts_phase ts = Finished None \<and> wr_failed (ts_report ts) = 0 \<Longrightarrow>
     wr_failed (foldl add_outcome r tss) = wr_failed r"
  by (induction tss arbitrary: r) (simp_all add: add_outcome_def Let_def)

text \<open>What a run has made of a row that was due.\<close>

definition settled_by_run :: "bool \<Rightarrow> int \<Rightarrow> outbox_row \<Rightarrow> db \<Rightarrow> bool" where
  "settled_by_run strict M r d \<longleftrightarrow>
     (\<exists>r'\<in>set (outbox d). o_id r' = o_id r \<and> (o_status r' = Delivered \<or> \<not> strict \<and> tried M r r'))"

lemma finished_on_course:
  assumes "on_course strict env t0 d0 d ts" "is_finished (ts_phase ts)" "unique_key o_id (outbox d0)"
  shows "ts_phase ts = Finished None \<and> (strict \<longrightarrow> wr_failed (ts_report ts) = 0)
    \<and> (\<forall>r\<in>set (outbox d0). o_workspace_id r = auth_workspace_id (ts_auth ts) \<and> lease_due t0 r
          \<and> next_in_line env t0 (tenant_outbox (o_workspace_id r) d0) r \<longrightarrow>
         settled_by_run strict (wc_max_attempts (we_config env)) r d)"
proof -
  let ?w = "auth_workspace_id (ts_auth ts)" and ?M = "wc_max_attempts (we_config env)"
  obtain e where e: "ts_phase ts = Finished e" using assms(2) by (cases "ts_phase ts") auto
  with assms(1) have fin: "e = None" by (cases e) (simp_all add: on_course_def Let_def)
  have "settled_by_run strict ?M r d" if r: "r \<in> set (outbox d0)" "o_workspace_id r = ?w" "lease_due t0 r" "next_in_line env t0 (tenant_outbox ?w d0) r" for r
  proof -
    have "o_id r \<in> due_ids env t0 (tenant_outbox ?w d0)" using r by (auto simp: due_ids_def set_tenant_outbox)
    then have "settled_since strict ?M t0 (tenant_outbox ?w d0) (tenant_outbox ?w d) (o_id r)"
      using assms(1) e fin by (simp add: on_course_def Let_def progressing_def)
    then obtain r0 r' where s: "r0 \<in> set (outbox d0)" "r' \<in> set (outbox d)" "o_id r0 = o_id r" "o_id r' = o_id r"
      "o_status r' = Delivered \<or> \<not> strict \<and> tried ?M r0 r'"
      unfolding settled_since_def Bex_def set_tenant_outbox by blast
    then have "r0 = r" using unique_keyD [OF assms(3)] r(1) by blast
    with s show ?thesis unfolding settled_by_run_def by blast
  qed
  then have "\<forall>r\<in>set (outbox d0). o_workspace_id r = ?w \<and> lease_due t0 r
      \<and> next_in_line env t0 (tenant_outbox (o_workspace_id r) d0) r \<longrightarrow> settled_by_run strict ?M r d"
    by metis
  with e fin assms(1) show ?thesis by (simp add: on_course_def Let_def)
qed

lemma acquired_steady:
  assumes "acquire_workspaces config cid now (m, s) = (Ok ids, m1, s1)" "steady strict s b"
  shows "steady strict s1 b \<and> (\<forall>w. tenant_outbox w (committed s1) = tenant_outbox w (committed s))"
proof (cases "wc_workspace_ids config")
  case (Some static)
  with assms show ?thesis by (simp add: acquire_workspaces_def)
next
  case None
  let ?n = "if in_i64 (int (wc_partition_batch config)) then int (wc_partition_batch config) else 2 ^ 63 - 1"
  have s: "faults s = []" "schema_ok (committed s)" using assms(2) by (simp_all add: steady_def)
  note run = acquire_op.fault_free [OF s(1), of "wc_worker_instance_id config" now
      "now + duration_seconds (wc_partition_lease_seconds config)" ?n "wc_partition_shard_buckets config"]
  have "s1 = snd (acquire_partitions (wc_worker_instance_id config) now
      (now + duration_seconds (wc_partition_lease_seconds config)) ?n (wc_partition_shard_buckets config) s)"
    using assms(1) None by (auto simp: acquire_workspaces_def Let_def split: prod.splits sum.splits)
  with run show ?thesis
    using assms(2) acquire_spec_schema [OF s(2)]
    by (simp add: steady_def tenant_outbox_def acquire_outbox)
qed

end
