(* ===== verification/Busy_Run.thy ===== *)
theory Busy_Run
  imports Timely_Run
begin

text \<open>
  A run of the worker among other clients: between the ticks of its schedule others act on the database
  over connections of their own.  What a timely run brings about holds whatever they do, as long as nobody
  else leases, settles or sweeps the outbox of its tenants, which the partition leases are for.
\<close>

section \<open>Runs among other clients\<close>

datatype run_step = Own "nat \<times> tick" | Other "trip list" store_call

definition foreign_call :: "leaf \<Rightarrow> trip list \<Rightarrow> store_call \<Rightarrow> session \<Rightarrow> session" where
  "foreign_call L trips c s = s\<lparr>committed := committed (perform L c (s\<lparr>faults := trips\<rparr>))\<rparr>"

fun busy_step ::
  "worker_env \<Rightarrow> run_step \<Rightarrow> tenant_state list \<times> session \<times> breaker \<Rightarrow> tenant_state list \<times> session \<times> breaker" where
  "busy_step env (Own it) w = run_tick env it w"
| "busy_step env (Other trips c) (tss, s, b) = (tss, foreign_call (we_leaf env) trips c s, b)"

definition busy_tenants ::
  "worker_env \<Rightarrow> run_step list \<Rightarrow> tenant_state list \<times> session \<times> breaker
    \<Rightarrow> tenant_state list \<times> session \<times> breaker" where
  "busy_tenants env steps w = foldl (\<lambda>w st. busy_step env st w) w steps"

definition busy_run ::
  "worker_env \<Rightarrow> uuid \<Rightarrow> timestamp \<Rightarrow> run_step list \<Rightarrow> worker_memory \<times> session \<times> breaker
    \<Rightarrow> (app_service_error + worker_report) option \<times> worker_memory \<times> session \<times> breaker" where
  "busy_run env cid now steps msb =
     (let (m, s, b) = msb; (r, m', s') = acquire_workspaces (we_config env) cid now (m, s) in
      case r of
        Inl error \<Rightarrow> (Some (Err error), m', s', b)
      | Inr assigned \<Rightarrow>
          if assigned = [] then (Some (Ok worker_report_default), m', s', b)
          else
            let (tss, s'', b') =
                  busy_tenants env steps (map (start_tenant (we_config env)) assigned, s', b)
            in (if list_all (is_finished \<circ> ts_phase) tss
                then Some (Ok (foldl add_outcome worker_report_default tss)) else None,
                m', s'', b'))"

text \<open>Where nobody else acts it is the run of the worker.\<close>

lemma busy_tenants_alone: "busy_tenants env (map Own ticks) w = run_tenants env ticks w"
  by (induction ticks arbitrary: w) (simp_all add: busy_tenants_def run_tenants_def)

lemma busy_run_alone: "busy_run env cid now (map Own ticks) msb = run_once env cid now ticks msb"
  unfolding busy_run_def run_once_def busy_tenants_alone by (rule refl)

text \<open>
  What others may do during a run that begins at \<open>t0\<close> for the tenants \<open>T\<close>: anything but lease, settle or
  sweep the outbox of those tenants; the issues they create are announced later than \<open>t0\<close>.
\<close>

fun bystander :: "leaf \<Rightarrow> uuid set \<Rightarrow> timestamp \<Rightarrow> store_call \<Rightarrow> bool" where
  "bystander L T t0 (CreateIssueCall draws auth c e) \<longleftrightarrow>
     t0 < ice_occurred_at e \<and> issue_created_de L (issue_created_ser L e) \<noteq> None"
| "bystander L T t0 (LeaseBatchCall locked token auth now lease_for n) \<longleftrightarrow> auth_workspace_id auth \<notin> T"
| "bystander L T t0 (MarkDeliveredCall auth i token owner now) \<longleftrightarrow> auth_workspace_id auth \<notin> T"
| "bystander L T t0 (MarkFailedCall auth i f) \<longleftrightarrow> auth_workspace_id auth \<notin> T"
| "bystander L T t0 (CleanupOutboxCall auth t u) \<longleftrightarrow> auth_workspace_id auth \<notin> T"
| "bystander L T t0 c \<longleftrightarrow> True"

fun timely_step :: "bool \<Rightarrow> worker_env \<Rightarrow> timestamp \<Rightarrow> uuid set \<Rightarrow> run_step \<Rightarrow> bool" where
  "timely_step strict env t0 T (Own it) \<longleftrightarrow> timely_tick strict env t0 (snd it)"
| "timely_step strict env t0 T (Other trips c) \<longleftrightarrow> bystander (we_leaf env) T t0 c"

lemma timely_alone:
  "list_all (timely_step strict env t0 T) (map Own ticks) = list_all (timely_tick strict env t0 \<circ> snd) ticks"
  by (simp add: list_all_iff)

section \<open>Others do not disturb\<close>

lemma created_deliverable:
  "issue_created_de L (issue_created_ser L e) \<noteq> None \<Longrightarrow>
     deliverable L (message_of_row token owner until (outbox_row_of L i c e t))"
  by (simp add: deliverable_def message_of_row_def outbox_row_of_def dispatch_version_def
      resolve_schema_version_def issue_created_no_schema_version)

lemma bystander_effect:
  assumes "bystander (we_leaf env) T t0 c" "w \<in> T"
  shows "\<exists>new. tenant_outbox w (call_effect (we_leaf env) c d) = tenant_outbox w d @ new
    \<and> list_all (newcomer env t0) new"
proof (cases "call_tenant c = Some w \<and> creates_issue c")
  case True
  then obtain draws auth cmd e where c: "c = CreateIssueCall draws auth cmd e" by (cases c) auto
  let ?r = "outbox_row_of (we_leaf env) (dr_outbox_id draws) cmd e (ice_occurred_at e)"
  have "newcomer env t0 ?r"
    using assms(1) created_deliverable by (simp add: c newcomer_def) (simp add: outbox_row_of_def)
  then show ?thesis
    unfolding c
    by (cases rule: create_issue_spec_cases [of "we_leaf env" draws auth cmd e d])
       (auto simp: with_created_rows_def Let_def tenant_outbox_def intro!: exI [of _ "filter (\<lambda>r. o_workspace_id r = w) [?r]"])
next
  case False
  have "tenant_outbox w (call_effect (we_leaf env) c d) = tenant_outbox w d"
  proof (cases "call_tenant c = Some w")
    case True
    with False assms show ?thesis by (cases c) (auto simp: tenant_outbox_def other_tables_outbox)
  next
    case other: False
    from effect_isolated [OF this, of "we_leaf env" d] show ?thesis by (simp add: tenant_view_def tenant_outbox_def)
  qed
  then show ?thesis by (intro exI [of _ "[]"]) simp
qed

lemma foreign_committed:
  "committed (foreign_call L trips c s) = call_effect L c (committed s)
     \<or> committed (foreign_call L trips c s) = committed s"
  using perform_outcome [of L c "s\<lparr>faults := trips\<rparr>"] by (simp add: foreign_call_def)

lemma foreign_steady: "steady strict s b \<Longrightarrow> steady strict (foreign_call L trips c s) b"
  using foreign_committed [of L trips c s] call_effect_schema by (auto simp: steady_def foreign_call_def)

lemma foreign_on_course:
  assumes "on_course strict env t0 d0 (committed s) ts" "bystander (we_leaf env) T t0 c"
    and "auth_workspace_id (ts_auth ts) \<in> T"
  shows "on_course strict env t0 d0 (committed (foreign_call (we_leaf env) trips c s)) ts"
proof -
  obtain new where new: "tenant_outbox (auth_workspace_id (ts_auth ts)) (call_effect (we_leaf env) c (committed s))
      = tenant_outbox (auth_workspace_id (ts_auth ts)) (committed s) @ new" "list_all (newcomer env t0) new"
    using bystander_effect [OF assms(2,3)] by blast
  show ?thesis
    using foreign_committed [of "we_leaf env" trips c s] on_course_frame [OF assms(1) new(2) new(1)] assms(1)
    by metis
qed

section \<open>A run on course\<close>

lemma busy_step_on_course:
  assumes "run_on_course strict env t0 d0 (tss, s, b)" "timely_step strict env t0 T st"
    and "(auth_workspace_id \<circ> ts_auth) ` set tss \<subseteq> T"
    and "we_registry env = default_registry" "we_publisher env = HttpPublisher p"
  shows "run_on_course strict env t0 d0 (busy_step env st (tss, s, b))"
proof (cases st)
  case (Own it)
  then show ?thesis using timely_run_tick [OF assms(1) _ assms(4,5), of it] assms(2) by simp
next
  case (Other trips c)
  have "on_course strict env t0 d0 (committed (foreign_call (we_leaf env) trips c s)) ts" if "ts \<in> set tss" for ts
    by (rule foreign_on_course [where T = T])
       (use assms(1-3) that in \<open>auto simp: Other run_on_course_def list_all_iff\<close>)
  then show ?thesis
    using assms(1) foreign_steady [of strict s b] by (auto simp: Other run_on_course_def list_all_iff)
qed

text \<open>
  An invariant of the worker's calls and of what the others do holds after the run; the tenants stay.
\<close>

fun others_in :: "(store_call \<Rightarrow> bool) \<Rightarrow> run_step \<Rightarrow> bool" where
  "others_in P (Own it) \<longleftrightarrow> True"
| "others_in P (Other trips c) \<longleftrightarrow> P c"

lemma busy_step_keeps:
  assumes "busy_step env st (tss, s, b) = (tss', s', b')"
    and "store_invariant (we_leaf env) P I" "\<And>T c. own_call env T c \<Longrightarrow> P c" "others_in P st" "I (committed s)"
  shows "map ts_auth tss' = map ts_auth tss \<and> I (committed s')"
proof (cases st)
  case (Own it)
  then have run: "run_tick env it (tss, s, b) = (tss', s', b')" using assms(1) by simp
  obtain calls where calls: "s' = perform_all (we_leaf env) calls s"
    "list_all (own_call env ((auth_workspace_id \<circ> ts_auth) ` set tss)) calls"
    using run_tick_step(3) [OF run, of "we_leaf env"] by blast
  have "list_all P calls" using calls(2) assms(3) by (auto simp: list_all_iff)
  from store_invariant.after_history [OF assms(2) this assms(5)] run_tick_step(1) [OF run] show ?thesis
    by (simp add: calls(1))
next
  case (Other trips c)
  then have "P c" "s' = foreign_call (we_leaf env) trips c s" "tss' = tss" using assms(1,4) by auto
  moreover have "I (call_effect (we_leaf env) c (committed s))"
    using store_invariant.preserved [OF assms(2) \<open>P c\<close> assms(5)] .
  ultimately show ?thesis using foreign_committed [of "we_leaf env" trips c s] assms(5) by auto
qed

lemma busy_tenants_keep:
  assumes "busy_tenants env steps (tss, s, b) = (tss', s', b')"
    and "store_invariant (we_leaf env) P I" "\<And>T c. own_call env T c \<Longrightarrow> P c" "list_all (others_in P) steps"
    and "I (committed s)"
  shows "map ts_auth tss' = map ts_auth tss \<and> I (committed s')"
  using assms(1,4,5)
proof (induction steps arbitrary: tss s b)
  case Nil
  then show ?case by (simp add: busy_tenants_def)
next
  case (Cons st steps)
  obtain tss1 s1 b1 where step: "busy_step env st (tss, s, b) = (tss1, s1, b1)"
    by (cases "busy_step env st (tss, s, b)")
  have first: "map ts_auth tss1 = map ts_auth tss \<and> I (committed s1)"
    using busy_step_keeps [OF step assms(2,3)] Cons.prems(2,3) by simp
  have "busy_tenants env steps (tss1, s1, b1) = (tss', s', b')"
    using Cons.prems(1) step by (simp add: busy_tenants_def)
  from Cons.IH [OF this] Cons.prems(2) first show ?case by simp
qed

lemma any_call_keeps_True: "store_invariant L (\<lambda>_. True) (\<lambda>_. True)"
  by unfold_locales simp

lemma others_any: "list_all (others_in (\<lambda>_. True)) steps"
proof -
  have "others_in (\<lambda>_. True) st" for st by (cases st) simp_all
  then show ?thesis by (simp add: list_all_iff)
qed

lemma busy_tenants_on_course:
  assumes "run_on_course strict env t0 d0 (tss, s, b)" "list_all (timely_step strict env t0 T) steps"
    and "(auth_workspace_id \<circ> ts_auth) ` set tss \<subseteq> T"
    and "we_registry env = default_registry" "we_publisher env = HttpPublisher p"
  shows "run_on_course strict env t0 d0 (busy_tenants env steps (tss, s, b))"
  using assms(1-3)
proof (induction steps arbitrary: tss s b)
  case Nil
  then show ?case by (simp add: busy_tenants_def)
next
  case (Cons st steps)
  obtain tss1 s1 b1 where step: "busy_step env st (tss, s, b) = (tss1, s1, b1)"
    by (cases "busy_step env st (tss, s, b)")
  have on: "run_on_course strict env t0 d0 (tss1, s1, b1)"
    using busy_step_on_course [OF Cons.prems(1) _ Cons.prems(3) assms(4,5), of st] Cons.prems(2) step by simp
  have "map ts_auth tss1 = map ts_auth tss"
    using busy_step_keeps [OF step any_call_keeps_True] others_any [of "[st]"] by simp
  then have "(auth_workspace_id \<circ> ts_auth) ` set tss1 \<subseteq> T"
    using Cons.prems(3) by (metis image_comp list.set_map)
  from Cons.IH [OF on _ this] Cons.prems(2) step show ?case by (simp add: busy_tenants_def)
qed

lemma busy_run_once:
  assumes "steady strict s b" "we_registry env = default_registry" "we_publisher env = HttpPublisher p"
    and "acquire_workspaces (we_config env) cid now (m, s) = (Ok ids, m1, s1)" "distinct ids"
    and "\<forall>w\<in>set ids. ready_tenant env (committed s) w"
    and "list_all (timely_step strict env t0 (set ids)) steps"
    and "busy_run env cid now steps (m, s, b) = (Some result, m', s', b')"
  shows "(\<exists>report. result = Ok report \<and> wr_tenant_failures report = 0 \<and> (strict \<longrightarrow> wr_failed report = 0))
    \<and> steady strict s' b'
    \<and> (\<forall>r\<in>set (outbox (committed s)). o_workspace_id r \<in> set ids \<and> lease_due t0 r
          \<and> next_in_line env t0 (tenant_outbox (o_workspace_id r) (committed s)) r \<longrightarrow>
         settled_by_run strict (wc_max_attempts (we_config env)) r (committed s'))"
proof (cases "ids = []")
  case True
  with assms(4,8) acquired_steady [OF assms(4,1)] show ?thesis
    by (auto simp: busy_run_def worker_report_default_def)
next
  case False
  let ?tss = "map (start_tenant (we_config env)) ids"
  obtain tss where run: "busy_tenants env steps (?tss, s1, b) = (tss, s', b')"
    and res: "list_all (is_finished \<circ> ts_phase) tss" "result = Ok (foldl add_outcome worker_report_default tss)"
    using assms(4,8) False by (auto simp: busy_run_def split: prod.splits if_splits)
  note acq = acquired_steady [OF assms(4,1)]
  have uk: "unique_key o_id (outbox (committed s))"
    using assms(1) by (simp add: steady_def schema_ok_def outbox_ok_def)
  have "run_on_course strict env t0 (committed s) (?tss, s1, b)"
    using acq assms(5,6)
    by (auto simp: run_on_course_def list_all_iff on_course_def start_tenant_def worker_report_default_def
        comp_def)
  moreover have "(auth_workspace_id \<circ> ts_auth) ` set ?tss \<subseteq> set ids"
    using started_tenants [of "we_config env" ids] by simp
  ultimately have "run_on_course strict env t0 (committed s) (tss, s', b')"
    using busy_tenants_on_course [OF _ assms(7) _ assms(2,3)] unfolding run [symmetric] by blast
  then have course: "steady strict s' b'" "\<forall>ts\<in>set tss. on_course strict env t0 (committed s) (committed s') ts"
    by (simp_all add: run_on_course_def list_all_iff)
  have fin: "ts_phase ts = Finished None \<and> (strict \<longrightarrow> wr_failed (ts_report ts) = 0)
    \<and> (\<forall>r\<in>set (outbox (committed s)). o_workspace_id r = auth_workspace_id (ts_auth ts) \<and> lease_due t0 r
          \<and> next_in_line env t0 (tenant_outbox (o_workspace_id r) (committed s)) r \<longrightarrow>
         settled_by_run strict (wc_max_attempts (we_config env)) r (committed s'))"
    if "ts \<in> set tss" for ts
    by (rule finished_on_course [OF _ _ uk]) (use course(2) res(1) that in \<open>simp_all add: list_all_iff\<close>)
  have "map ts_auth tss = map ts_auth ?tss"
    using busy_tenants_keep [OF run any_call_keeps_True _ others_any] by simp
  then have "(auth_workspace_id \<circ> ts_auth) ` set tss = set ids"
    using started_tenants [of "we_config env" ids] by (metis image_comp list.set_map)
  then have tenant: "\<exists>ts\<in>set tss. auth_workspace_id (ts_auth ts) = w" if "w \<in> set ids" for w
    using that by force
  have "\<forall>r\<in>set (outbox (committed s)). o_workspace_id r \<in> set ids \<and> lease_due t0 r
          \<and> next_in_line env t0 (tenant_outbox (o_workspace_id r) (committed s)) r \<longrightarrow>
      settled_by_run strict (wc_max_attempts (we_config env)) r (committed s')"
    using tenant fin by metis
  moreover have "\<exists>report. result = Ok report \<and> wr_tenant_failures report = 0 \<and> (strict \<longrightarrow> wr_failed report = 0)"
    using add_outcomes_finished [of tss worker_report_default] fin res(2)
    by (simp add: worker_report_default_def)
  ultimately show ?thesis using course(1) by blast
qed

end
