(* ===== verification/Healthy_Run.thy ===== *)
theory Healthy_Run
  imports Busy_Run
begin

text \<open>
  What a healthy environment brings about: the strict case of Timely_Run, with an endpoint that accepts.
  Every complete run of the worker delivers the due events of its tenants that a batch reaches, and the
  events the program wrote are such events.
\<close>

section \<open>A healthy environment\<close>

text \<open>
  The ticks of a healthy run that begins at \<open>t0\<close>: nothing else locks the rows, every request is
  answered with success, messages are settled before the shortest lease ends, and the sweep keeps
  what was delivered since \<open>t0\<close>.
\<close>

fun healthy_tick :: "worker_config \<Rightarrow> timestamp \<Rightarrow> tick \<Rightarrow> bool" where
  "healthy_tick config t0 (LeaseTick cid locked token now) \<longleftrightarrow> locked = {} \<and> t0 \<le> now"
| "healthy_tick config t0 (BeginTick now_epoch) \<longleftrightarrow> 0 \<le> now_epoch"
| "healthy_tick config t0 (AnswerTick i (Responded status body)) \<longleftrightarrow> is_success status"
| "healthy_tick config t0 (AnswerTick i (SendFailed e)) \<longleftrightarrow> False"
| "healthy_tick config t0 (MarkTick cid now roll) \<longleftrightarrow>
     t0 \<le> now \<and> now < t0 + duration_seconds (wc_lease_seconds config)"
| "healthy_tick config t0 (CleanupOutboxTick cid now1 now2) \<longleftrightarrow>
     now1 - duration_hours (wc_delivered_retention_hours config) \<le> t0"
| "healthy_tick config t0 (CleanupIdempotencyTick cid now) \<longleftrightarrow> True"

lemma healthy_supply:
  assumes "0 < duration_seconds (wc_lease_seconds config)"
  shows "tick_supply (healthy_tick config t0)"
proof
  show "\<exists>cid locked token now. healthy_tick config t0 (LeaseTick cid locked token now)"
    by (intro exI [of _ 0] exI [of _ "{}"] exI [of _ t0]) simp
  show "\<exists>now_epoch. healthy_tick config t0 (BeginTick now_epoch)" by (rule exI [of _ 0]) simp
  show "\<exists>response. healthy_tick config t0 (AnswerTick i response)" for i
    by (rule exI [of _ "Responded 200 None"]) (simp add: is_success_def)
  show "\<exists>cid now roll. healthy_tick config t0 (MarkTick cid now roll)"
    by (intro exI [of _ 0] exI [of _ t0]) (use assms in simp)
  show "\<exists>cid now1 now2. healthy_tick config t0 (CleanupOutboxTick cid now1 now2)"
    by (intro exI [of _ 0] exI [of _ "t0 + duration_hours (wc_delivered_retention_hours config)"]) simp
  show "\<exists>cid now. healthy_tick config t0 (CleanupIdempotencyTick cid now)" by simp
qed

lemma healthy_timely:
  "healthy_tick (we_config env) t0 t \<Longrightarrow> timely_tick True env t0 t"
  by (cases "(we_config env, t0, t)" rule: healthy_tick.cases)
     (simp_all add: answer_outcome_def http_finish_def)

fun healthy_step :: "worker_env \<Rightarrow> timestamp \<Rightarrow> uuid set \<Rightarrow> run_step \<Rightarrow> bool" where
  "healthy_step env t0 T (Own it) \<longleftrightarrow> healthy_tick (we_config env) t0 (snd it)"
| "healthy_step env t0 T (Other trips c) \<longleftrightarrow> bystander (we_leaf env) T t0 c"

lemma healthy_step_timely: "healthy_step env t0 T st \<Longrightarrow> timely_step True env t0 T st"
  by (cases st) (simp_all add: healthy_timely)

lemma healthy_alone:
  "list_all (healthy_step env t0 T) (map Own ticks) = list_all (healthy_tick (we_config env) t0 \<circ> snd) ticks"
  by (simp add: list_all_iff)

lemma healthy_busy_run:
  assumes "steady True s b" "we_registry env = default_registry" "we_publisher env = HttpPublisher p"
    and "acquire_workspaces (we_config env) cid now (m, s) = (Ok ids, m1, s1)" "distinct ids"
    and "\<forall>w\<in>set ids. ready_tenant env (committed s) w"
    and "list_all (healthy_step env t0 (set ids)) steps"
    and "busy_run env cid now steps (m, s, b) = (Some result, m', s', b')"
  shows "(\<exists>report. result = Ok report \<and> wr_failed report = 0 \<and> wr_tenant_failures report = 0)
    \<and> (\<forall>r\<in>set (outbox (committed s)). o_workspace_id r \<in> set ids \<and> lease_due t0 r
          \<and> next_in_line env t0 (tenant_outbox (o_workspace_id r) (committed s)) r \<longrightarrow>
         (\<exists>r'\<in>set (outbox (committed s')). o_id r' = o_id r \<and> o_status r' = Delivered))"
proof -
  have "list_all (timely_step True env t0 (set ids)) steps"
    using assms(7) healthy_step_timely by (auto simp: list_all_iff)
  from busy_run_once [OF assms(1-6) this assms(8)] show ?thesis by (auto simp: settled_by_run_def)
qed

lemma healthy_run_once:
  assumes "steady True s b" "we_registry env = default_registry" "we_publisher env = HttpPublisher p"
    and "acquire_workspaces (we_config env) cid now (m, s) = (Ok ids, m1, s1)" "distinct ids"
    and "\<forall>w\<in>set ids. ready_tenant env (committed s) w"
    and "list_all (healthy_tick (we_config env) t0 \<circ> snd) ticks"
    and "run_once env cid now ticks (m, s, b) = (Some result, m', s', b')"
  shows "(\<exists>report. result = Ok report \<and> wr_failed report = 0 \<and> wr_tenant_failures report = 0)
    \<and> (\<forall>r\<in>set (outbox (committed s)). o_workspace_id r \<in> set ids \<and> lease_due t0 r
          \<and> next_in_line env t0 (tenant_outbox (o_workspace_id r) (committed s)) r \<longrightarrow>
         (\<exists>r'\<in>set (outbox (committed s')). o_id r' = o_id r \<and> o_status r' = Delivered))"
proof -
  have "list_all (healthy_step env t0 (set ids)) (map Own ticks)"
    "busy_run env cid now (map Own ticks) (m, s, b) = (Some result, m', s', b')"
    using assms(7,8) by (simp_all only: healthy_alone busy_run_alone)
  then show ?thesis by (rule healthy_busy_run [OF assms(1-6)])
qed

text \<open>
  C25: on a connection that answers, with the breaker closed and an endpoint that accepts, a run of the
  worker can be completed in time, and however its tenants and publications interleave, a complete
  timely run reports no failure and leaves every event delivered that was due and within reach, for the
  assigned tenants, whose open events decode, whatever other clients do meanwhile, as long as nobody else
  leases, settles or sweeps the outbox of those tenants and the issues others create are announced later
  than the run began, by events that decode.  Within reach are the events with fewer open
  events of their tenant in front of them than a batch has places.
\<close>

theorem healthy_run_delivers:
  assumes "faults s = []" "schema_ok (committed s)" "circuit_open_until_epoch b = 0"
    and "we_registry env = default_registry" "we_publisher env = HttpPublisher p"
    and "0 < duration_seconds (wc_lease_seconds (we_config env))"
    and "acquire_workspaces (we_config env) cid now (m, s) = (Ok ids, m1, s1)" "distinct ids"
    and "\<forall>w\<in>set ids. ready_tenant env (committed s) w"
  shows "(\<exists>ticks. list_all (healthy_tick (we_config env) t0 \<circ> snd) ticks
            \<and> fst (run_once env cid now ticks (m, s, b)) \<noteq> None)
    \<and> (\<forall>steps result m' s' b'.
         list_all (healthy_step env t0 (set ids)) steps \<longrightarrow>
         busy_run env cid now steps (m, s, b) = (Some result, m', s', b') \<longrightarrow>
           (\<exists>report. result = Ok report \<and> wr_failed report = 0 \<and> wr_tenant_failures report = 0)
           \<and> (\<forall>r\<in>set (outbox (committed s)). o_workspace_id r \<in> set ids \<and> lease_due t0 r
          \<and> next_in_line env t0 (tenant_outbox (o_workspace_id r) (committed s)) r \<longrightarrow>
                (\<exists>r'\<in>set (outbox (committed s')). o_id r' = o_id r \<and> o_status r' = Delivered)))"
proof -
  have "steady True s b" using assms(1-3) by (simp add: steady_def)
  from healthy_busy_run [OF this assms(4,5,7,8,9), of t0]
    tick_supply.run_once_can_finish [OF healthy_supply [OF assms(6), of t0], of env cid now m s b]
  show ?thesis by blast
qed

section \<open>Events the program wrote can be delivered\<close>

lemma announced_deliverable:
  assumes "leaf_ok L" "announces L r"
  shows "deliverable L (message_of_row token owner until r)"
  using assms(2)
  by (auto simp: announces_def deliverable_def message_of_row_def dispatch_version_def
      resolve_schema_version_def issue_created_no_schema_version issue_created_de_ser [OF assms(1)])

definition backlog :: "uuid \<Rightarrow> db \<Rightarrow> nat" where
  "backlog w d = length (filter (\<lambda>r. \<not> settled r) (tenant_outbox w d))"

lemma trail_ready:
  assumes "leaf_ok (we_leaf env)" "trail_kept (we_leaf env) d" "0 \<le> wc_batch_size (we_config env)"
  shows "ready_tenant env d w"
  using assms(2,3) announced_deliverable [OF assms(1)]
  by (auto simp: ready_tenant_def trail_kept_def list_all_iff tenant_outbox_def)

lemma backlog_in_line:
  assumes "o_available_at r \<le> t0" "int (backlog (o_workspace_id r) d) \<le> wc_batch_size (we_config env)" "r \<in> set (outbox d)" "\<not> settled r"
  shows "next_in_line env t0 (tenant_outbox (o_workspace_id r) d) r"
proof -
  let ?front = "filter (\<lambda>x. \<not> settled x \<and> (o_available_at x, o_id x) < (o_available_at r, o_id r))"
  have "?front rows = ?front (filter (\<lambda>x. \<not> settled x) rows)" for rows by (simp add: conj_commute)
  moreover have "length (?front (filter (\<lambda>x. \<not> settled x) (tenant_outbox (o_workspace_id r) d)))
      < backlog (o_workspace_id r) d"
    unfolding backlog_def by (rule length_filter_less [of r]) (use assms(3,4) in \<open>auto simp: set_tenant_outbox\<close>)
  ultimately show ?thesis using assms(1,2) by (simp add: next_in_line_def)
qed

section \<open>A run on the small database\<close>

definition demo_endpoint :: http_publisher where
  "demo_endpoint = \<lparr>hp_endpoint = ''http://hook'', hp_failure_threshold = 10, hp_cooldown_seconds = 30\<rparr>"

definition closed_breaker :: breaker where
  "closed_breaker = \<lparr>consecutive_failures = 0, circuit_open_until_epoch = 0\<rparr>"

definition demo_delivery_env :: worker_env where
  "demo_delivery_env = \<lparr>we_leaf = bits_leaf, we_status_text = show_nat,
     we_config = worker_config_default\<lparr>wc_workspace_ids := Some [1], wc_worker_instance_id := 7\<rparr>,
     we_publisher = HttpPublisher demo_endpoint, we_registry = default_registry\<rparr>"

lemma demo_lease: "0 < duration_seconds (wc_lease_seconds (we_config demo_delivery_env))"
  by (simp add: demo_delivery_env_def worker_config_default_def duration_seconds_def)

lemma demo_delivery_facts:
  "we_leaf demo_delivery_env = bits_leaf" "we_registry demo_delivery_env = default_registry"
  "we_publisher demo_delivery_env = HttpPublisher demo_endpoint" "hp_endpoint demo_endpoint = ''http://hook''"
  "acquire_workspaces (we_config demo_delivery_env) 0 60 (\<lparr>mem_leased = []\<rparr>, s)
     = (Ok [1], \<lparr>mem_leased = []\<rparr>, s)"
  "wc_batch_size (we_config demo_delivery_env) = 32" "circuit_open_until_epoch closed_breaker = 0"
  "wc_max_attempts (we_config demo_delivery_env) = 5"
  by (simp_all add: demo_delivery_env_def demo_endpoint_def closed_breaker_def acquire_workspaces_def
      worker_config_default_def)

lemma demo_complete_run:
  obtains ticks result m' s' b' where
    "list_all (healthy_tick (we_config demo_delivery_env) 60 \<circ> snd) ticks"
    "run_once demo_delivery_env 0 60 ticks (\<lparr>mem_leased = []\<rparr>, s, closed_breaker) = (Some result, m', s', b')"
proof -
  obtain ticks where t: "list_all (healthy_tick (we_config demo_delivery_env) 60 \<circ> snd) ticks"
    "fst (run_once demo_delivery_env 0 60 ticks (\<lparr>mem_leased = []\<rparr>, s, closed_breaker)) \<noteq> None"
    using tick_supply.run_once_can_finish [OF healthy_supply [OF demo_lease, of 60]] by blast
  then show thesis
    using that [OF t(1)] by (cases "run_once demo_delivery_env 0 60 ticks (\<lparr>mem_leased = []\<rparr>, s, closed_breaker)") auto
qed

lemma demo_pending:
  "trail_kept bits_leaf (demo_db\<lparr>outbox := [demo_row 31 50, demo_row 32 40]\<rparr>)"
  "backlog 1 (demo_db\<lparr>outbox := [demo_row 31 50, demo_row 32 40]\<rparr>) = 2"
proof -
  have "schema_ok (demo_db\<lparr>outbox := [demo_row 31 50, demo_row 32 40]\<rparr>)"
    using demo_db_ok demo_outbox_ok(1) unfolding schema_ok_def table_ok_defs exists_defs by simp
  moreover have "announces bits_leaf (demo_row i t)" for i t
    by (simp add: demo_row_def announces_created)
  ultimately show "trail_kept bits_leaf (demo_db\<lparr>outbox := [demo_row 31 50, demo_row 32 40]\<rparr>)"
    by (simp add: trail_kept_def demo_db_def empty_db_def)
  show "backlog 1 (demo_db\<lparr>outbox := [demo_row 31 50, demo_row 32 40]\<rparr>) = 2"
    by (simp add: backlog_def tenant_outbox_def settled_def)
qed

lemma demo_ready:
  "schema_ok (committed (demo_outbox [demo_row 31 50, demo_row 32 40]))"
  "\<forall>w\<in>set [1]. ready_tenant demo_delivery_env (committed (demo_outbox [demo_row 31 50, demo_row 32 40])) w"
  using trail_ready [of demo_delivery_env "committed (demo_outbox [demo_row 31 50, demo_row 32 40])" 1]
    bits_leaf_ok demo_pending demo_delivery_facts(1,6)
  by (simp_all add: trail_kept_def)

lemma demo_due:
  "lease_due 60 (demo_row 31 50)"
  "next_in_line demo_delivery_env 60 (tenant_outbox (o_workspace_id (demo_row 31 50))
     (committed (demo_outbox [demo_row 31 50, demo_row 32 40]))) (demo_row 31 50)"
  using backlog_in_line [of "demo_row 31 50" 60 "committed (demo_outbox [demo_row 31 50, demo_row 32 40])"
      demo_delivery_env] demo_pending(2) demo_delivery_facts(6)
  by (simp_all add: lease_due_def settled_def)

theorem healthy_run_delivers_witness:
  "\<exists>ticks report m' s' b'.
     run_once demo_delivery_env 0 60 ticks
       (\<lparr>mem_leased = []\<rparr>, demo_outbox [demo_row 31 50, demo_row 32 40], closed_breaker)
       = (Some (Ok report), m', s', b')
     \<and> wr_failed report = 0
     \<and> (\<exists>r\<in>set (outbox (committed s')). o_id r = 31 \<and> o_status r = Delivered)"
proof -
  let ?s = "demo_outbox [demo_row 31 50, demo_row 32 40]"
  have s: "faults ?s = []" "demo_row 31 50 \<in> set (outbox (committed ?s))" "o_workspace_id (demo_row 31 50) \<in> set [1]"
    by simp_all
  note run = healthy_run_delivers [OF s(1) demo_ready(1) demo_delivery_facts(7,2,3) demo_lease demo_delivery_facts(5) _
      demo_ready(2), of 60]
  then obtain ticks where
    t: "list_all (healthy_tick (we_config demo_delivery_env) 60 \<circ> snd) ticks"
    "fst (run_once demo_delivery_env 0 60 ticks (\<lparr>mem_leased = []\<rparr>, ?s, closed_breaker)) \<noteq> None" by auto
  then obtain result m' s' b' where r:
    "run_once demo_delivery_env 0 60 ticks (\<lparr>mem_leased = []\<rparr>, ?s, closed_breaker) = (Some result, m', s', b')"
    by (cases "run_once demo_delivery_env 0 60 ticks (\<lparr>mem_leased = []\<rparr>, ?s, closed_breaker)") auto
  have "list_all (healthy_step demo_delivery_env 60 (set [1])) (map Own ticks)"
    "busy_run demo_delivery_env 0 60 (map Own ticks) (\<lparr>mem_leased = []\<rparr>, ?s, closed_breaker) = (Some result, m', s', b')"
    using t(1) r by (simp_all only: healthy_alone busy_run_alone)
  with run s(2,3) demo_due obtain report where "result = Ok report" "wr_failed report = 0"
    "\<exists>r\<in>set (outbox (committed s')). o_id r = 31 \<and> o_status r = Delivered"
    by fastforce
  with r show ?thesis by blast
qed

theorem delivered_after_acknowledgement_witness:
  "\<exists>ticks message event status body. om_id message = 31 \<and> is_success status
     \<and> subseq [RequestSent message (''http://hook'', publish_request bits_leaf message event),
               AnswerTaken message (Responded status body)]
         (network_trace demo_delivery_env 0 60 ticks
           (\<lparr>mem_leased = []\<rparr>, demo_outbox [demo_row 31 50, demo_row 32 40], closed_breaker))"
proof -
  let ?s = "demo_outbox [demo_row 31 50, demo_row 32 40]"
  have steady: "steady True ?s closed_breaker" using demo_ready(1) demo_delivery_facts(7) by (simp add: steady_def)
  obtain ticks result m' s' b' where t:
    "list_all (healthy_tick (we_config demo_delivery_env) 60 \<circ> snd) ticks"
    "run_once demo_delivery_env 0 60 ticks (\<lparr>mem_leased = []\<rparr>, ?s, closed_breaker) = (Some result, m', s', b')"
    by (rule demo_complete_run)
  have row: "demo_row 31 50 \<in> set (outbox (committed ?s))" "o_status (demo_row 31 50) \<noteq> Delivered" by simp_all
  obtain r' where r': "r' \<in> set (outbox (committed s'))" "o_id r' = o_id (demo_row 31 50)" "o_status r' = Delivered"
    using healthy_run_once [OF steady demo_delivery_facts(2,3,5) _ demo_ready(2) t] row(1) demo_due by fastforce
  from delivered_after_acknowledgement [OF demo_ready(1) demo_delivery_facts(3) row t(2) r'] show ?thesis
    unfolding demo_delivery_facts(1,4) by fastforce
qed

end
