(* ===== verification/End_To_End.thy ===== *)
theory End_To_End
  imports Healthy_Run Adapters
begin

text \<open>
  The program end to end: from a creation over REST, through the transaction and the outbox, to the
  request the worker sends to the endpoint.
\<close>

text \<open>A creation that took effect leaves exactly its rows, on a database that keeps the trail.\<close>

lemma creation_effect:
  assumes "hashing_ok H" "trail_kept L (committed s0)"
    and "s = snd (handle_rest_create_issue L H standard_policy sd auth request s0)"
    and "committed s \<noteq> committed s0"
  shows "trail_kept L (committed s)
    \<and> outbox_row_of L (dr_outbox_id (sd_store sd)) (command_of L H sd auth request)
        (event_of_command sd (command_of L H sd auth request)) (sd_occurred_at sd) \<in> set (outbox (committed s))"
proof -
  let ?c = "command_of L H sd auth request"
  let ?e = "event_of_command sd ?c"
  note changed = rest_changed(2) [OF assms(1) assms(4)[unfolded assms(3)]]
  have s: "s = perform L (CreateIssueCall (sd_store sd) auth ?c ?e) s0"
    by (simp add: assms(3) changed)
  have "committed s = with_created_rows L (sd_store sd) ?c ?e (committed s0)"
    using assms(4) unfolding s
    by (cases rule: create_issue_cases [of L "sd_store sd" auth ?c ?e s0]) auto
  then have "outbox_row_of L (dr_outbox_id (sd_store sd)) ?c ?e (sd_occurred_at sd) \<in> set (outbox (committed s))"
    by (simp add: with_created_rows_def Let_def event_occurred)
  moreover have "trail_kept L (committed s)"
    unfolding s by (rule trail.after_call [OF _ assms(2)]) simp
  ultimately show ?thesis by blast
qed

lemma created_row_due:
  "sd_occurred_at sd \<le> t0 \<Longrightarrow> lease_due t0 (outbox_row_of L i c e (sd_occurred_at sd))"
  by (simp add: lease_due_def outbox_row_of_def)

text \<open>
  C2: the event of an issue created over REST reaches the endpoint: once the creation took effect,
  whether or not the client saw its answer, a complete timely run of a worker that is assigned the
  tenant, with no more open events than a batch takes, over a connection that answers and with an
  endpoint that accepts, posts to the endpoint exactly the event of the request, takes the answer of
  success, and leaves the outbox row delivered.
\<close>

theorem created_issue_reaches_endpoint:
  assumes "hashing_ok H" "leaf_ok (we_leaf env)" "trail_kept (we_leaf env) (committed s0)"
    and "s = snd (handle_rest_create_issue (we_leaf env) H standard_policy sd auth request s0)"
    and "committed s \<noteq> committed s0" "faults s = []" "circuit_open_until_epoch b = 0"
    and "we_registry env = default_registry" "we_publisher env = HttpPublisher p"
    and "acquire_workspaces (we_config env) cid now (m, s) = (Ok ids, m1, s1)" "distinct ids"
    and "auth_workspace_id auth \<in> set ids"
    and "int (backlog (auth_workspace_id auth) (committed s)) \<le> wc_batch_size (we_config env)"
    and "sd_occurred_at sd \<le> t0" "list_all (healthy_tick (we_config env) t0 \<circ> snd) ticks"
    and "run_once env cid now ticks (m, s, b) = (Some result, m', s', b')"
  shows "(\<exists>r\<in>set (outbox (committed s')). o_id r = dr_outbox_id (sd_store sd) \<and> o_status r = Delivered)
    \<and> (\<exists>message status body. is_success status
         \<and> subseq
             [RequestSent message (hp_endpoint p,
                JObj [(''event_type'', JStr ''issue.created.v1''),
                      (''event_id'', ser_uuid (we_leaf env) (sd_event_id sd)),
                      (''workspace_id'', ser_uuid (we_leaf env) (auth_workspace_id auth)),
                      (''event'', issue_created_ser (we_leaf env)
                         (event_of_command sd (command_of (we_leaf env) H sd auth request)))]),
              AnswerTaken message (Responded status body)]
             (network_trace env cid now ticks (m, s, b)))"
proof -
  let ?L = "we_leaf env" and ?i = "dr_outbox_id (sd_store sd)"
  let ?c = "command_of (we_leaf env) H sd auth request"
  let ?e = "event_of_command sd ?c"
  let ?r = "outbox_row_of ?L ?i ?c ?e (sd_occurred_at sd)"
  have trail: "trail_kept ?L (committed s)" and row: "?r \<in> set (outbox (committed s))"
    using creation_effect [OF assms(1,3,4,5)] by blast+
  have schema: "schema_ok (committed s)" using trail by (simp add: trail_kept_def)
  have steady: "steady True s b" using assms(6,7) schema by (simp add: steady_def)
  have ready: "\<forall>w\<in>set ids. ready_tenant env (committed s) w"
    using trail_ready [OF assms(2) trail] assms(13) by simp
  have fields: "o_id ?r = ?i" "o_workspace_id ?r = auth_workspace_id auth" "o_status ?r \<noteq> Delivered" "\<not> settled ?r"
    "o_event_id ?r = sd_event_id sd" "o_payload ?r = issue_created_ser ?L ?e"
    by (simp_all add: outbox_row_of_def event_of_command_def command_of_request_def settled_def)
  have "next_in_line env t0 (tenant_outbox (o_workspace_id ?r) (committed s)) ?r"
    using backlog_in_line [OF _ _ row fields(4), of t0 env] assms(13,14) fields(2) by (simp add: outbox_row_of_def)
  then have "\<exists>r'\<in>set (outbox (committed s')). o_id r' = o_id ?r \<and> o_status r' = Delivered"
    using healthy_run_once [OF steady assms(8,9,10,11) ready assms(15,16)] row fields(2) assms(12)
      created_row_due [OF assms(14), of ?L ?i ?c ?e] by metis
  then obtain r' where r': "r' \<in> set (outbox (committed s'))" "o_id r' = o_id ?r" "o_status r' = Delivered"
    by blast
  have uk: "unique_key o_id (outbox (committed s))" using schema by (simp add: schema_ok_def outbox_ok_def)
  obtain message event status body where
    "om_event_id message = o_event_id ?r" "om_workspace_id message = o_workspace_id ?r"
    "issue_created_de ?L (o_payload ?r) = Some event" "is_success status"
    "subseq [RequestSent message (hp_endpoint p, publish_request ?L message event),
             AnswerTaken message (Responded status body)]
       (network_trace env cid now ticks (m, s, b))"
    using traced_delivery [OF run_once_traced [OF schema assms(9,16)] uk assms(9) row fields(3) r'] by blast
  moreover from this(3) have "event = ?e"
    using issue_created_de_ser [OF assms(2)] by (simp add: fields(6))
  ultimately have "is_success status \<and> subseq
      [RequestSent message (hp_endpoint p,
         JObj [(''event_type'', JStr ''issue.created.v1''), (''event_id'', ser_uuid ?L (sd_event_id sd)),
               (''workspace_id'', ser_uuid ?L (auth_workspace_id auth)), (''event'', issue_created_ser ?L ?e)]),
       AnswerTaken message (Responded status body)] (network_trace env cid now ticks (m, s, b))"
    by (simp only: publish_request_def fields event_type_as_str.simps)
  then show ?thesis using r' fields(1) by metis
qed

lemma demo_creation:
  assumes "s = snd (handle_rest_create_issue bits_leaf demo_hashing standard_policy demo_service_draws
      demo_auth demo_request (demo_session [] demo_db))"
  shows "trail_kept bits_leaf demo_db" "faults s = []" "committed s \<noteq> demo_db" "backlog 1 (committed s) = 1"
proof -
  let ?c = "command_of bits_leaf demo_hashing demo_service_draws demo_auth demo_request"
  let ?e = "event_of_command demo_service_draws ?c"
  show trail: "trail_kept bits_leaf demo_db"
    using demo_db_ok by (simp add: trail_kept_def demo_db_def empty_db_def)
  show s: "faults s = []" "committed s \<noteq> demo_db" unfolding assms using demo_service_run by blast+
  have "s = snd (create_issue_transactional bits_leaf (sd_store demo_service_draws) demo_auth ?c ?e
      (demo_session [] demo_db))"
    using rest_changed(2) [OF demo_hashing_ok, of bits_leaf demo_service_draws demo_auth demo_request
        "demo_session [] demo_db"] s(2) assms by simp
  then have "committed s = with_created_rows bits_leaf (sd_store demo_service_draws) ?c ?e demo_db"
    using s(2) by (cases rule: create_issue_cases [of bits_leaf "sd_store demo_service_draws" demo_auth ?c ?e
          "demo_session [] demo_db"]) auto
  then show "backlog 1 (committed s) = 1"
    by (simp add: backlog_def tenant_outbox_def with_created_rows_def Let_def outbox_row_of_def settled_def
        demo_db_def empty_db_def command_of_request_def demo_auth_def)
qed

theorem created_issue_reaches_endpoint_witness:
  "\<exists>ticks message status body. is_success status
     \<and> subseq
         [RequestSent message (''http://hook'',
            JObj [(''event_type'', JStr ''issue.created.v1''), (''event_id'', ser_uuid bits_leaf 22),
                  (''workspace_id'', ser_uuid bits_leaf 1),
                  (''event'', issue_created_ser bits_leaf (event_of_command demo_service_draws
                     (command_of bits_leaf demo_hashing demo_service_draws demo_auth demo_request)))]),
          AnswerTaken message (Responded status body)]
         (network_trace demo_delivery_env 0 60 ticks (\<lparr>mem_leased = []\<rparr>,
            snd (handle_rest_create_issue bits_leaf demo_hashing standard_policy demo_service_draws
              demo_auth demo_request (demo_session [] demo_db)), closed_breaker))"
proof -
  let ?s = "snd (handle_rest_create_issue bits_leaf demo_hashing standard_policy demo_service_draws
      demo_auth demo_request (demo_session [] demo_db))"
  obtain ticks result m' s' b' where run:
    "list_all (healthy_tick (we_config demo_delivery_env) 60 \<circ> snd) ticks"
    "run_once demo_delivery_env 0 60 ticks (\<lparr>mem_leased = []\<rparr>, ?s, closed_breaker) = (Some result, m', s', b')"
    by (rule demo_complete_run)
  have draws: "sd_event_id demo_service_draws = 22" "auth_workspace_id demo_auth = 1"
    "sd_occurred_at demo_service_draws \<le> 60"
    by (simp_all add: demo_service_draws_def demo_auth_def)
  note demo = demo_creation [OF refl]
  have s: "?s = snd (handle_rest_create_issue (we_leaf demo_delivery_env) demo_hashing standard_policy
      demo_service_draws demo_auth demo_request (demo_session [] demo_db))"
    and leaf: "leaf_ok (we_leaf demo_delivery_env)"
    and trail: "trail_kept (we_leaf demo_delivery_env) (committed (demo_session [] demo_db))"
    and changed: "committed ?s \<noteq> committed (demo_session [] demo_db)"
    and tenant: "distinct [1 :: uuid]" "auth_workspace_id demo_auth \<in> set [1]"
    and fits: "int (backlog (auth_workspace_id demo_auth) (committed ?s)) \<le> wc_batch_size (we_config demo_delivery_env)"
    using demo(1,3,4) bits_leaf_ok by (simp_all add: demo_delivery_facts(1,6) draws(2))
  show ?thesis
    using conjunct2 [OF created_issue_reaches_endpoint [OF demo_hashing_ok leaf trail s changed demo(2)
        demo_delivery_facts(7,2,3,5) tenant fits draws(3) run]]
    unfolding demo_delivery_facts(1,4) draws(1,2) by blast
qed

end
