(* ===== verification/Retries.thy ===== *)
theory Retries
  imports Healthy_Run
begin

text \<open>
  Retries end: each complete timely run settles every event that was due or counts an attempt of it,
  whether the endpoint accepts, refuses or cannot be reached, as long as the text of a refusal fits its
  column, so after at most \<open>max_attempts\<close> such rounds an event is delivered or dead-lettered, whatever
  else happens to the store between the rounds within that budget.  Without the condition on the text the
  retries need not end: \<open>oversized_answer_abandons_batch\<close> in \<open>Delivery_Trace\<close>.
\<close>

section \<open>Answers that can be recorded\<close>

text \<open>
  What the condition \<open>outcome_ok False\<close> asks of an answer: a success meets it; the text the worker makes
  of any other answer has at most 4000 characters and no NUL.  A body of at most 3900 characters is short
  enough under every status text of three digits.
\<close>

lemma recordable_exact:
  "outcome_ok False (answer_outcome status_text (SendFailed error)) \<longleftrightarrow>
     text_at_most 4000 (''Transient: http publish request failed: '' @ error)"
  "outcome_ok False (answer_outcome status_text (Responded status body)) \<longleftrightarrow>
     is_success status
     \<or> text_at_most 4000 ((if is_server_error status then ''Transient'' else ''Permanent'') @ '': ''
         @ rejected_message status_text status body)"
  by (auto simp: answer_outcome_def http_finish_def publish_err_def failure_fits_def)

lemma storable_append: "storable (s @ t) \<longleftrightarrow> storable s \<and> storable t"
  by (simp add: storable_def)

lemma char_length_append: "char_length (s @ t) = char_length s + char_length t"
  by (simp add: char_length_def)

lemma short_body_recordable:
  assumes "text_at_most 20 (status_text status)" "text_at_most 3900 (case body of None \<Rightarrow> [] | Some text \<Rightarrow> text)"
  shows "outcome_ok False (answer_outcome status_text (Responded status body))"
proof -
  have "storable ''Transient''" "storable ''Permanent''" "storable '': ''"
    "storable ''http publish rejected with status ''"
    "char_length ''Transient'' = 9" "char_length ''Permanent'' = 9" "char_length '': '' = 2"
    "char_length ''http publish rejected with status '' = 34"
    by (simp_all add: storable_def char_length_def continuation_def byte_def)
  with assms show ?thesis
    by (simp only: recordable_exact rejected_message_def text_at_most_def storable_append
        char_length_append) simp
qed

section \<open>A run settles or counts\<close>

text \<open>An endpoint that gives its answers from a set \<open>A\<close>.\<close>

fun answers_in :: "http_response set \<Rightarrow> tick \<Rightarrow> bool" where
  "answers_in A (AnswerTick i response) \<longleftrightarrow> response \<in> A"
| "answers_in A _ \<longleftrightarrow> True"

lemma timely_supply:
  assumes "0 < duration_seconds (wc_lease_seconds (we_config env))"
    and "A \<noteq> {}" "\<forall>response\<in>A. outcome_ok strict (answer_outcome (we_status_text env) response)"
  shows "tick_supply (\<lambda>t. timely_tick strict env t0 t \<and> answers_in A t)"
proof
  let ?ok = "\<lambda>t. timely_tick strict env t0 t \<and> answers_in A t"
  show "\<exists>cid locked token now. ?ok (LeaseTick cid locked token now)"
    by (intro exI [of _ 0] exI [of _ "{}"] exI [of _ t0]) simp
  show "\<exists>now_epoch. ?ok (BeginTick now_epoch)" by (rule exI [of _ 0]) simp
  show "\<exists>response. ?ok (AnswerTick i response)" for i using assms(2,3) by auto
  show "\<exists>cid now roll. ?ok (MarkTick cid now roll)"
    by (intro exI [of _ 0] exI [of _ t0]) (use assms(1) in simp)
  show "\<exists>cid now1 now2. ?ok (CleanupOutboxTick cid now1 now2)"
    by (intro exI [of _ 0] exI [of _ "t0 + duration_hours (wc_delivered_retention_hours (we_config env))"]
        exI [of _ "t0 + duration_hours (wc_dead_letter_retention_hours (we_config env))"]) simp
  show "\<exists>cid now. ?ok (CleanupIdempotencyTick cid now)" by simp
qed

text \<open>
  C26: whether the endpoint accepts, refuses or cannot be reached, and whether or not the breaker is open,
  provided that the text of each failed answer fits the column of 4000 characters and holds no NUL (a
  longer one is not recorded and ends the tenant's cycle: \<open>oversized_answer_abandons_batch\<close>): on a
  connection that answers, a run of the worker can be completed in time, and however its tenants and
  publications interleave, a complete timely run reports no tenant as failed and has settled every event
  that was due and within reach of the batch, for the assigned tenants, whose open events decode, whatever
  other clients do meanwhile, as long as nobody else leases, settles or sweeps the outbox of those tenants
  and the issues others create are announced later than the run began, by events that decode: the event is
  delivered, or its attempt is counted and it is dead-lettered or, while attempts are left, waits for the
  next one.
\<close>

theorem timely_run_settles:
  assumes "faults s = []" "schema_ok (committed s)"
    and "we_registry env = default_registry" "we_publisher env = HttpPublisher p"
    and "0 < duration_seconds (wc_lease_seconds (we_config env))"
    and "A \<noteq> {}" "\<forall>response\<in>A. outcome_ok False (answer_outcome (we_status_text env) response)"
    and "acquire_workspaces (we_config env) cid now (m, s) = (Ok ids, m1, s1)" "distinct ids"
    and "\<forall>w\<in>set ids. ready_tenant env (committed s) w"
  shows "(\<exists>ticks. list_all (\<lambda>(i, t). timely_tick False env t0 t \<and> answers_in A t) ticks
            \<and> fst (run_once env cid now ticks (m, s, b)) \<noteq> None)
    \<and> (\<forall>steps result m' s' b'.
         list_all (timely_step False env t0 (set ids)) steps \<longrightarrow>
         busy_run env cid now steps (m, s, b) = (Some result, m', s', b') \<longrightarrow>
           (\<exists>report. result = Ok report \<and> wr_tenant_failures report = 0)
           \<and> (\<forall>r\<in>set (outbox (committed s)). o_workspace_id r \<in> set ids \<and> lease_due t0 r
          \<and> next_in_line env t0 (tenant_outbox (o_workspace_id r) (committed s)) r \<longrightarrow>
                (\<exists>r'\<in>set (outbox (committed s')). o_id r' = o_id r
                   \<and> (o_status r' = Delivered
                      \<or> o_attempts r' = wrap_i32 (o_attempts r + 1)
                        \<and> (o_status r' = DeadLetter
                           \<or> o_status r' = Failed \<and> o_attempts r' < wc_max_attempts (we_config env))))))"
proof -
  have steady: "steady False s b" using assms(1,2) by (simp add: steady_def)
  obtain ticks where "list_all ((\<lambda>t. timely_tick False env t0 t \<and> answers_in A t) \<circ> snd) ticks"
    "fst (run_once env cid now ticks (m, s, b)) \<noteq> None"
    using tick_supply.run_once_can_finish [OF timely_supply [OF assms(5-7)]] by blast
  then have "\<exists>ticks. list_all (\<lambda>(i, t). timely_tick False env t0 t \<and> answers_in A t) ticks
      \<and> fst (run_once env cid now ticks (m, s, b)) \<noteq> None"
    by (auto simp: list_all_iff case_prod_beta)
  with busy_run_once [OF steady assms(3,4,8,9,10), of t0] show ?thesis
    unfolding settled_by_run_def tried_def by fast
qed

section \<open>Rounds\<close>

fun creates_event :: "uuid \<Rightarrow> store_call \<Rightarrow> bool" where
  "creates_event i (CreateIssueCall draws auth c e) \<longleftrightarrow> dr_outbox_id draws = i"
| "creates_event i _ \<longleftrightarrow> False"

text \<open>
  \<open>rounds env i s n s'\<close>: from \<open>s\<close> the system got to \<open>s'\<close> with \<open>n\<close> complete timely runs for which the
  event with row \<open>i\<close> was due and within reach, among calls of other clients, and between them any store
  calls of any clients and workers (of other runs too), over any faults, whose failures respect the
  budget and which create no second row \<open>i\<close>.
\<close>

inductive rounds :: "worker_env \<Rightarrow> uuid \<Rightarrow> session \<Rightarrow> nat \<Rightarrow> session \<Rightarrow> bool" for env i s where
  start: "rounds env i s 0 s"
| call: "rounds env i s n s' \<Longrightarrow> call_failures (\<lambda>f. fc_max_attempts f \<le> wc_max_attempts (we_config env)) c \<Longrightarrow>
     \<not> creates_event i c \<Longrightarrow> rounds env i s n (perform (we_leaf env) c s')"
| round: "rounds env i s n s' \<Longrightarrow> faults s' = [] \<Longrightarrow>
     acquire_workspaces (we_config env) cid now (m, s') = (Ok ids, m1, s1) \<Longrightarrow> distinct ids \<Longrightarrow>
     \<forall>w\<in>set ids. ready_tenant env (committed s') w \<Longrightarrow>
     r \<in> set (outbox (committed s')) \<Longrightarrow> o_id r = i \<Longrightarrow> o_workspace_id r \<in> set ids \<Longrightarrow> lease_due t0 r \<Longrightarrow>
     next_in_line env t0 (tenant_outbox (o_workspace_id r) (committed s')) r \<Longrightarrow>
     list_all (timely_step False env t0 (set ids)) steps \<Longrightarrow>
     list_all (others_in (call_failures (\<lambda>f. fc_max_attempts f \<le> wc_max_attempts (we_config env)))) steps \<Longrightarrow>
     busy_run env cid now steps (m, s', b) = (Some result, m', s'', b') \<Longrightarrow>
     rounds env i s (Suc n) s''"

text \<open>The state of the event after \<open>n\<close> rounds.\<close>

definition counted :: "int \<Rightarrow> uuid \<Rightarrow> int \<Rightarrow> db \<Rightarrow> bool" where
  "counted M i k d \<longleftrightarrow>
     budget_kept M d \<and> (\<forall>r\<in>set (outbox d). o_id r = i \<longrightarrow> settled r \<or> k \<le> o_attempts r)"

lemma row_moves_attempts:
  assumes "within_budget M r" "M < 2 ^ 31" "row_moves F r r'"
  shows "o_attempts r \<le> o_attempts r'"
  using assms(3)
proof cases
  case (fail ws i f)
  then have "0 \<le> o_attempts r" "o_attempts r < M" using assms(1) by (auto simp: within_budget_def lease_held_def)
  then have "wrap_i32 (o_attempts r + 1) = o_attempts r + 1"
    using assms(2) by (intro wrap_i32_id) (simp add: in_i32_def)
  with fail show ?thesis by (simp add: failure_row_def dead_letter_row_def failed_row_def Let_def)
qed (simp_all add: leased_row_def delivered_row_def)

lemma created_row_outbox:
  assumes "r' \<in> set (outbox (call_effect L c d))" "schema_ok d" "call_failures F c"
    and "\<not> creates_event (o_id r') c"
  obtains r where "r \<in> set (outbox d)" "r' = r \<or> row_moves F r r'"
proof (cases "creates_issue c")
  case True
  then obtain draws auth cmd e where c: "c = CreateIssueCall draws auth cmd e" by (cases c) auto
  have "r' \<in> set (outbox d)"
    using assms(1,4) unfolding c
    by (cases rule: create_issue_spec_cases [of L draws auth cmd e d])
       (auto simp: with_created_rows_def Let_def outbox_row_of_def)
  then show ?thesis using that by blast
next
  case False
  obtain r where "r \<in> set (delete_where (sweeps c) (outbox d))" "r' = r \<or> row_moves F r r'"
    by (rule moves_row [OF call_moves [OF assms(2,3) False] assms(1)])
  then show ?thesis using that by (auto simp: set_delete_where)
qed

interpretation counting: store_invariant L
    "\<lambda>c. call_failures (\<lambda>f. fc_max_attempts f \<le> M) c \<and> \<not> creates_event i c" "counted M i k" for L M i k
proof
  fix c d
  assume c: "call_failures (\<lambda>f. fc_max_attempts f \<le> M) c \<and> \<not> creates_event i c" and d: "counted M i k d"
  have kept: "budget_kept M d" using d by (simp add: counted_def)
  have "settled r' \<or> k \<le> o_attempts r'" if r': "r' \<in> set (outbox (call_effect L c d))" "o_id r' = i" for r'
  proof -
    obtain r where r: "r \<in> set (outbox d)" "r' = r \<or> row_moves (\<lambda>f. fc_max_attempts f \<le> M) r r'"
      using created_row_outbox [OF r'(1), of "\<lambda>f. fc_max_attempts f \<le> M"] kept c r'(2)
      by (auto simp: budget_kept_def)
    have "settled r \<or> k \<le> o_attempts r" using d r row_moves_identity r'(2) unfolding counted_def by metis
    moreover have "o_attempts r \<le> o_attempts r'" if "r' \<noteq> r"
      using that r row_moves_attempts [of M r] kept by (auto simp: budget_kept_def list_all_iff)
    ultimately show ?thesis using r(2) settled_stuck by force
  qed
  moreover have "budget_kept M (call_effect L c d)" using budget.preserved [of M c d L] c kept by blast
  ultimately show "counted M i k (call_effect L c d)" by (simp add: counted_def)
qed

lemma busy_run_keeps_budget:
  assumes "budget_kept (wc_max_attempts (we_config env)) (committed s)"
    and "list_all (others_in (call_failures (\<lambda>f. fc_max_attempts f \<le> wc_max_attempts (we_config env)))) steps"
    and "busy_run env cid now steps (m, s, b) = (result, m', s', b')"
  shows "budget_kept (wc_max_attempts (we_config env)) (committed s')"
proof -
  let ?M = "wc_max_attempts (we_config env)" and ?P = "call_failures (\<lambda>f. fc_max_attempts f \<le> wc_max_attempts (we_config env))"
  have own: "?P c" if "own_call env T c" for T c using that by (cases c) auto
  obtain r m1 s1 where acq: "acquire_workspaces (we_config env) cid now (m, s) = (r, m1, s1)"
    by (cases "acquire_workspaces (we_config env) cid now (m, s)")
  obtain calls where "s1 = perform_all (we_leaf env) calls s" "list_all (own_call env {}) calls"
    using acquire_workspaces_call [of "we_config env" cid now m s "we_leaf env" ?M] acq by auto
  then have first: "budget_kept ?M (committed s1)"
    using budget.after_history [of ?M calls s "we_leaf env"] assms(1) own by (auto simp: list_all_iff)
  show ?thesis
  proof (cases "\<exists>ids. r = Ok ids \<and> ids \<noteq> []")
    case False
    with assms(3) first show ?thesis by (auto simp: busy_run_def acq split: sum.splits)
  next
    case True
    then obtain ids where ids: "r = Ok ids" "ids \<noteq> []" by blast
    obtain tss s2 b2 where run: "busy_tenants env steps (map (start_tenant (we_config env)) ids, s1, b) = (tss, s2, b2)"
      by (cases "busy_tenants env steps (map (start_tenant (we_config env)) ids, s1, b)")
    have "budget_kept ?M (committed s2)"
      using busy_tenants_keep [where P = ?P and I = "budget_kept ?M",
          OF run budget.store_invariant_axioms _ assms(2) first] own by blast
    moreover have "s' = s2" using assms(3) ids by (simp add: busy_run_def acq run)
    ultimately show ?thesis by simp
  qed
qed

lemma rounds_counted:
  assumes "rounds env i s n s'" "we_registry env = default_registry" "we_publisher env = HttpPublisher p"
    and "counted (wc_max_attempts (we_config env)) i k (committed s)" "k \<le> wc_max_attempts (we_config env)"
  shows "k + int n \<le> wc_max_attempts (we_config env)
    \<and> counted (wc_max_attempts (we_config env)) i (k + int n) (committed s')"
  using assms(1)
proof induction
  case start
  with assms(4,5) show ?case by simp
next
  case (call n s' c)
  then show ?case using counting.after_call [of _ c i _ s'] by blast
next
  case (round n s' cid now m ids m1 s1 r t0 steps b result m' s'' b')
  let ?M = "wc_max_attempts (we_config env)"
  have kept: "budget_kept ?M (committed s')" and due: "k + int n \<le> o_attempts r"
    using round.IH round(6,7) lease_due_open [OF round(9)] by (auto simp: counted_def)
  have budget: "0 \<le> o_attempts r" "o_attempts r < ?M"
    using kept round(6,9) by (auto simp: budget_kept_def within_budget_def list_all_iff lease_due_def)
  then have next_attempt: "wrap_i32 (o_attempts r + 1) = o_attempts r + 1"
    using kept by (intro wrap_i32_id) (simp add: in_i32_def budget_kept_def)
  have steady: "steady False s' b" using kept round(2) by (simp add: steady_def budget_kept_def)
  have kept': "budget_kept ?M (committed s'')" by (rule busy_run_keeps_budget [OF kept round(12,13)])
  have "settled_by_run False ?M r (committed s'')"
    using busy_run_once [OF steady assms(2,3) round(3,4,5,11,13)] round(6,8,9,10) by blast
  then obtain r' where r': "r' \<in> set (outbox (committed s''))" "o_id r' = i"
    "settled r' \<or> o_attempts r' = o_attempts r + 1"
    unfolding settled_by_run_def tried_def next_attempt settled_def round(7) by blast
  have "x = r'" if "x \<in> set (outbox (committed s''))" "o_id x = i" for x
    using unique_keyD [of o_id "outbox (committed s'')"] kept' r'(1,2) that
    by (simp add: budget_kept_def schema_ok_def outbox_ok_def)
  then have "counted ?M i (k + int (Suc n)) (committed s'')"
    using kept' r'(3) due by (fastforce simp: counted_def)
  with due budget(2) show ?case by simp
qed

text \<open>
  C27: retries end: with a budget of \<open>max_attempts\<close> there are at most as many rounds (complete timely
  runs of the worker on a connection that answers, with the event due and within reach and the open events
  of its tenants decoding) as the event had attempts left, whether the endpoint accepts, refuses or cannot
  be reached in them, whatever calls of any clients and workers happen between them, and whatever other
  clients do during them, short of leasing, settling or sweeping the outbox of the run's tenants or
  announcing an issue earlier than the run began; each round that does not settle the event counts one
  attempt, and after the last one it is delivered or dead-lettered.  The conditions: the text of each
  failed answer of a round fits the column of 4000 characters and holds no NUL (otherwise no attempt is
  counted: \<open>oversized_answer_abandons_batch\<close>); the rows at the start and the failures that others
  record, during and between the rounds, keep to a budget of at most \<open>max_attempts\<close> of this worker; and
  nobody creates a second row with the identifier of this one.
\<close>

theorem retries_end:
  assumes "rounds env (o_id r) s n s'" "r \<in> set (outbox (committed s))"
    and "we_registry env = default_registry" "we_publisher env = HttpPublisher p"
    and "budget_kept (wc_max_attempts (we_config env)) (committed s)"
  shows "o_attempts r + int n \<le> wc_max_attempts (we_config env)
    \<and> (\<forall>r'\<in>set (outbox (committed s')). o_id r' = o_id r \<longrightarrow>
         o_status r' = Delivered \<or> o_status r' = DeadLetter
         \<or> o_attempts r + int n \<le> o_attempts r' \<and> o_attempts r' < wc_max_attempts (we_config env))"
proof -
  let ?M = "wc_max_attempts (we_config env)"
  have "x = r" if "x \<in> set (outbox (committed s))" "o_id x = o_id r" for x
    using unique_keyD [of o_id "outbox (committed s)"] assms(2,5) that
    by (simp add: budget_kept_def schema_ok_def outbox_ok_def)
  then have "counted ?M (o_id r) (o_attempts r) (committed s)" using assms(5) by (auto simp: counted_def)
  moreover have "o_attempts r \<le> ?M" using assms(2,5) by (simp add: budget_kept_def within_budget_def list_all_iff)
  ultimately have bound: "o_attempts r + int n \<le> ?M"
    and "counted ?M (o_id r) (o_attempts r + int n) (committed s')"
    using rounds_counted [OF assms(1,3,4)] by blast+
  then have "\<forall>r'\<in>set (outbox (committed s')). within_budget ?M r'
      \<and> (o_id r' = o_id r \<longrightarrow> settled r' \<or> o_attempts r + int n \<le> o_attempts r')"
    by (simp add: counted_def budget_kept_def list_all_iff)
  then show ?thesis unfolding settled_def within_budget_def using bound by blast
qed

section \<open>A refusing endpoint on the small database\<close>

lemma demo_refusal:
  "\<forall>response\<in>{Responded 500 None}.
     outcome_ok False (answer_outcome (we_status_text demo_delivery_env) response)"
proof -
  have "outcome_ok False (answer_outcome show_nat (Responded 500 None))" by code_simp
  then show ?thesis by (simp add: demo_delivery_env_def)
qed

theorem timely_run_settles_witness:
  "\<exists>ticks report m' s' b'. list_all (\<lambda>(i, t). answers_in {Responded 500 None} t) ticks
     \<and> run_once demo_delivery_env 0 60 ticks
         (\<lparr>mem_leased = []\<rparr>, demo_outbox [demo_row 31 50, demo_row 32 40], closed_breaker)
         = (Some (Ok report), m', s', b')
     \<and> (\<exists>r\<in>set (outbox (committed s')). o_id r = 31 \<and> (o_status r = Delivered \<or> o_attempts r = 1))"
proof -
  let ?s = "demo_outbox [demo_row 31 50, demo_row 32 40]" and ?A = "{Responded 500 None}"
  have s: "faults ?s = []" "demo_row 31 50 \<in> set (outbox (committed ?s))" "o_workspace_id (demo_row 31 50) \<in> set [1]"
    by simp_all
  note run = timely_run_settles [OF s(1) demo_ready(1) demo_delivery_facts(2,3) demo_lease _ demo_refusal
      demo_delivery_facts(5) _ demo_ready(2), of 60 closed_breaker]
  then obtain ticks where
    t: "list_all (\<lambda>(i, t). timely_tick False demo_delivery_env 60 t \<and> answers_in ?A t) ticks"
    "fst (run_once demo_delivery_env 0 60 ticks (\<lparr>mem_leased = []\<rparr>, ?s, closed_breaker)) \<noteq> None" by auto
  then obtain result m' s' b' where r:
    "run_once demo_delivery_env 0 60 ticks (\<lparr>mem_leased = []\<rparr>, ?s, closed_breaker) = (Some result, m', s', b')"
    by (cases "run_once demo_delivery_env 0 60 ticks (\<lparr>mem_leased = []\<rparr>, ?s, closed_breaker)") auto
  have split: "list_all (timely_tick False demo_delivery_env 60 \<circ> snd) ticks" "list_all (\<lambda>(i, t). answers_in ?A t) ticks"
    using t(1) by (auto simp: list_all_iff)
  have busy: "list_all (timely_step False demo_delivery_env 60 (set [1])) (map Own ticks)"
    "busy_run demo_delivery_env 0 60 (map Own ticks) (\<lparr>mem_leased = []\<rparr>, ?s, closed_breaker) = (Some result, m', s', b')"
    using split(1) r by (simp_all only: timely_alone busy_run_alone)
  have "wrap_i32 1 = 1" by (simp add: wrap_i32_def)
  with run busy s(2,3) demo_due obtain report where "result = Ok report"
    "\<exists>r\<in>set (outbox (committed s')). o_id r = 31 \<and> (o_status r = Delivered \<or> o_attempts r = 1)"
    by fastforce
  with r split(2) show ?thesis by blast
qed

lemma demo_round:
  obtains s' where "rounds demo_delivery_env 31 (demo_outbox [demo_row 31 50, demo_row 32 40]) 1 s'"
proof -
  let ?s = "demo_outbox [demo_row 31 50, demo_row 32 40]"
  obtain ticks where t: "list_all ((\<lambda>t. timely_tick False demo_delivery_env 60 t \<and> answers_in {Responded 500 None} t) \<circ> snd) ticks"
    "fst (run_once demo_delivery_env 0 60 ticks (\<lparr>mem_leased = []\<rparr>, ?s, closed_breaker)) \<noteq> None"
    using tick_supply.run_once_can_finish [OF timely_supply [OF demo_lease _ demo_refusal]] by blast
  then obtain result m' s' b' where r:
    "run_once demo_delivery_env 0 60 ticks (\<lparr>mem_leased = []\<rparr>, ?s, closed_breaker) = (Some result, m', s', b')"
    by (cases "run_once demo_delivery_env 0 60 ticks (\<lparr>mem_leased = []\<rparr>, ?s, closed_breaker)") auto
  have "list_all (timely_tick False demo_delivery_env 60 \<circ> snd) ticks" using t(1) by (simp add: list_all_iff)
  then have busy: "list_all (timely_step False demo_delivery_env 60 (set [1])) (map Own ticks)"
    "busy_run demo_delivery_env 0 60 (map Own ticks) (\<lparr>mem_leased = []\<rparr>, ?s, closed_breaker) = (Some result, m', s', b')"
    using r by (simp_all only: timely_alone busy_run_alone)
  have "list_all (others_in P) (map Own ticks)" for P by (simp add: list_all_iff)
  then have "rounds demo_delivery_env 31 ?s (Suc 0) s'"
    by (intro rounds.round [OF rounds.start _ demo_delivery_facts(5) _ demo_ready(2) _ _ _ demo_due busy(1) _ busy(2)])
      simp_all
  then show thesis using that by simp
qed

theorem retries_end_witness:
  "\<exists>s'. rounds demo_delivery_env 31 (demo_outbox [demo_row 31 50, demo_row 32 40]) 1 s'
     \<and> (\<forall>r\<in>set (outbox (committed s')). o_id r = 31 \<longrightarrow>
          o_status r = Delivered \<or> o_status r = DeadLetter \<or> 1 \<le> o_attempts r \<and> o_attempts r < 5)"
proof -
  let ?s = "demo_outbox [demo_row 31 50, demo_row 32 40]"
  have row: "demo_row 31 50 \<in> set (outbox (committed ?s))" by simp
  have budget: "budget_kept (wc_max_attempts (we_config demo_delivery_env)) (committed ?s)"
    using demo_ready(1) by (simp add: budget_kept_def demo_delivery_facts(8) within_budget_def)
  obtain s' where r: "rounds demo_delivery_env 31 ?s 1 s'" by (rule demo_round)
  then have "rounds demo_delivery_env (o_id (demo_row 31 50)) ?s 1 s'" by simp
  from retries_end [OF this row demo_delivery_facts(2,3) budget] r show ?thesis
    by (auto simp: demo_delivery_facts(8))
qed

end
