(* ===== verification/Entry_Points.thy ===== *)
theory Entry_Points
  imports Transport Worker_Main Migrations
begin

text \<open>
  The entry points: the start-up of the REST and MCP servers and of the migrator, \<open>main.rs\<close> of
  \<open>dandori-api\<close>, \<open>dandori-mcp\<close> and \<open>dandori-migrate\<close> with \<open>build_issue_service\<close>, \<open>load_jwks_raw\<close> and
  \<open>PgStore::connect\<close>, and the line loop of the MCP server.  What the operating system, the network and
  the database server answer at start is the record \<open>outside\<close>; the database is its migration history
  with the catalog.
\<close>

section \<open>What the process finds outside\<close>

datatype http_document =
    NoDocument string
  | ErrorStatus string
  | Document "string + string"

record outside =
  os_env :: env_vars
  os_texts :: texts
  os_connect :: "string \<Rightarrow> db_error option"
  os_migration_error :: db_error
  os_pool :: "string \<Rightarrow> db_error option"
  os_read_file :: "string \<Rightarrow> string + string"
  os_http_get :: "string \<Rightarrow> http_document"
  os_bind :: "string \<Rightarrow> string option"

type_synonym migration_state = "string list \<times> catalog"

text \<open>\<open>std::env::var(name).context(message)?\<close>.\<close>

definition required_var :: "outside \<Rightarrow> string \<Rightarrow> anyhow + string" where
  "required_var out name =
     (case os_env out name of
        Present raw \<Rightarrow> Ok raw
      | other \<Rightarrow> Err [name @ '' is required'', var_error other])"

definition run_migrations_flag :: "outside \<Rightarrow> bool" where
  "run_migrations_flag out =
     (case env_ok (os_env out ''DANDORI_RUN_MIGRATIONS'') of
        None \<Rightarrow> False
      | Some value \<Rightarrow> eq_ignore_ascii_case value ''true'')"

section \<open>The database at start\<close>

definition migrate_database_at ::
  "outside \<Rightarrow> string \<Rightarrow> migration_state \<Rightarrow> (store_error + unit) \<times> migration_state" where
  "migrate_database_at out url st =
     (case os_connect out url of
        Some e \<Rightarrow> (Err (SeaOrm e), st)
      | None \<Rightarrow>
          (case migrate_database st of
             None \<Rightarrow> (Err (SeaOrm (os_migration_error out)), st)
           | Some st' \<Rightarrow> (Ok (), st')))"

definition PgStore_connect :: "outside \<Rightarrow> string \<Rightarrow> store_error + unit" where
  "PgStore_connect out url = (case os_pool out url of Some e \<Rightarrow> Err (Sqlx e) | None \<Rightarrow> Ok ())"

text \<open>\<open>IssueAppService::new\<close>: the service holds the store and the standard policy.\<close>

definition IssueAppService_new :: evaluator where
  "IssueAppService_new = RoleMatrix_evaluate RoleMatrix_standard"

definition build_issue_service ::
  "outside \<Rightarrow> uuid \<Rightarrow> string \<Rightarrow> bool \<Rightarrow> migration_state
    \<Rightarrow> (app_service_error + evaluator) \<times> migration_state" where
  "build_issue_service out cid database_url run_migrations st =
     (let (migrated, st') = (if run_migrations then migrate_database_at out database_url st else (Ok (), st))
      in (and_then (map_err (AppServiceError_internal cid ''migration_failed'') migrated) (\<lambda>_.
          and_then (map_err (AppServiceError_internal cid ''store_connect_failed'')
                     (PgStore_connect out database_url)) (\<lambda>_.
          Ok IssueAppService_new)), st'))"

section \<open>The authenticator at start\<close>

definition load_jwks_raw :: "outside \<Rightarrow> jwks_source \<Rightarrow> auth_error + string" where
  "load_jwks_raw out source =
     (case source of
        JwksPath path \<Rightarrow> map_err (ReadJwksPath path) (os_read_file out path)
      | JwksUrl url \<Rightarrow>
          (case os_http_get out url of
             NoDocument e \<Rightarrow> Err (FetchJwksUrl url e)
           | ErrorStatus e \<Rightarrow> Err (FetchJwksUrl url e)
           | Document text \<Rightarrow> map_err (FetchJwksUrl url) text))"

definition JwtAuthenticator_from_env ::
  "outside \<Rightarrow> bool \<Rightarrow> 'k jose \<Rightarrow> auth_error + 'k authenticator" where
  "JwtAuthenticator_from_env out debug J =
     and_then (OidcConfig_from_env debug (env_ok \<circ> os_env out)) (\<lambda>config.
       from_config J config (load_jwks_raw out (oc_jwks_source config)))"

text \<open>An authentication error in the report of \<open>main\<close>: two of them name their cause.\<close>

fun auth_error_chain :: "auth_error \<Rightarrow> anyhow" where
  "auth_error_chain (ReadJwksPath path source) = [auth_error_display (ReadJwksPath path source), source]"
| "auth_error_chain (FetchJwksUrl url source) = [auth_error_display (FetchJwksUrl url source), source]"
| "auth_error_chain error = [auth_error_display error]"

section \<open>The servers\<close>

text \<open>\<open>ApiState::new\<close> and \<open>McpState::new\<close> have the same body: the service, then the authenticator.\<close>

definition ApiState_new ::
  "outside \<Rightarrow> uuid \<Rightarrow> bool \<Rightarrow> 'k jose \<Rightarrow> string \<Rightarrow> bool \<Rightarrow> migration_state
    \<Rightarrow> (anyhow + evaluator \<times> 'k authenticator) \<times> migration_state" where
  "ApiState_new out cid debug J database_url run_migrations st =
     (let (service, st') = build_issue_service out cid database_url run_migrations st
      in (and_then (map_err (\<lambda>e. [app_error_display e]) service) (\<lambda>policy.
          and_then (map_err auth_error_chain (JwtAuthenticator_from_env out debug J)) (\<lambda>jwt.
          Ok (policy, jwt))), st'))"

definition McpState_new ::
  "outside \<Rightarrow> uuid \<Rightarrow> bool \<Rightarrow> 'k jose \<Rightarrow> string \<Rightarrow> bool \<Rightarrow> migration_state
    \<Rightarrow> (anyhow + evaluator \<times> 'k authenticator) \<times> migration_state" where
  "McpState_new out cid debug J database_url run_migrations st =
     (let (service, st') = build_issue_service out cid database_url run_migrations st
      in (and_then (map_err (\<lambda>e. [app_error_display e]) service) (\<lambda>policy.
          and_then (map_err auth_error_chain (JwtAuthenticator_from_env out debug J)) (\<lambda>jwt.
          Ok (policy, jwt))), st'))"

record 'k listening =
  li_bind :: string
  li_policy :: evaluator
  li_jwt :: "'k authenticator"

text \<open>\<open>main\<close> of \<open>dandori-api\<close> up to \<open>axum::serve\<close>, which then runs until the process is stopped.\<close>

definition api_main ::
  "outside \<Rightarrow> uuid \<Rightarrow> bool \<Rightarrow> 'k jose \<Rightarrow> migration_state \<Rightarrow> (anyhow + 'k listening) \<times> migration_state" where
  "api_main out cid debug J st =
     (case required_var out ''DANDORI_DATABASE_URL'' of
        Inl error \<Rightarrow> (Err error, st)
      | Inr database_url \<Rightarrow>
          let bind = (case env_ok (os_env out ''DANDORI_API_BIND'') of
                        None \<Rightarrow> ''127.0.0.1:3000'' | Some value \<Rightarrow> value);
              (state, st') = ApiState_new out cid debug J database_url (run_migrations_flag out) st
          in (and_then state (\<lambda>(policy, jwt).
              (case os_bind out bind of
                 Some e \<Rightarrow> Err [e]
               | None \<Rightarrow> Ok \<lparr>li_bind = bind, li_policy = policy, li_jwt = jwt\<rparr>)), st'))"

text \<open>\<open>main\<close> of \<open>dandori-migrate\<close>.\<close>

definition migrate_main :: "outside \<Rightarrow> migration_state \<Rightarrow> (anyhow + unit) \<times> migration_state" where
  "migrate_main out st =
     (case required_var out ''DANDORI_DATABASE_URL'' of
        Inl error \<Rightarrow> (Err error, st)
      | Inr database_url \<Rightarrow>
          let (result, st') = migrate_database_at out database_url st
          in (map_err (\<lambda>e. store_error_display (os_texts out) e
                # (case e of SeaOrm d \<Rightarrow> [tx_db (os_texts out) d] | _ \<Rightarrow> [])) result, st'))"

section \<open>The line loop of the MCP server\<close>

text \<open>
  What standard input brings, and for a line what its handling draws and whether the answer could be
  written to standard output.
\<close>

datatype mcp_input =
    Line string uuid service_draws "string option"
  | EndOfInput
  | ReadFailed string

text \<open>\<open>None\<close> while the loop waits for input; the lines written so far come with it.\<close>

fun mcp_loop ::
  "'k server \<Rightarrow> mcp_input list \<Rightarrow> json list \<times> session \<Rightarrow> (anyhow + unit) option \<times> json list \<times> session" where
  "mcp_loop self [] w = (None, w)"
| "mcp_loop self (EndOfInput # inputs) w = (Some (Ok ()), w)"
| "mcp_loop self (ReadFailed e # inputs) w = (Some (Err [e]), w)"
| "mcp_loop self (Line line cid sd written # inputs) (out, s) =
     (case serve_line self cid sd line s of
        (None, s') \<Rightarrow> mcp_loop self inputs (out, s')
      | (Some response, s') \<Rightarrow>
          (case written of
             Some e \<Rightarrow> (Some (Err [e]), out, s')
           | None \<Rightarrow> mcp_loop self inputs (out @ [json_rpc_response_ser response], s')))"

definition mcp_server :: "leaf \<Rightarrow> hashing \<Rightarrow> wire \<Rightarrow> 'k jose \<Rightarrow> evaluator \<times> 'k authenticator \<Rightarrow> 'k server" where
  "mcp_server L H W J state =
     \<lparr>sv_leaf = L, sv_hashing = H, sv_wire = W, sv_policy = fst state, sv_jose = J, sv_jwt = snd state\<rparr>"

definition mcp_main ::
  "outside \<Rightarrow> uuid \<Rightarrow> bool \<Rightarrow> leaf \<Rightarrow> hashing \<Rightarrow> wire \<Rightarrow> 'k jose \<Rightarrow> mcp_input list \<Rightarrow> migration_state \<Rightarrow> session
    \<Rightarrow> (anyhow + unit) option \<times> json list \<times> migration_state \<times> session" where
  "mcp_main out cid debug L H W J inputs st s =
     (case required_var out ''DANDORI_DATABASE_URL'' of
        Inl error \<Rightarrow> (Some (Err error), [], st, s)
      | Inr database_url \<Rightarrow>
          (case McpState_new out cid debug J database_url (run_migrations_flag out) st of
             (Inl error, st') \<Rightarrow> (Some (Err error), [], st', s)
           | (Inr state, st') \<Rightarrow>
               let (outcome, written, s') = mcp_loop (mcp_server L H W J state) inputs ([], s)
               in (outcome, written, st', s')))"

section \<open>When a server starts\<close>

definition bind_address :: "outside \<Rightarrow> string" where
  "bind_address out =
     (case env_ok (os_env out ''DANDORI_API_BIND'') of None \<Rightarrow> ''127.0.0.1:3000'' | Some value \<Rightarrow> value)"

lemma build_issue_service_Ok:
  "build_issue_service out cid url run st = (Ok policy, st') \<longleftrightarrow>
     policy = IssueAppService_new \<and> os_pool out url = None
     \<and> (if run then os_connect out url = None \<and> migrate_database st = Some st' else st' = st)"
  by (auto simp: build_issue_service_def migrate_database_at_def PgStore_connect_def result_simps Let_def
      split: option.splits)

lemma authenticator_Ok:
  "JwtAuthenticator_from_env out debug J = Ok jwt \<longleftrightarrow>
     (\<exists>config raw keyset. OidcConfig_from_env debug (env_ok \<circ> os_env out) = Ok config
        \<and> load_jwks_raw out (oc_jwks_source config) = Ok raw \<and> parse_jwks J raw = Ok keyset
        \<and> jwt = \<lparr>au_issuer = oc_issuer config, au_audience = oc_audience config,
                 au_allowed_algorithms = oc_allowed_algorithms config, au_keyset = keyset\<rparr>)"
  by (auto simp: JwtAuthenticator_from_env_def from_config_def result_simps)

text \<open>
  The REST server starts exactly when the database is configured and reachable, the migrations it
  was asked to run went through, the token issuer is configured and its published keys load and parse,
  and the address is free; it then serves under the standard policy with exactly that authenticator, and
  the schema is the migrated one if migrations were asked for, and otherwise untouched.
\<close>

theorem api_starts_exactly:
  "api_main out cid debug J st = (Ok l, st') \<longleftrightarrow>
     (\<exists>url config raw keyset.
        os_env out ''DANDORI_DATABASE_URL'' = Present url \<and> os_pool out url = None
        \<and> (if run_migrations_flag out then os_connect out url = None \<and> migrate_database st = Some st' else st' = st)
        \<and> OidcConfig_from_env debug (env_ok \<circ> os_env out) = Ok config
        \<and> load_jwks_raw out (oc_jwks_source config) = Ok raw \<and> parse_jwks J raw = Ok keyset
        \<and> os_bind out (bind_address out) = None
        \<and> l = \<lparr>li_bind = bind_address out, li_policy = standard_policy,
               li_jwt = \<lparr>au_issuer = oc_issuer config, au_audience = oc_audience config,
                         au_allowed_algorithms = oc_allowed_algorithms config, au_keyset = keyset\<rparr>\<rparr>)"
proof (cases "os_env out ''DANDORI_DATABASE_URL''")
  case (Present url)
  have "api_main out cid debug J st = (Ok l, st') \<longleftrightarrow>
      (\<exists>policy jwt. build_issue_service out cid url (run_migrations_flag out) st = (Ok policy, st')
         \<and> JwtAuthenticator_from_env out debug J = Ok jwt \<and> os_bind out (bind_address out) = None
         \<and> l = \<lparr>li_bind = bind_address out, li_policy = policy, li_jwt = jwt\<rparr>)"
    by (auto simp: api_main_def required_var_def Present ApiState_new_def bind_address_def Let_def result_simps
        split: prod.splits option.splits)
  then show ?thesis
    unfolding build_issue_service_Ok authenticator_Ok IssueAppService_new_def using Present by auto
qed (simp_all add: api_main_def required_var_def)

text \<open>What the servers refuse and the worker takes: the flag of the servers is only the word \<open>true\<close>.\<close>

lemma run_flag_grammars:
  assumes "os_env out ''DANDORI_RUN_MIGRATIONS'' = Present ''1''"
  shows "run_migrations_flag out = False"
    and "parse_env_bool T (os_env out) ''DANDORI_RUN_MIGRATIONS'' False = Ok True"
proof -
  have lower: "to_ascii_lowercase ''1'' = ''1''" "to_ascii_lowercase ''true'' = ''true''" by code_simp+
  show "run_migrations_flag out = False"
    and "parse_env_bool T (os_env out) ''DANDORI_RUN_MIGRATIONS'' False = Ok True"
    using assms lower
    by (simp_all add: run_migrations_flag_def parse_env_bool_def read_env_def parse_bool_def eq_ignore_ascii_case_def)
qed

section \<open>Whom a running server lets in\<close>

text \<open>The authenticator after its refresh task has seen these outcomes of loading the document again.\<close>

definition refreshed ::
  "'k jose \<Rightarrow> jwks_refresh_config \<Rightarrow> load_outcome list \<Rightarrow> 'k authenticator \<Rightarrow> 'k authenticator" where
  "refreshed J refresh loads jwt =
     jwt\<lparr>au_keyset := rs_keyset (refresh_turns J refresh loads (au_keyset jwt))\<rparr>"

text \<open>
  One reload: the document at the configured source as the outside then is, \<open>None\<close> when the time is up
  before it answers.  The refresh task runs on the source and the delays of the configuration the server
  started with.
\<close>

definition reload :: "jwks_source \<Rightarrow> outside option \<Rightarrow> load_outcome" where
  "reload source later =
     (case later of
        None \<Rightarrow> LoadTimedOut
      | Some out \<Rightarrow>
          (case load_jwks_raw out source of Inl error \<Rightarrow> LoadFailed error | Inr raw \<Rightarrow> Loaded raw))"

definition running_authenticator ::
  "outside \<Rightarrow> bool \<Rightarrow> 'k jose \<Rightarrow> outside option list \<Rightarrow> 'k authenticator \<Rightarrow> 'k authenticator" where
  "running_authenticator out debug J later jwt =
     (case OidcConfig_from_env debug (env_ok \<circ> os_env out) of
        Inl error \<Rightarrow> jwt
      | Inr config \<Rightarrow> refreshed J (oc_jwks_refresh config) (map (reload (oc_jwks_source config)) later) jwt)"

lemma refreshed_origin:
  assumes "parse_jwks J first = Ok keyset"
  obtains raw where "parse_jwks J raw = Ok (rs_keyset (refresh_turns J refresh loads keyset))"
    "raw = first \<or> Loaded raw \<in> set loads"
proof -
  have "\<exists>raw. parse_jwks J raw = Ok (rs_keyset (refresh_turns J refresh loads keyset))
      \<and> (raw = first \<or> Loaded raw \<in> set loads)"
  proof (induction loads rule: rev_induct)
    case Nil
    then show ?case using assms by (simp add: refresh_turns_def)
  next
    case (snoc x loads)
    let ?st = "refresh_turns J refresh loads keyset"
    have "rs_keyset (refresh_turn J refresh x ?st) = rs_keyset ?st
        \<or> (\<exists>raw. x = Loaded raw \<and> parse_jwks J raw = Ok (rs_keyset (refresh_turn J refresh x ?st)))"
      by (auto simp: refresh_turn_def Let_def split: load_outcome.splits sum.splits)
    moreover have "refresh_turns J refresh (loads @ [x]) keyset = refresh_turn J refresh x ?st"
      by (simp add: refresh_turns_def)
    ultimately show ?case using snoc.IH by (simp add: insert_absorb) (metis (no_types))
  qed
  then show thesis using that by blast
qed

lemma api_main_authenticator:
  assumes "api_main out cid debug J st = (Ok l, st')"
  shows "JwtAuthenticator_from_env out debug J = Ok (li_jwt l)"
  using assms
  by (auto simp: api_main_def ApiState_new_def Let_def result_simps split: sum.splits prod.splits option.splits)

text \<open>Where the environment says the keys are: exactly one of the two variables is set.\<close>

definition keys_published_at :: "outside \<Rightarrow> jwks_source \<Rightarrow> bool" where
  "keys_published_at out source \<longleftrightarrow>
     (case source of
        JwksPath path \<Rightarrow> os_env out ''DANDORI_OIDC_JWKS_PATH'' = Present path
          \<and> (\<forall>url. os_env out ''DANDORI_OIDC_JWKS_URL'' \<noteq> Present url)
      | JwksUrl url \<Rightarrow> os_env out ''DANDORI_OIDC_JWKS_URL'' = Present url
          \<and> (\<forall>path. os_env out ''DANDORI_OIDC_JWKS_PATH'' \<noteq> Present path))"

lemma env_ok_Some: "env_ok v = Some x \<longleftrightarrow> v = Present x"
  by (cases v) auto

lemma env_ok_None: "env_ok v = None \<longleftrightarrow> (\<forall>x. v \<noteq> Present x)"
  by (cases v) auto

lemma configured_variables:
  assumes "OidcConfig_from_env debug (env_ok \<circ> os_env out) = Ok config"
  shows "os_env out ''DANDORI_OIDC_ISSUER'' = Present (oc_issuer config)"
    "os_env out ''DANDORI_OIDC_AUDIENCE'' = Present (oc_audience config)"
    "keys_published_at out (oc_jwks_source config)"
  using assms
  by (auto simp: OidcConfig_from_env_def result_simps env_ok_Some env_ok_None keys_published_at_def
      split: option.splits)

lemma reload_Loaded:
  "reload source later = Loaded raw \<longleftrightarrow> (\<exists>out. later = Some out \<and> load_jwks_raw out source = Ok raw)"
  by (auto simp: reload_def split: option.splits sum.splits)

text \<open>
  C30: unless the environment sets the development profile, a token that a running release server
  accepts, however often its keys were reloaded, was signed under an asymmetric algorithm, and verified
  for the configured issuer and audience with a key of a document that the source its environment
  configures gave it at the start or at a later reload.  (In the development profile a configured
  shared-secret algorithm is admitted.)
\<close>

theorem running_server_verifies:
  assumes "api_main out cid False J st = (Ok l, st')"
    and "env_ok (os_env out ''DANDORI_PROFILE'') \<noteq> Some ''dev''"
    and "authenticate_token L J (running_authenticator out False J later (li_jwt l)) token = Ok claims"
  shows "\<exists>issuer audience source raw jwks jwk key header c.
    os_env out ''DANDORI_OIDC_ISSUER'' = Present issuer \<and> os_env out ''DANDORI_OIDC_AUDIENCE'' = Present audience
    \<and> keys_published_at out source
    \<and> (load_jwks_raw out source = Ok raw \<or> (\<exists>out'. Some out' \<in> set later \<and> load_jwks_raw out' source = Ok raw))
    \<and> jose_jwk_set J raw = Ok jwks \<and> jwk \<in> set jwks \<and> jose_from_jwk J jwk = Ok key
    \<and> jose_decode_header J token = Ok header \<and> \<not> symmetric (th_alg header)
    \<and> jose_decode J token key \<lparr>jv_algorithm = th_alg header, jv_issuer = issuer, jv_audience = audience\<rparr> = Ok c
    \<and> uuid_parse L (jc_sub c) = Ok (ac_actor_id claims)
    \<and> uuid_parse L (jc_workspace_id c) = Ok (ac_workspace_id claims)"
proof -
  let ?env = "env_ok \<circ> os_env out"
  obtain config first keyset where start: "OidcConfig_from_env False ?env = Ok config"
    "load_jwks_raw out (oc_jwks_source config) = Ok first" "parse_jwks J first = Ok keyset"
    "li_jwt l = \<lparr>au_issuer = oc_issuer config, au_audience = oc_audience config,
       au_allowed_algorithms = oc_allowed_algorithms config, au_keyset = keyset\<rparr>"
    using api_main_authenticator [OF assms(1)] unfolding authenticator_Ok by blast
  let ?source = "oc_jwks_source config"
  let ?keys = "rs_keyset (refresh_turns J (oc_jwks_refresh config) (map (reload ?source) later) keyset)"
  obtain raw where raw: "parse_jwks J raw = Ok ?keys" "raw = first \<or> Loaded raw \<in> set (map (reload ?source) later)"
    by (rule refreshed_origin [OF start(3)])
  have "Loaded raw \<in> set (map (reload ?source) later) \<longleftrightarrow>
      (\<exists>out'. Some out' \<in> set later \<and> load_jwks_raw out' ?source = Ok raw)"
    using reload_Loaded [of ?source _ raw] by (force simp: image_iff eq_commute [of "Loaded raw"])
  with raw(2) start(2) have origin: "load_jwks_raw out ?source = Ok raw
      \<or> (\<exists>out'. Some out' \<in> set later \<and> load_jwks_raw out' ?source = Ok raw)" by blast
  have asymmetric: "\<not> symmetric a" if "a \<in> set (oc_allowed_algorithms config)" for a
    using release_config_asymmetric [OF start(1)] assms(2) that by (simp add: list_all_iff)
  have now: "running_authenticator out False J later (li_jwt l) =
      \<lparr>au_issuer = oc_issuer config, au_audience = oc_audience config,
       au_allowed_algorithms = oc_allowed_algorithms config, au_keyset = ?keys\<rparr>"
    by (simp add: running_authenticator_def start(1,4) refreshed_def)
  obtain jwks jwk key header c where token: "jose_jwk_set J raw = Ok jwks" "jwk \<in> set jwks"
    "jose_from_jwk J jwk = Ok key" "jose_decode_header J token = Ok header"
    "th_alg header \<in> set (oc_allowed_algorithms config)"
    "jose_decode J token key \<lparr>jv_algorithm = th_alg header, jv_issuer = oc_issuer config,
       jv_audience = oc_audience config\<rparr> = Ok c"
    "uuid_parse L (jc_sub c) = Ok (ac_actor_id claims)"
    "uuid_parse L (jc_workspace_id c) = Ok (ac_workspace_id claims)"
    using authenticated_origin [OF raw(1) now assms(3)] by blast
  then show ?thesis using configured_variables [OF start(1)] origin asymmetric [OF token(5)] by blast
qed

definition demo_outside :: outside where
  "demo_outside =
     \<lparr>os_env = (\<lambda>name.
        if name = ''DANDORI_DATABASE_URL'' then Present ''postgres://db''
        else if name = ''DANDORI_OIDC_ISSUER'' then Present ''iss''
        else if name = ''DANDORI_OIDC_AUDIENCE'' then Present ''aud''
        else if name = ''DANDORI_OIDC_JWKS_PATH'' then Present ''/etc/jwks.json''
        else NotPresent),
      os_texts = demo_texts, os_connect = (\<lambda>url. None), os_migration_error = ConnectionFault,
      os_pool = (\<lambda>url. None), os_read_file = (\<lambda>path. Ok ''keys''),
      os_http_get = (\<lambda>url. NoDocument ''offline''), os_bind = (\<lambda>address. None)\<rparr>"

text \<open>A reload that times out, one that finds the same keys, one that finds garbage.\<close>

definition demo_reloads :: "outside option list" where
  "demo_reloads = [None, Some demo_outside, Some (demo_outside\<lparr>os_read_file := \<lambda>path. Ok ''garbage''\<rparr>)]"

theorem running_server_verifies_witness:
  "\<exists>l st'. api_main demo_outside 5 False demo_jose ([], empty_catalog) = (Ok l, st')
     \<and> authenticate_token bits_leaf demo_jose
         (running_authenticator demo_outside False demo_jose demo_reloads (li_jwt l)) ''t''
       = Ok \<lparr>ac_actor_id = 9, ac_workspace_id = 1\<rparr>
     \<and> (\<exists>header source. jose_decode_header demo_jose ''t'' = Ok header \<and> \<not> symmetric (th_alg header)
          \<and> keys_published_at demo_outside source)"
proof -
  let ?keys = "\<lparr>ks_keys = [(''k1'', \<lparr>je_decoding_key = 1, je_algorithm = Some RS256\<rparr>)], ks_fallback_key = None\<rparr>"
  let ?jwt = "\<lparr>au_issuer = ''iss'', au_audience = ''aud'',
    au_allowed_algorithms = default_runtime_allowed_algorithms, au_keyset = ?keys\<rparr>"
  let ?l = "\<lparr>li_bind = ''127.0.0.1:3000'', li_policy = standard_policy, li_jwt = ?jwt\<rparr>"
  let ?config = "\<lparr>oc_issuer = ''iss'', oc_audience = ''aud'', oc_jwks_source = JwksPath ''/etc/jwks.json'',
    oc_allowed_algorithms = default_runtime_allowed_algorithms, oc_jwks_refresh = jwks_refresh_default\<rparr>"
  let ?loads = "[LoadTimedOut, Loaded ''keys'', Loaded ''garbage'']"
  have parsed: "parse_jwks demo_jose ''keys'' = Ok ?keys" "\<not> is_ok (parse_jwks demo_jose ''garbage'')"
    by (simp_all add: parse_jwks_def demo_jose_def try_from_jwk_def)
  have config: "OidcConfig_from_env False (env_ok \<circ> os_env demo_outside) = Ok ?config"
    by (simp add: demo_outside_def OidcConfig_from_env_def parse_env_u64_def jwks_refresh_default_def)
  have run: "api_main demo_outside 5 False demo_jose ([], empty_catalog) = (Ok ?l, [], empty_catalog)"
    by (simp add: api_main_def required_var_def demo_outside_def run_migrations_flag_def ApiState_new_def
        build_issue_service_def PgStore_connect_def JwtAuthenticator_from_env_def OidcConfig_from_env_def
        parse_env_u64_def from_config_def load_jwks_raw_def parsed IssueAppService_new_def)
  have loads: "map (reload (JwksPath ''/etc/jwks.json'')) demo_reloads = ?loads"
    by (simp add: demo_reloads_def reload_def load_jwks_raw_def demo_outside_def)
  have "rs_keyset (refresh_turns demo_jose jwks_refresh_default ?loads ?keys) = ?keys"
    using parsed by (auto simp: refresh_turns_def refresh_turn_def Let_def split: sum.splits)
  then have now: "running_authenticator demo_outside False demo_jose demo_reloads ?jwt = ?jwt"
    by (simp add: running_authenticator_def config refreshed_def loads)
  have accepted: "authenticate_token bits_leaf demo_jose
      (running_authenticator demo_outside False demo_jose demo_reloads ?jwt) ''t''
      = Ok \<lparr>ac_actor_id = 9, ac_workspace_id = 1\<rparr>"
    unfolding now by (simp add: authenticate_token_def demo_jose_def select_key_def guard_err_def
        leaf_uuid_parse [OF bits_leaf_ok] default_runtime_allowed_algorithms_def)
  have "\<exists>header source. jose_decode_header demo_jose ''t'' = Ok header \<and> \<not> symmetric (th_alg header)
      \<and> keys_published_at demo_outside source"
    using running_server_verifies [OF run, of bits_leaf demo_reloads "''t''"] accepted
    by (auto simp: demo_outside_def)
  with run accepted show ?thesis by (intro exI [of _ ?l]) auto
qed

section \<open>What the MCP server answers\<close>

text \<open>
  An input the loop goes on after, and the lines that have an answer up to the first other one: the end
  of the input, a failed read, or an answer that could not be written.
\<close>

fun passes :: "mcp_input \<Rightarrow> bool" where
  "passes (Line line cid sd written) \<longleftrightarrow> blank line \<or> written = None"
| "passes EndOfInput \<longleftrightarrow> False"
| "passes (ReadFailed e) \<longleftrightarrow> False"

fun line_text :: "mcp_input \<Rightarrow> string" where
  "line_text (Line line cid sd written) = line"
| "line_text EndOfInput = []"
| "line_text (ReadFailed e) = []"

definition answered :: "mcp_input list \<Rightarrow> string list" where
  "answered inputs = filter (\<lambda>line. \<not> blank line) (map line_text (takeWhile passes inputs))"

definition answers :: "'k server \<Rightarrow> string \<Rightarrow> json \<Rightarrow> bool" where
  "answers self line reply \<longleftrightarrow>
     (\<exists>response. reply = json_rpc_response_ser response \<and> jp_jsonrpc response = ''2.0''
        \<and> jp_id response = (case request_from_str self line of Some request \<Rightarrow> jq_id request | None \<Rightarrow> JNull)
        \<and> (jp_result response = None) = (jp_error response \<noteq> None))"

lemma serve_line_answers:
  assumes "serve_line self cid sd line s = (Some response, s')"
  shows "answers self line (json_rpc_response_ser response)"
proof (cases "request_from_str self line")
  case None
  then show ?thesis
    using assms
    by (auto simp: serve_line_def answers_def invalid_request_def rpc_error_def split: if_splits
        intro!: exI [of _ response])
next
  case (Some request)
  then show ?thesis
    using assms rpc_reply_well_formed [of self cid sd request s]
    by (auto simp: serve_line_def answers_def split: if_splits prod.splits intro!: exI [of _ response])
qed

lemma serve_line_None: "fst (serve_line self cid sd line s) = None \<longleftrightarrow> blank line"
  by (auto simp: serve_line_def split: option.splits prod.splits)

text \<open>
  C33: the MCP server writes, for the lines it takes that are not blank and in their order, exactly one
  answer each: a JSON-RPC 2.0 response with the identifier of the line's request, null when the line is
  no request, and with either a result or an error.  It goes on until its input ends or fails or an
  answer cannot be written, and ends in success exactly when the input ends.
\<close>

theorem mcp_answers_every_line:
  "case mcp_loop self inputs (out, s) of (outcome, out', s') \<Rightarrow>
     (\<exists>replies. out' = out @ replies \<and> list_all2 (answers self) (answered inputs) replies)
     \<and> (outcome = None) = (dropWhile passes inputs = [])
     \<and> (outcome = Some (Ok ())) = (\<exists>rest. dropWhile passes inputs = EndOfInput # rest)"
proof (induction self inputs "(out, s)" arbitrary: out s rule: mcp_loop.induct)
  case (4 self line cid sd written inputs out s)
  obtain reply s' where served: "serve_line self cid sd line s = (reply, s')" by fastforce
  show ?case
  proof (cases reply)
    case None
    then have "blank line" using serve_line_None [of self cid sd line s] served by simp
    with None show ?thesis using 4(1) [OF served [symmetric] None] by (simp add: served answered_def)
  next
    case (Some response)
    then have nonblank: "\<not> blank line" using serve_line_None [of self cid sd line s] served by simp
    have answer: "answers self line (json_rpc_response_ser response)"
      by (rule serve_line_answers [OF served [unfolded Some]])
    show ?thesis
    proof (cases written)
      case None
      then show ?thesis
        using 4(2) [OF served [symmetric] Some None] nonblank answer
        by (fastforce simp: served Some answered_def split: prod.splits)
    qed (simp add: served Some answered_def nonblank)
  qed
qed (simp_all add: answered_def)

text \<open>Bringing the schema up again, from whatever entry point, changes nothing.\<close>

lemma migrate_twice:
  assumes "migrate_database st = Some st'"
  shows "migrate_database st' = Some st'"
proof -
  obtain a c a' c' where "st = (a, c)" "st' = (a', c')" by (cases st; cases st')
  then show ?thesis
    using assms run_up_applied [of migrations a c a' c'] run_up_again [of migrations a' c']
    by (simp add: migrate_database_def)
qed

lemma migrate_at_settled:
  "migrate_database st = Some st \<Longrightarrow> snd (migrate_database_at out url st) = st"
  by (auto simp: migrate_database_at_def split: option.splits)

theorem restart_keeps_schema:
  assumes "migrate_main out st = (Ok (), st')"
  shows "snd (migrate_main out2 st') = st'"
    and "snd (api_main out2 cid debug J st') = st'"
    and "fst (snd (snd (mcp_main out2 cid debug L H W J inputs st' s))) = st'"
proof -
  have "migrate_database st = Some st'"
    using assms
    by (auto simp: migrate_main_def migrate_database_at_def Let_def result_simps split: sum.splits option.splits prod.splits)
  note settled = migrate_at_settled [OF migrate_twice [OF this]]
  have build: "snd (build_issue_service o' cid url run st') = st'" for o' url run
    using settled [of o' url] by (auto simp: build_issue_service_def Let_def split: prod.splits)
  show "snd (migrate_main out2 st') = st'"
    using settled
    by (cases "required_var out2 ''DANDORI_DATABASE_URL''") (simp_all add: migrate_main_def case_prod_beta)
  show "snd (api_main out2 cid debug J st') = st'"
    using build
    by (cases "required_var out2 ''DANDORI_DATABASE_URL''")
      (simp_all add: api_main_def ApiState_new_def case_prod_beta Let_def)
  show "fst (snd (snd (mcp_main out2 cid debug L H W J inputs st' s))) = st'"
    using build
    by (cases "required_var out2 ''DANDORI_DATABASE_URL''")
      (simp_all add: mcp_main_def McpState_new_def case_prod_beta Let_def split: sum.splits prod.splits)
qed

end
