(* ===== verification/Test_Support.thy ===== *)
theory Test_Support
  imports Issue_Theorems Store_Guarantees Worker_Publish Tenant_Isolation Tenant_Store
begin

text \<open>
  The harness of the integration tests, the crate \<open>dandori-test-support\<close>: the seeded database, the
  factories of commands and events, and the publishers that stand in for a remote endpoint.  The
  role of the tests is in \<open>Row_Security\<close>, the container and the connections are not modelled: the harness
  seeds as the superuser, whom every row policy admits, so each row is inserted under its own workspace.  What the factories draw
  (\<open>Uuid::now_v7\<close>, the clock) is an argument.
\<close>

section \<open>The seeded database\<close>

record test_database =
  td_workspace_a :: uuid
  td_workspace_b :: uuid
  td_workflow_a :: uuid
  td_workflow_b :: uuid
  td_project_a :: uuid
  td_project_b :: uuid

definition workflow_version_checks :: "workflow_version_row \<Rightarrow> bool" where
  "workflow_version_checks r \<longleftrightarrow> text_between 1 200 (wv_name r) \<and> text_between 1 128 (wv_checksum r)"

definition insert_workflow_version_row :: "uuid option \<Rightarrow> workflow_version_row \<Rightarrow> db \<Rightarrow> db_error + db" where
  "insert_workflow_version_row setting r d =
     (if \<not> tenant_visible setting (wv_workspace_id r) then Err RlsViolation
      else if \<not> workflow_version_checks r then Err CheckViolation
      else if row_exists (\<lambda>x. wv_id x = wv_id r
                \<or> wv_workspace_id x = wv_workspace_id r \<and> wv_name x = wv_name r \<and> wv_version x = wv_version r)
              (workflow_versions d) then Err UniqueViolation
      else if \<not> workspace_exists d (wv_workspace_id r) then Err ForeignKeyViolation
      else Ok (d\<lparr>workflow_versions := workflow_versions d @ [r]\<rparr>))"

definition seed_workspace :: "timestamp \<Rightarrow> uuid \<Rightarrow> string \<Rightarrow> db \<Rightarrow> db_error + db" where
  "seed_workspace now workspace name =
     insert_workspace_row (Some workspace)
       \<lparr>w_id = workspace, w_name = name, w_shard_bucket = shard_bucket_for workspace, w_row_version = 0,
        w_created_at = now, w_updated_at = now\<rparr>"

definition seed_workflow :: "timestamp \<Rightarrow> uuid \<Rightarrow> uuid \<Rightarrow> string \<Rightarrow> db \<Rightarrow> db_error + db" where
  "seed_workflow now workflow workspace checksum =
     insert_workflow_version_row (Some workspace)
       \<lparr>wv_id = workflow, wv_workspace_id = workspace, wv_name = ''default'', wv_version = 1,
        wv_checksum = checksum, wv_states = JArr [], wv_transitions = JArr [], wv_created_at = now\<rparr>"

definition seed_project :: "timestamp \<Rightarrow> uuid \<Rightarrow> uuid \<Rightarrow> string \<Rightarrow> uuid \<Rightarrow> db \<Rightarrow> db_error + db" where
  "seed_project now project workspace name workflow =
     insert_project_row (Some workspace)
       \<lparr>p_id = project, p_workspace_id = workspace, p_name = name, p_workflow_version_id = workflow,
        p_row_version = 0, p_created_at = now, p_updated_at = now\<rparr>"

text \<open>
  The seeding of \<open>setup_database\<close>, on the migrated and empty database: three statements, of two rows
  each, that must all succeed.
\<close>

definition setup_database :: "timestamp \<Rightarrow> test_database \<Rightarrow> db \<Rightarrow> db_error + db" where
  "setup_database now ids d =
     and_then (seed_workspace now (td_workspace_a ids) ''ws-a'' d) (\<lambda>d.
     and_then (seed_workspace now (td_workspace_b ids) ''ws-b'' d) (\<lambda>d.
     and_then (seed_workflow now (td_workflow_a ids) (td_workspace_a ids) ''sha256:a'' d) (\<lambda>d.
     and_then (seed_workflow now (td_workflow_b ids) (td_workspace_b ids) ''sha256:b'' d) (\<lambda>d.
     and_then (seed_project now (td_project_a ids) (td_workspace_a ids) ''project-a'' (td_workflow_a ids) d) (\<lambda>d.
     seed_project now (td_project_b ids) (td_workspace_b ids) ''project-b'' (td_workflow_b ids) d)))))"

section \<open>Commands and events\<close>

text \<open>\<open>None\<close> is the panic of \<open>expect\<close> on a key that does not validate.\<close>

definition make_create_issue_command ::
  "leaf \<Rightarrow> uuid \<Rightarrow> uuid \<Rightarrow> uuid \<Rightarrow> uuid \<Rightarrow> uuid \<Rightarrow> string \<Rightarrow> create_issue_command option" where
  "make_create_issue_command L actor workspace_id project_id issue_id command_id idempotency_key =
     (case IdempotencyKey_new idempotency_key of
        Inl error \<Rightarrow> None
      | Inr key \<Rightarrow> Some
          \<lparr>ci_command_id = command_id, ci_idempotency_key = key,
           ci_request_fingerprint = ''fingerprint:'' @ uuid_str L workspace_id @ '':''
             @ uuid_str L project_id @ '':'' @ idempotency_key,
           ci_issue_id = issue_id, ci_workspace_id = workspace_id, ci_project_id = project_id,
           ci_milestone_id = None, ci_title = ''Ship phase 1'',
           ci_description = Some ''integration-test'', ci_priority = High, ci_actor_id = actor\<rparr>)"

definition make_issue_created_event ::
  "uuid \<Rightarrow> timestamp \<Rightarrow> create_issue_command \<Rightarrow> issue_created_event" where
  "make_issue_created_event event_id now command =
     \<lparr>ice_event_id = event_id, ice_issue_id = ci_issue_id command,
      ice_workspace_id = ci_workspace_id command, ice_project_id = ci_project_id command,
      ice_milestone_id = ci_milestone_id command, ice_actor_id = ci_actor_id command,
      ice_occurred_at = now, ice_title = ci_title command, ice_description = ci_description command,
      ice_priority = ci_priority command\<rparr>"

definition test_auth_context :: "uuid \<Rightarrow> uuid \<Rightarrow> auth_context" where
  "test_auth_context workspace_id actor_id =
     \<lparr>auth_workspace_id = workspace_id, auth_actor_id = actor_id\<rparr>"

section \<open>Publishers\<close>

definition AlwaysOkPublisher_publish :: publish_result where
  "AlwaysOkPublisher_publish = Ok ()"

definition TransientFailurePublisher_publish :: publish_result where
  "TransientFailurePublisher_publish = publish_err TransientKind ''temporary downstream outage''"

definition PermanentFailurePublisher_publish :: publish_result where
  "PermanentFailurePublisher_publish = publish_err PermanentKind ''permanent downstream rejection''"

text \<open>\<open>TransientThenOkPublisher\<close>: two atomic counters, which wrap.\<close>

record transient_then_ok =
  failures_remaining :: "32 word"
  total_calls :: "32 word"

definition TransientThenOkPublisher_new :: "32 word \<Rightarrow> transient_then_ok" where
  "TransientThenOkPublisher_new n = \<lparr>failures_remaining = n, total_calls = 0\<rparr>"

text \<open>
  A call is three atomic accesses: it counts itself, reads the failures left, and unless there are
  none takes one of them.  Other calls may run between two accesses.
\<close>

datatype call_phase = Counted | SawFailures | Returned publish_result

definition count_call :: "transient_then_ok \<Rightarrow> transient_then_ok" where
  "count_call p = p\<lparr>total_calls := total_calls p + 1\<rparr>"

definition read_failures :: "transient_then_ok \<Rightarrow> call_phase" where
  "read_failures p = (if failures_remaining p = 0 then Returned (Ok ()) else SawFailures)"

definition take_failure :: "transient_then_ok \<Rightarrow> transient_then_ok" where
  "take_failure p = p\<lparr>failures_remaining := failures_remaining p - 1\<rparr>"

definition blip :: publish_result where
  "blip = publish_err TransientKind ''simulated transient blip''"

definition call_access ::
  "nat \<Rightarrow> transient_then_ok \<times> (nat \<Rightarrow> call_phase option) \<Rightarrow> transient_then_ok \<times> (nat \<Rightarrow> call_phase option)"
where
  "call_access i s =
     (let (p, phases) = s in
      case phases i of
        None \<Rightarrow> (count_call p, phases(i \<mapsto> Counted))
      | Some Counted \<Rightarrow> (p, phases(i \<mapsto> read_failures p))
      | Some SawFailures \<Rightarrow> (take_failure p, phases(i \<mapsto> Returned blip))
      | Some (Returned r) \<Rightarrow> (p, phases))"

text \<open>A call that no other one interrupts.\<close>

definition TransientThenOkPublisher_publish :: "transient_then_ok \<Rightarrow> publish_result \<times> transient_then_ok" where
  "TransientThenOkPublisher_publish p =
     (let p = count_call p in
      if failures_remaining p = 0 then (Ok (), p) else (blip, take_failure p))"

section \<open>The publisher that recovers\<close>

fun publishes :: "nat \<Rightarrow> transient_then_ok \<Rightarrow> publish_result list \<times> transient_then_ok" where
  "publishes 0 p = ([], p)"
| "publishes (Suc k) p =
     (let (r, p') = TransientThenOkPublisher_publish p; (rs, p'') = publishes k p' in (r # rs, p''))"

lemma publishes_from:
  "publishes k \<lparr>failures_remaining = n, total_calls = t\<rparr> =
     (replicate (min k (unat n)) blip @ replicate (k - unat n) (Ok ()),
      \<lparr>failures_remaining = of_nat (unat n - k), total_calls = t + of_nat k\<rparr>)"
proof (induction k arbitrary: n t)
  case (Suc k)
  show ?case
  proof (cases "n = 0")
    case True
    then show ?thesis
      using Suc [of 0 "t + 1"]
      by (simp add: TransientThenOkPublisher_publish_def count_call_def Let_def)
  next
    case False
    then have n: "unat n = Suc (unat (n - 1))" by (simp add: unat_minus_one unat_gt_0)
    show ?thesis
      using Suc [of "n - 1" "t + 1"] False
      by (simp add: TransientThenOkPublisher_publish_def count_call_def take_failure_def n Let_def)
  qed
qed (simp)

text \<open>
  Called one after the other, the recovering publisher fails its first \<open>n\<close> calls and no later one, and
  counts them all.
\<close>

theorem recovers_after_failures:
  "publishes k (TransientThenOkPublisher_new n) =
     (replicate (min k (unat n)) blip @ replicate (k - unat n) (Ok ()),
      \<lparr>failures_remaining = of_nat (unat n - k), total_calls = of_nat k\<rparr>)"
  by (simp add: TransientThenOkPublisher_new_def publishes_from)

lemma uninterrupted_call:
  assumes "phases i = None"
  shows "(call_access i ^^ 3) (p, phases) =
    (let (r, p') = TransientThenOkPublisher_publish p in (p', phases(i \<mapsto> Returned r)))"
  using assms
  by (simp add: numeral_3_eq_3 call_access_def TransientThenOkPublisher_publish_def read_failures_def Let_def)

text \<open>
  Two calls that both read the last failure before either takes it both fail, and the counter wraps:
  the publisher fails its next \<open>2 ^ 32 - 1\<close> calls as well.
\<close>

theorem concurrent_calls_wrap:
  assumes "i \<noteq> j" "failures_remaining p = 1"
  shows "\<exists>p'. fold call_access [i, j, i, j, i, j] (p, Map.empty) =
      (p', [i \<mapsto> Returned blip, j \<mapsto> Returned blip])
    \<and> unat (failures_remaining p') = 2 ^ 32 - 1
    \<and> (\<forall>k. fst (publishes k p') = replicate (min k (unat (failures_remaining p'))) blip
         @ replicate (k - unat (failures_remaining p')) (Ok ()))"
proof -
  let ?p' = "\<lparr>failures_remaining = - 1, total_calls = total_calls p + 1 + 1\<rparr>"
  have "fold call_access [i, j, i, j, i, j] (p, Map.empty) = (?p', [i \<mapsto> Returned blip, j \<mapsto> Returned blip])"
    using assms
    by (cases p) (auto simp: call_access_def count_call_def read_failures_def take_failure_def fun_upd_def)
  moreover have "unat (- 1 :: 32 word) = 2 ^ 32 - 1" by (simp add: unsigned_minus_1_eq_mask mask_eq_exp_minus_1)
  moreover have "fst (publishes k ?p') = replicate (min k (unat (- 1 :: 32 word))) blip
      @ replicate (k - unat (- 1 :: 32 word)) (Ok ())" for k
    by (simp only: publishes_from fst_conv)
  ultimately show ?thesis by (intro exI [of _ ?p']) (simp only: transient_then_ok.simps simp_thms)
qed

section \<open>The seeded database\<close>

definition distinct_ids :: "test_database \<Rightarrow> bool" where
  "distinct_ids ids \<longleftrightarrow> td_workspace_a ids \<noteq> td_workspace_b ids
     \<and> td_workflow_a ids \<noteq> td_workflow_b ids \<and> td_project_a ids \<noteq> td_project_b ids"

definition tenant_of :: "test_database \<Rightarrow> uuid \<Rightarrow> uuid \<Rightarrow> bool" where
  "tenant_of ids w p \<longleftrightarrow>
     (w, p) \<in> {(td_workspace_a ids, td_project_a ids), (td_workspace_b ids, td_project_b ids)}"

text \<open>
  The seeding succeeds, keeps the schema and the audit trail, and gives each of the two tenants its
  workspace and its one project, with nothing else.
\<close>

lemma seeded:
  assumes "distinct_ids ids"
  obtains d where "setup_database now ids empty_db = Ok d" "trail_kept L d"
    "issues d = []" "activities d = []" "outbox d = []" "idempotency d = []" "milestones d = []"
    "\<And>w p. tenant_of ids w p \<Longrightarrow> workspace_exists d w \<and> map p_id (filter (\<lambda>r. p_workspace_id r = w) (projects d)) = [p]"
proof -
  let ?a = "td_workspace_a ids" and ?b = "td_workspace_b ids"
  let ?ws = "\<lambda>w name. \<lparr>w_id = w, w_name = name, w_shard_bucket = shard_bucket_for w, w_row_version = 0,
    w_created_at = now, w_updated_at = now\<rparr>"
  let ?wv = "\<lambda>v w sum. \<lparr>wv_id = v, wv_workspace_id = w, wv_name = ''default'', wv_version = 1,
    wv_checksum = sum, wv_states = JArr [], wv_transitions = JArr [], wv_created_at = now\<rparr>"
  let ?p = "\<lambda>q w name v. \<lparr>p_id = q, p_workspace_id = w, p_name = name, p_workflow_version_id = v,
    p_row_version = 0, p_created_at = now, p_updated_at = now\<rparr>"
  let ?d = "empty_db\<lparr>workspaces := [?ws ?a ''ws-a'', ?ws ?b ''ws-b''],
    workflow_versions := [?wv (td_workflow_a ids) ?a ''sha256:a'', ?wv (td_workflow_b ids) ?b ''sha256:b''],
    projects := [?p (td_project_a ids) ?a ''project-a'' (td_workflow_a ids),
                 ?p (td_project_b ids) ?b ''project-b'' (td_workflow_b ids)]\<rparr>"
  note ids = assms[unfolded distinct_ids_def]
  have texts: "text_between 1 200 ''ws-a''" "text_between 1 200 ''ws-b''" "text_between 1 200 ''default''"
    "text_between 1 128 ''sha256:a''" "text_between 1 128 ''sha256:b''"
    "text_between 1 200 ''project-a''" "text_between 1 200 ''project-b''"
    by (simp_all add: text_between_def continuation_def byte_def)
  have d: "setup_database now ids empty_db = Ok ?d"
    using ids texts shard_bucket_bounds
    by (simp add: setup_database_def seed_workspace_def insert_workspace_row_def seed_workflow_def
        insert_workflow_version_row_def seed_project_def insert_project_row_def tenant_visible_def
        workspace_checks_def workflow_version_checks_def project_checks_def exists_defs row_exists_def
        empty_db_def)
  have schema: "schema_ok ?d"
    using ids texts shard_bucket_bounds
    by (simp add: schema_ok_def table_ok_defs unique_key_def workspace_checks_def project_checks_def
        exists_defs row_exists_def empty_db_def)
  have tables: "issues ?d = []" "activities ?d = []" "outbox ?d = []" "idempotency ?d = []" "milestones ?d = []"
    by (simp_all add: empty_db_def)
  have tenants: "workspace_exists ?d w \<and> map p_id (filter (\<lambda>r. p_workspace_id r = w) (projects ?d)) = [p]"
    if "tenant_of ids w p" for w p
    using that ids by (auto simp: tenant_of_def exists_defs row_exists_def)
  have "trail_kept L ?d" using schema tables by (simp add: trail_kept_def)
  with that [of ?d] d tables tenants show thesis by blast
qed

section \<open>The factory's commands\<close>

lemma factory_command_Some:
  "make_create_issue_command L actor w p i cmd key = Some c \<longleftrightarrow> IdempotencyKey_new key = Ok key \<and>
     c = \<lparr>ci_command_id = cmd, ci_idempotency_key = key,
          ci_request_fingerprint = ''fingerprint:'' @ uuid_str L w @ '':'' @ uuid_str L p @ '':'' @ key,
          ci_issue_id = i, ci_workspace_id = w, ci_project_id = p, ci_milestone_id = None,
          ci_title = ''Ship phase 1'', ci_description = Some ''integration-test'', ci_priority = High,
          ci_actor_id = actor\<rparr>"
proof (cases "IdempotencyKey_new key")
  case (Inr k)
  then have "k = key" by (simp add: IdempotencyKey_new_Ok)
  with Inr show ?thesis by (auto simp: make_create_issue_command_def)
qed (simp add: make_create_issue_command_def)

lemma key_row_check:
  assumes "IdempotencyKey_new key = Ok k"
  shows "text_between 1 128 k" "char_length k = length k"
proof -
  have k: "1 \<le> length k" "length k \<le> 128" "list_all key_char k"
    using assms by (auto simp: IdempotencyKey_new_Ok)
  have "byte c < 128 \<and> c \<noteq> CHR 0x00" if "c \<in> set k" for c
    using k(3) that key_char_ascii [of c] by (auto simp: list_all_iff byte_def)
  then have chars: "list_all (\<lambda>c. byte c < 128) k" "storable k" by (auto simp: list_all_iff storable_def)
  then show "char_length k = length k" by (simp add: ascii_char_length)
  with chars k show "text_between 1 128 k" by (simp add: text_between_def)
qed

lemma factory_command_admissible:
  assumes "setup_database now ids empty_db = Ok d" "distinct_ids ids" "tenant_of ids w p"
    and "make_create_issue_command L actor w p i cmd key = Some c"
  shows "create_issue_admissible draws (test_auth_context w user) c (make_issue_created_event ev at c) d
    \<longleftrightarrow> text_between 1 128 (ci_request_fingerprint c)"
proof -
  obtain d' where "setup_database now ids empty_db = Ok d'" and d':
    "issues d' = []" "activities d' = []" "outbox d' = []"
    "\<And>w p. tenant_of ids w p \<Longrightarrow> workspace_exists d' w
       \<and> map p_id (filter (\<lambda>r. p_workspace_id r = w) (projects d')) = [p]"
    by (rule seeded [OF assms(2)]) blast
  then have eq: "d' = d" using assms(1) by simp
  have "p \<in> set (map p_id (filter (\<lambda>r. p_workspace_id r = w) (projects d)))"
    using d'(4) [OF assms(3)] eq by simp
  then have "project_exists d w p" by (auto simp: project_exists_def row_exists_iff)
  moreover have "text_between 1 200 ''Ship phase 1''" "text_at_most 4000 ''integration-test''"
    by (simp_all add: text_between_def text_at_most_def continuation_def byte_def)
  ultimately show ?thesis
    using d' assms(3,4) eq key_row_check(1)
    by (auto simp: factory_command_Some create_issue_admissible_def command_row_checks_def milestone_admissible_def
        test_auth_context_def row_exists_iff)
qed

text \<open>
  On the seeded database a command of the factory, sent without faults, commits its issue with the
  event of the factory exactly when its fingerprint fits the column, and otherwise changes nothing.
\<close>

theorem factory_command_commits:
  assumes "setup_database now ids empty_db = Ok d" "distinct_ids ids" "tenant_of ids w p"
    and "make_create_issue_command L actor w p i cmd key = Some c"
    and "faults s = []" "committed s = d"
  shows "let e = make_issue_created_event ev at c;
             (r, s') = create_issue_transactional L draws (test_auth_context w user) c e s in
    if text_between 1 128 (ci_request_fingerprint c)
    then r = Ok \<lparr>wr_issue = opened_issue c at, wr_idempotent_replay = False\<rparr>
         \<and> committed s' = with_created_rows L draws c e d
    else (\<exists>er. r = Err er) \<and> committed s' = d"
proof -
  let ?e = "make_issue_created_event ev at c"
  let ?auth = "test_auth_context w user"
  have fresh: "stored_record c d = None"
    by (rule seeded [OF assms(2), of now]) (use assms(1) in \<open>auto simp: fetch_optional_None\<close>)
  have "ice_occurred_at ?e = at" by (simp add: make_issue_created_event_def)
  then show ?thesis
    using create_issue_spec_fresh [OF fresh, of draws ?auth ?e L]
      create_issue_op.fault_free [OF assms(5), of L draws ?auth c ?e]
      factory_command_admissible [OF assms(1-4), of draws user ev at] assms(6)
    by (cases "create_issue_admissible draws ?auth c ?e d") (auto simp: case_prod_beta Let_def)
qed

text \<open>With the UUIDs in their 36 characters that leaves 42 for the key, not the 128 it may have.\<close>

theorem long_keys_never_commit:
  assumes "\<And>u. char_length (uuid_str L u) = 36" "make_create_issue_command L actor w p i cmd key = Some c"
    and "42 < length key"
  shows "\<not> text_between 1 128 (ci_request_fingerprint c)"
proof -
  have append: "char_length (a @ b) = char_length a + char_length b" for a b
    by (simp add: char_length_def)
  have "char_length key = length key"
    using assms(2) key_row_check(2) by (auto simp: factory_command_Some)
  then show ?thesis
    using assms by (auto simp: factory_command_Some text_between_def append continuation_def byte_def)
qed

end
