(* ===== verification/Row_Security.thy ===== *)
theory Row_Security
  imports Migrations Partition_Store
begin

text \<open>
  Who sees which rows: the roles of the database, the policies of migration 4 on the migrated catalog,
  and what they make of the statements that no tenant setting accompanies, the backfill of migration 5
  and its \<open>SECURITY DEFINER\<close> function, with the grants of the migration and of the test harness.  Rows
  are given by the text of their columns, \<open>setting\<close> is \<open>current_setting('app.workspace_id', true)\<close>,
  \<open>NULL\<close> as \<open>None\<close>.
\<close>

section \<open>Roles and policies\<close>

record db_role =
  rl_name :: string
  rl_login :: bool
  rl_superuser :: bool
  rl_createdb :: bool
  rl_createrole :: bool
  rl_bypassrls :: bool

definition exempt_role :: "db_role \<Rightarrow> bool" where
  "exempt_role r \<longleftrightarrow> rl_superuser r \<or> rl_bypassrls r"

text \<open>Row level security applies to the owner of a table only where it is forced.\<close>

definition exempt :: "db_role \<Rightarrow> string \<Rightarrow> table \<Rightarrow> bool" where
  "exempt r owner x \<longleftrightarrow> \<not> tb_rls x \<or> exempt_role r \<or> rl_name r = owner \<and> \<not> tb_forced x"

text \<open>The column whose text a policy compares with the setting.\<close>

definition policy_column :: "string \<Rightarrow> string option" where
  "policy_column p =
     (if p = ''tenant_workspace_policy'' then Some ''id''
      else if p \<in> {''tenant_workflow_version_policy'', ''tenant_project_policy'', ''tenant_milestone_policy'',
                   ''tenant_issue_policy'', ''tenant_activity_policy'', ''tenant_outbox_policy'',
                   ''tenant_idempotency_policy''} then Some ''workspace_id''
      else None)"

definition policy_admits :: "string option \<Rightarrow> (string \<Rightarrow> string) \<Rightarrow> string \<Rightarrow> bool" where
  "policy_admits setting cell p \<longleftrightarrow>
     (case policy_column p of None \<Rightarrow> False | Some column \<Rightarrow> setting = Some (cell column))"

text \<open>A row is shown, and may be written, when some policy of the table admits it.\<close>

definition row_admitted ::
  "db_role \<Rightarrow> string \<Rightarrow> string option \<Rightarrow> table \<Rightarrow> (string \<Rightarrow> string) \<Rightarrow> bool" where
  "row_admitted r owner setting x cell \<longleftrightarrow>
     exempt r owner x \<or> list_ex (policy_admits setting cell) (tb_policies x)"

definition tenant_column :: "string \<Rightarrow> string" where
  "tenant_column t = (if t = ''workspace'' then ''id'' else ''workspace_id'')"

text \<open>A table that one tenant policy guards, also against its owner.\<close>

definition guarded :: "table \<Rightarrow> bool" where
  "guarded x \<longleftrightarrow> tb_rls x \<and> tb_forced x
     \<and> (case tb_policies x of [p] \<Rightarrow> policy_column p = Some (tenant_column (tb_name x)) | _ \<Rightarrow> False)"

lemma guarded_admits:
  "guarded x \<Longrightarrow>
     row_admitted r owner setting x cell \<longleftrightarrow> exempt_role r \<or> setting = Some (cell (tenant_column (tb_name x)))"
  by (auto simp: guarded_def row_admitted_def exempt_def policy_admits_def split: list.splits)

lemma migrated_tables:
  assumes "migrated 5 = Some (applied, c)"
  shows "list_all (\<lambda>x. guarded x \<or> tb_name x = ''worker_partition_lease'') (cat_tables c)"
    "map_option guarded (table_named ''workspace'' c) = Some True"
    "''list_workspace_ids_for_partition_lease'' \<in> set (cat_functions c)"
proof -
  have "case migrated 5 of None \<Rightarrow> False | Some (applied, c) \<Rightarrow>
      list_all (\<lambda>x. guarded x \<or> tb_name x = ''worker_partition_lease'') (cat_tables c)
      \<and> map_option guarded (table_named ''workspace'' c) = Some True
      \<and> list_ex (\<lambda>f. f = ''list_workspace_ids_for_partition_lease'') (cat_functions c)"
    by code_simp
  then show "list_all (\<lambda>x. guarded x \<or> tb_name x = ''worker_partition_lease'') (cat_tables c)"
    "map_option guarded (table_named ''workspace'' c) = Some True"
    "''list_workspace_ids_for_partition_lease'' \<in> set (cat_functions c)"
    by (auto simp: assms list_ex_iff)
qed

text \<open>
  C11: in the migrated database every table but the leases of the workers shows a role, were it the
  owner of the table, exactly the rows of the workspace the transaction has set, and none where nothing
  is set or the setting has been reset, unless the role is a superuser or bypasses row level security.
\<close>

theorem tenant_rows_exactly:
  assumes "leaf_ok L" "uuid_str L w \<noteq> []" "migrated 5 = Some (applied, c)"
    and "x \<in> set (cat_tables c)" "tb_name x \<noteq> ''worker_partition_lease''"
    and "cell (tenant_column (tb_name x)) = uuid_str L w"
  shows "(row_admitted r owner (Some (uuid_str L u)) x cell \<longleftrightarrow> exempt_role r \<or> tenant_visible (Some u) w)
    \<and> row_admitted r owner None x cell = exempt_role r
    \<and> row_admitted r owner (Some []) x cell = exempt_role r"
proof -
  have "guarded x" using migrated_tables(1) [OF assms(3)] assms(4,5) by (auto simp: list_all_iff)
  from guarded_admits [OF this, of r owner _ cell] show ?thesis
    using leaf_uuid_inj [OF assms(1)] assms(2,6) by (auto simp: tenant_visible_def)
qed

section \<open>The backfill of migration 5\<close>

text \<open>
  \<open>(abs(hashtext(id::text)) % 1024)::smallint\<close>: \<open>hashtext\<close> is a function of the database into the
  32-bit integers, whose \<open>abs\<close> overflows at the least of them.
\<close>

definition backfill_bucket :: "(string \<Rightarrow> int) \<Rightarrow> string \<Rightarrow> int option" where
  "backfill_bucket hashtext i = (if hashtext i = - (2 ^ 31) then None else Some (\<bar>hashtext i\<bar> mod 1024))"

fun set_buckets ::
  "(string \<Rightarrow> int) \<Rightarrow> (string \<Rightarrow> bool) \<Rightarrow> (string \<times> int option) list \<Rightarrow> (string \<times> int option) list option" where
  "set_buckets hashtext shown [] = Some []"
| "set_buckets hashtext shown ((i, bucket) # rows) =
     (if shown i \<and> bucket = None
      then Option.bind (backfill_bucket hashtext i)
             (\<lambda>b. map_option (\<lambda>rows'. (i, Some b) # rows') (set_buckets hashtext shown rows))
      else map_option (\<lambda>rows'. (i, bucket) # rows') (set_buckets hashtext shown rows))"

definition bucket_admitted :: "string \<times> int option \<Rightarrow> bool" where
  "bucket_admitted row = (case snd row of None \<Rightarrow> False | Some b \<Rightarrow> 0 \<le> b \<and> b \<le> 1023)"

text \<open>
  The added column is null in every row; the \<open>UPDATE\<close> sees what the policy shows the migrating role,
  \<open>SET NOT NULL\<close> and the check look at every row.
\<close>

definition backfill ::
  "(string \<Rightarrow> int) \<Rightarrow> db_role \<Rightarrow> string \<Rightarrow> string option \<Rightarrow> table \<Rightarrow> string list \<Rightarrow> (string \<times> int option) list option" where
  "backfill hashtext r owner setting x ids =
     Option.bind
       (set_buckets hashtext (\<lambda>i. row_admitted r owner setting x ((\<lambda>column. [])(''id'' := i)))
         (map (\<lambda>i. (i, None)) ids))
       (\<lambda>rows. if list_all bucket_admitted rows then Some rows else None)"

text \<open>The fifth migration on the catalog and the identifiers of the workspaces, one transaction.\<close>

definition create_worker_partition_lease ::
  "(string \<Rightarrow> int) \<Rightarrow> db_role \<Rightarrow> string \<Rightarrow> string option \<Rightarrow> string list \<Rightarrow> catalog
    \<Rightarrow> ((string \<times> int option) list \<times> catalog) option" where
  "create_worker_partition_lease hashtext r owner setting ids c =
     Option.bind (execute_all (take 1 CREATE_WORKER_PARTITION_LEASE_SQL) c) (\<lambda>c1.
     Option.bind (table_named ''workspace'' c1) (\<lambda>x.
     Option.bind (backfill hashtext r owner setting x ids) (\<lambda>rows.
     map_option (\<lambda>c'. (rows, c')) (execute_all (drop 1 CREATE_WORKER_PARTITION_LEASE_SQL) c1))))"

lemma set_buckets_all:
  assumes "\<forall>i\<in>set ids. shown i"
  shows "set_buckets hashtext shown (map (\<lambda>i. (i, None)) ids) =
    (if \<exists>i\<in>set ids. hashtext i = - (2 ^ 31) then None
     else Some (map (\<lambda>i. (i, Some (\<bar>hashtext i\<bar> mod 1024))) ids))"
  using assms by (induction ids) (auto simp: backfill_bucket_def)

lemma set_buckets_none:
  assumes "\<forall>i\<in>set ids. \<not> shown i"
  shows "set_buckets hashtext shown (map (\<lambda>i. (i, None)) ids) = Some (map (\<lambda>i. (i, None)) ids)"
  using assms by (induction ids) auto

lemma migrated_4:
  assumes "migrated 4 = Some (applied, c)"
  shows "\<exists>c1 x c5. execute_all (take 1 CREATE_WORKER_PARTITION_LEASE_SQL) c = Some c1
    \<and> table_named ''workspace'' c1 = Some x \<and> guarded x \<and> tb_name x = ''workspace''
    \<and> execute_all (drop 1 CREATE_WORKER_PARTITION_LEASE_SQL) c1 = Some c5
    \<and> map_option snd (migrated 5) = Some c5"
proof -
  have "case migrated 4 of None \<Rightarrow> False | Some (applied, c) \<Rightarrow>
      (case execute_all (take 1 CREATE_WORKER_PARTITION_LEASE_SQL) c of None \<Rightarrow> False | Some c1 \<Rightarrow>
        (case table_named ''workspace'' c1 of None \<Rightarrow> False | Some x \<Rightarrow> guarded x \<and> tb_name x = ''workspace'')
        \<and> map_option snd (migrated 5) = execute_all (drop 1 CREATE_WORKER_PARTITION_LEASE_SQL) c1
        \<and> execute_all (drop 1 CREATE_WORKER_PARTITION_LEASE_SQL) c1 \<noteq> None)"
    by code_simp
  then show ?thesis by (auto simp: assms split: option.splits)
qed

lemma partition_migration:
  assumes "migrated 4 = Some (applied, c)" "setting = None \<or> setting = Some []" "[] \<notin> set ids"
  shows "create_worker_partition_lease hashtext r owner setting ids c =
    (if ids = [] \<or> exempt_role r \<and> (\<forall>i\<in>set ids. hashtext i \<noteq> - (2 ^ 31))
     then map_option (\<lambda>st. (map (\<lambda>i. (i, Some (\<bar>hashtext i\<bar> mod 1024))) ids, snd st)) (migrated 5)
     else None)"
proof -
  obtain c1 x c5 where m: "execute_all (take 1 CREATE_WORKER_PARTITION_LEASE_SQL) c = Some c1"
    "table_named ''workspace'' c1 = Some x" "guarded x" "tb_name x = ''workspace''"
    "execute_all (drop 1 CREATE_WORKER_PARTITION_LEASE_SQL) c1 = Some c5" "map_option snd (migrated 5) = Some c5"
    using migrated_4 [OF assms(1)] by blast
  have shown: "row_admitted r owner setting x ((\<lambda>column. [])(''id'' := i)) \<longleftrightarrow> exempt_role r"
    if "i \<in> set ids" for i
    using guarded_admits [OF m(3), of r owner setting "(\<lambda>column. [])(''id'' := i)"] assms(2,3) that
    by (auto simp: m(4) tenant_column_def)
  have filled: "list_all bucket_admitted (map (\<lambda>i. (i, Some (\<bar>hashtext i\<bar> mod 1024))) ids)"
    by (auto simp: list_all_iff bucket_admitted_def intro: order_trans [OF less_imp_le [OF pos_mod_bound]])
  have missing: "\<not> list_all bucket_admitted (map (\<lambda>i. (i, None)) ids)" if "ids \<noteq> []"
    using that by (cases ids) (simp_all add: bucket_admitted_def)
  have "backfill hashtext r owner setting x ids =
    (if ids = [] \<or> exempt_role r \<and> (\<forall>i\<in>set ids. hashtext i \<noteq> - (2 ^ 31))
     then Some (map (\<lambda>i. (i, Some (\<bar>hashtext i\<bar> mod 1024))) ids) else None)"
  proof (cases "exempt_role r")
    case True
    then have "\<forall>i\<in>set ids. row_admitted r owner setting x ((\<lambda>column. [])(''id'' := i))" using shown by blast
    from set_buckets_all [OF this, of hashtext] True filled show ?thesis by (auto simp: backfill_def)
  next
    case False
    then have "\<forall>i\<in>set ids. \<not> row_admitted r owner setting x ((\<lambda>column. [])(''id'' := i))" using shown by blast
    from set_buckets_none [OF this, of hashtext] False missing show ?thesis by (auto simp: backfill_def)
  qed
  then show ?thesis using m by (auto simp: create_worker_partition_lease_def)
qed

text \<open>
  C40: migration 5 gives every workspace a bucket from 0 to 1023, the residue of its hash, and ends in
  the catalog of the last step, exactly when no workspace exists yet or the migrating role is exempt
  from row level security and no hash is the least 32-bit integer; otherwise it fails.  So the owner of
  the tables alone, which migration 4 subjects to its policies, cannot apply it to a populated database.
\<close>

theorem partition_migration_exact:
  assumes "migrated 4 = Some (applied, c)" "setting = None \<or> setting = Some []" "[] \<notin> set ids"
  shows "create_worker_partition_lease hashtext r owner setting ids c =
    (if ids = [] \<or> exempt_role r \<and> (\<forall>i\<in>set ids. hashtext i \<noteq> - (2 ^ 31))
     then map_option (\<lambda>st. (map (\<lambda>i. (i, Some (\<bar>hashtext i\<bar> mod 1024))) ids, snd st)) (migrated 5)
     else None)"
  by (rule partition_migration [OF assms])

section \<open>The migrations on a populated database\<close>

text \<open>
  The \<open>DO\<close> block: nobody but the owner may call the function after \<open>REVOKE ALL \<dots> FROM PUBLIC\<close>, then it is
  granted to the role that the setting \<open>dandori.app_role\<close> names, if the role exists.
\<close>

definition grant_configured_role :: "string option \<Rightarrow> db_role list \<Rightarrow> string list" where
  "grant_configured_role configured_role roles =
     (case configured_role of
        None \<Rightarrow> []
      | Some name \<Rightarrow> if name \<noteq> [] \<and> list_ex (\<lambda>r. rl_name r = name) roles then [name] else [])"

text \<open>
  A database with workspaces: the applied migrations, the catalog, the workspaces with their buckets
  (\<open>None\<close> where there is no bucket), and the roles the function is granted to.  The migrating session:
  its role, the owner of the tables, its setting, the hash of the server, and what the \<open>DO\<close> block reads.
  No other statement of the migrations reads or writes rows; dropped tables lose theirs.
\<close>

record database =
  db_applied :: "string list"
  db_catalog :: catalog
  db_workspaces :: "(string \<times> int option) list"
  db_grantees :: "string list"

record migrating =
  mg_role :: db_role
  mg_owner :: string
  mg_setting :: "string option"
  mg_hashtext :: "string \<Rightarrow> int"
  mg_app_role :: "string option"
  mg_roles :: "db_role list"

fun up_database :: "migrating \<Rightarrow> migration \<Rightarrow> database \<Rightarrow> database option" where
  "up_database g CreateWorkerPartitionLease d =
     map_option (\<lambda>(rows, c). d\<lparr>db_catalog := c, db_workspaces := rows,
         db_grantees := grant_configured_role (mg_app_role g) (mg_roles g)\<rparr>)
       (create_worker_partition_lease (mg_hashtext g) (mg_role g) (mg_owner g) (mg_setting g)
         (map fst (db_workspaces d)) (db_catalog d))"
| "up_database g CreateEnumsAndCoreTables d =
     map_option (\<lambda>c. d\<lparr>db_catalog := c, db_workspaces := []\<rparr>)
       (migration_up CreateEnumsAndCoreTables (db_catalog d))"
| "up_database g m d = map_option (\<lambda>c. d\<lparr>db_catalog := c\<rparr>) (migration_up m (db_catalog d))"

fun down_database :: "migration \<Rightarrow> database \<Rightarrow> database option" where
  "down_database CreateWorkerPartitionLease d =
     map_option (\<lambda>c. d\<lparr>db_catalog := c, db_workspaces := map (\<lambda>(i, bucket). (i, None)) (db_workspaces d),
         db_grantees := []\<rparr>)
       (migration_down CreateWorkerPartitionLease (db_catalog d))"
| "down_database CreateEnumsAndCoreTables d =
     map_option (\<lambda>c. d\<lparr>db_catalog := c, db_workspaces := []\<rparr>)
       (migration_down CreateEnumsAndCoreTables (db_catalog d))"
| "down_database m d = map_option (\<lambda>c. d\<lparr>db_catalog := c\<rparr>) (migration_down m (db_catalog d))"

fun upgrade_database :: "migrating \<Rightarrow> migration list \<Rightarrow> database \<Rightarrow> database option" where
  "upgrade_database g [] d = Some d"
| "upgrade_database g (m # ms) d =
     (if migration_name m \<in> set (db_applied d) then upgrade_database g ms d
      else Option.bind (up_database g m d)
             (\<lambda>d'. upgrade_database g ms (d'\<lparr>db_applied := db_applied d @ [migration_name m]\<rparr>)))"

fun revert_database :: "migration list \<Rightarrow> database \<Rightarrow> database option" where
  "revert_database [] d = Some d"
| "revert_database (m # ms) d =
     (if migration_name m \<notin> set (db_applied d) then revert_database ms d
      else Option.bind (down_database m d)
             (\<lambda>d'. revert_database ms
                (d'\<lparr>db_applied := filter (\<lambda>n. n \<noteq> migration_name m) (db_applied d)\<rparr>)))"

text \<open>A database at step \<open>k\<close> with these workspaces and grants.\<close>

definition at_step :: "nat \<Rightarrow> (string \<times> int option) list \<Rightarrow> string list \<Rightarrow> database" where
  "at_step k rows grantees =
     \<lparr>db_applied = fst (the (migrated k)), db_catalog = snd (the (migrated k)), db_workspaces = rows,
      db_grantees = grantees\<rparr>"

definition without_buckets :: "string list \<Rightarrow> (string \<times> int option) list" where
  "without_buckets ids = map (\<lambda>i. (i, None)) ids"

definition with_buckets :: "(string \<Rightarrow> int) \<Rightarrow> string list \<Rightarrow> (string \<times> int option) list" where
  "with_buckets hashtext ids = map (\<lambda>i. (i, Some (\<bar>hashtext i\<bar> mod 1024))) ids"

text \<open>The migrations before the last one act on the catalog alone.\<close>

lemma no_rows: "db_workspaces d = [] \<Longrightarrow> d\<lparr>db_catalog := c, db_workspaces := []\<rparr> = d\<lparr>db_catalog := c\<rparr>"
  by (cases d) simp

lemma upgrade_catalog:
  assumes "CreateWorkerPartitionLease \<notin> set ms"
    and "CreateEnumsAndCoreTables \<in> set ms \<Longrightarrow>
           migration_name CreateEnumsAndCoreTables \<notin> set (db_applied d) \<Longrightarrow> db_workspaces d = []"
  shows "upgrade_database g ms d =
    map_option (\<lambda>(applied, c). d\<lparr>db_applied := applied, db_catalog := c\<rparr>) (run_up ms (db_applied d, db_catalog d))"
  using assms
proof (induction ms arbitrary: d)
  case (Cons m ms)
  show ?case
  proof (cases "migration_name m \<in> set (db_applied d)")
    case True
    with Cons show ?thesis by simp
  next
    case False
    have up: "up_database g m d = map_option (\<lambda>c. d\<lparr>db_catalog := c\<rparr>) (migration_up m (db_catalog d))"
      using Cons.prems False by (cases m) (auto simp: no_rows)
    have "upgrade_database g ms (d\<lparr>db_catalog := c, db_applied := db_applied d @ [migration_name m]\<rparr>) =
        map_option (\<lambda>(applied, c'). d\<lparr>db_applied := applied, db_catalog := c'\<rparr>)
          (run_up ms (db_applied d @ [migration_name m], c))" for c
      using Cons.IH [of "d\<lparr>db_catalog := c, db_applied := db_applied d @ [migration_name m]\<rparr>"] Cons.prems by simp
    with False show ?thesis by (cases "migration_up m (db_catalog d)") (simp_all add: up)
  qed
qed simp

lemma revert_catalog:
  assumes "CreateWorkerPartitionLease \<notin> set ms" "CreateEnumsAndCoreTables \<in> set ms \<Longrightarrow> db_workspaces d = []"
  shows "revert_database ms d =
    map_option (\<lambda>(applied, c). d\<lparr>db_applied := applied, db_catalog := c\<rparr>) (run_down ms (db_applied d, db_catalog d))"
  using assms
proof (induction ms arbitrary: d)
  case (Cons m ms)
  show ?case
  proof (cases "migration_name m \<in> set (db_applied d)")
    case False
    with Cons show ?thesis by simp
  next
    case True
    have down: "down_database m d = map_option (\<lambda>c. d\<lparr>db_catalog := c\<rparr>) (migration_down m (db_catalog d))"
      using Cons.prems by (cases m) (auto simp: no_rows)
    let ?applied = "filter (\<lambda>n. n \<noteq> migration_name m) (db_applied d)"
    have "revert_database ms (d\<lparr>db_catalog := c, db_applied := ?applied\<rparr>) =
        map_option (\<lambda>(applied, c'). d\<lparr>db_applied := applied, db_catalog := c'\<rparr>) (run_down ms (?applied, c))" for c
      using Cons.IH [of "d\<lparr>db_catalog := c, db_applied := ?applied\<rparr>"] Cons.prems by simp
    with True show ?thesis by (cases "migration_down m (db_catalog d)") (simp_all add: down)
  qed
qed simp

lemma at_step_catalog:
  "map_option (\<lambda>(applied, c). (at_step k rows grantees)\<lparr>db_applied := applied, db_catalog := c\<rparr>) (migrated j)
     = Some (at_step j rows grantees)"
  using migrated_some [of j] by (auto simp: at_step_def)

lemma at_step_state: "Some (db_applied (at_step k rows grantees), db_catalog (at_step k rows grantees)) = migrated k"
  using migrated_some [of k] by (auto simp: at_step_def)

lemma last_migration_pending:
  "migration_name CreateWorkerPartitionLease \<notin> set (db_applied (at_step 4 rows grantees))"
  "db_applied (at_step 4 rows grantees) @ [migration_name CreateWorkerPartitionLease] = db_applied (at_step 5 rows' grantees')"
proof -
  have "migration_name CreateWorkerPartitionLease \<notin> set (fst (the (migrated 4)))
      \<and> fst (the (migrated 4)) @ [migration_name CreateWorkerPartitionLease] = fst (the (migrated 5))"
    by code_simp
  then show "migration_name CreateWorkerPartitionLease \<notin> set (db_applied (at_step 4 rows grantees))"
    "db_applied (at_step 4 rows grantees) @ [migration_name CreateWorkerPartitionLease] = db_applied (at_step 5 rows' grantees')"
    by (simp_all add: at_step_def)
qed

lemma upgrade_append:
  "upgrade_database g (xs @ ys) d = Option.bind (upgrade_database g xs d) (upgrade_database g ys)"
proof (induction xs arbitrary: d)
  case (Cons m ms)
  then show ?case by (cases "up_database g m d") auto
qed simp

lemma first_applied:
  assumes "0 < k"
  shows "migration_name CreateEnumsAndCoreTables \<in> set (db_applied (at_step k rows grantees))"
proof -
  have "run_up (take k migrations) ([], empty_catalog)
      = Some (db_applied (at_step k rows grantees), db_catalog (at_step k rows grantees))"
    using at_step_state [of k rows grantees] by (simp add: migrated_def)
  from run_up_applied [OF this] show ?thesis using assms by (cases k) (simp_all add: migrations_def)
qed

lemma upgrade_to_4:
  assumes "k \<le> 4" "k = 0 \<Longrightarrow> rows = []"
  shows "upgrade_database g (take 4 migrations) (at_step k rows []) = Some (at_step 4 rows [])"
proof -
  let ?d = "at_step k rows []"
  have pending: "CreateWorkerPartitionLease \<notin> set (take 4 migrations)" by (simp add: migrations_def)
  have "upgrade_database g (take 4 migrations) ?d =
      map_option (\<lambda>(applied, c). ?d\<lparr>db_applied := applied, db_catalog := c\<rparr>)
        (run_up (take 4 migrations) (db_applied ?d, db_catalog ?d))"
    by (rule upgrade_catalog [OF pending])
      (use first_applied [of k rows "[]"] assms(2) in \<open>cases k; simp add: at_step_def\<close>)
  also have "run_up (take 4 migrations) (db_applied ?d, db_catalog ?d) = migrated 4"
    by (rule run_up_from [OF at_step_state [symmetric] assms(1)])
  finally show ?thesis using at_step_catalog by simp
qed

lemma upgrade_last:
  assumes "mg_setting g = None \<or> mg_setting g = Some []" "[] \<notin> set ids"
  shows "upgrade_database g [CreateWorkerPartitionLease] (at_step 4 (without_buckets ids) []) =
    (if ids = [] \<or> exempt_role (mg_role g) \<and> (\<forall>i\<in>set ids. mg_hashtext g i \<noteq> - (2 ^ 31))
     then Some (at_step 5 (with_buckets (mg_hashtext g) ids) (grant_configured_role (mg_app_role g) (mg_roles g)))
     else None)"
proof -
  let ?d = "at_step 4 (without_buckets ids) []"
  have "migrated 4 = Some (db_applied ?d, db_catalog ?d)" by (rule at_step_state [symmetric])
  note last = partition_migration [OF this assms, of "mg_hashtext g" "mg_role g" "mg_owner g"]
  have ids: "map fst (db_workspaces ?d) = ids" by (simp add: at_step_def without_buckets_def comp_def)
  note pending = last_migration_pending [of "without_buckets ids" "[]"]
  have applied: "db_applied ?d @ [migration_name CreateWorkerPartitionLease] = fst (the (migrated 5))"
    using pending(2) by (simp add: at_step_def)
  obtain st where st: "migrated 5 = Some st" using migrated_all by auto
  show ?thesis
    using pending(1) applied
    by (simp add: ids last st with_buckets_def) (simp add: at_step_def st)
qed

lemma revert_last:
  assumes "map fst rows = ids"
  shows "revert_database [CreateWorkerPartitionLease] (at_step 5 rows grantees) = Some (at_step 4 (without_buckets ids) [])"
proof -
  have m: "Option.bind (migrated 5) (run_down [CreateWorkerPartitionLease]) = migrated 4"
    using steps_down(5) by (simp add: migrations_def)
  obtain st5 st4 where st: "migrated 5 = Some st5" "migrated 4 = Some st4"
    using migrated_some [of 5] migrated_some [of 4] by auto
  have "migration_name CreateWorkerPartitionLease \<in> set (fst st5)"
    using arg_cong [OF last_migration_pending(2) [of rows "[]" rows grantees], of set] by (auto simp: at_step_def st)
  moreover have "map (\<lambda>(i, bucket). (i, None)) rows = without_buckets ids"
    by (simp add: without_buckets_def assms [symmetric] case_prod_beta comp_def)
  ultimately show ?thesis
    using m by (cases st5; cases st4) (auto simp: at_step_def st split: bind_splits)
qed

lemma revert_append:
  "revert_database (xs @ ys) d = Option.bind (revert_database xs d) (revert_database ys)"
proof (induction xs arbitrary: d)
  case (Cons m ms)
  then show ?case by (cases "down_database m d") auto
qed simp

lemma revert_from_5:
  assumes "k \<le> 4" "k = 0 \<Longrightarrow> rows = []"
  shows "revert_database (rev (drop k migrations)) (at_step 5 rows grantees)
    = Some (at_step k (without_buckets (map fst rows)) [])"
proof -
  let ?rows = "without_buckets (map fst rows)"
  let ?d = "at_step 4 ?rows []" and ?ms = "rev (drop k (take 4 migrations))"
  have split: "rev (drop k migrations) = CreateWorkerPartitionLease # ?ms"
    using assms(1) by (auto simp: migrations_def less_Suc_eq_le le_Suc_eq numeral_eq_Suc)
  have "Option.bind (migrated 5) (run_down (CreateWorkerPartitionLease # ?ms)) = migrated k"
    using revert_to [of k] assms(1) split by simp
  moreover have "Option.bind (migrated 5) (run_down [CreateWorkerPartitionLease]) = migrated 4"
    using steps_down(5) by (simp add: migrations_def)
  moreover have "run_down (CreateWorkerPartitionLease # ?ms) st
      = Option.bind (run_down [CreateWorkerPartitionLease] st) (run_down ?ms)" for st by (rule run_down_Cons)
  ultimately have down: "Option.bind (migrated 4) (run_down ?ms) = migrated k"
    by (metis (no_types, lifting) Option.bind_assoc bind_option_cong)
  have "CreateWorkerPartitionLease \<notin> set ?ms" by (auto simp: migrations_def dest: in_set_dropD)
  moreover have "db_workspaces ?d = []" if "CreateEnumsAndCoreTables \<in> set ?ms"
  proof -
    have "k = 0" using that by (cases k) (auto simp: migrations_def dest: in_set_dropD)
    with assms(2) show ?thesis by (simp add: at_step_def without_buckets_def)
  qed
  ultimately have "revert_database ?ms ?d =
      map_option (\<lambda>(applied, c). ?d\<lparr>db_applied := applied, db_catalog := c\<rparr>)
        (run_down ?ms (db_applied ?d, db_catalog ?d))"
    by (rule revert_catalog)
  also have "run_down ?ms (db_applied ?d, db_catalog ?d) = migrated k"
    using down at_step_state [of 4 ?rows "[]"] by (metis bind.bind_lunit)
  finally have "revert_database ?ms ?d = Some (at_step k ?rows [])" using at_step_catalog by simp
  moreover have "revert_database (CreateWorkerPartitionLease # ?ms) (at_step 5 rows grantees)
      = Option.bind (revert_database [CreateWorkerPartitionLease] (at_step 5 rows grantees)) (revert_database ?ms)"
    using revert_append [of "[CreateWorkerPartitionLease]" ?ms] by simp
  ultimately show ?thesis unfolding split using revert_last [OF refl, of rows grantees] by simp
qed

text \<open>
  C39: a database with any workspaces, at any step before the last migration: the migrator of a role that
  row level security binds brings it to the last step only when it has no workspace, and one that is exempt
  whenever no hash is the least integer; then every workspace has kept its place and has its bucket, the
  schema is the migrated one and the function is granted to the configured role, and otherwise the upgrade
  fails.  Reverting the migrations down to the step it came from restores exactly the catalog, the
  workspaces without buckets, and no grants: no reverse statement fails on the way.
\<close>

theorem migrations_upgrade_and_revert:
  assumes "k < 5" "k = 0 \<Longrightarrow> ids = []" "[] \<notin> set ids"
    and "mg_setting g = None \<or> mg_setting g = Some []"
  shows "migrated k \<noteq> None
    \<and> upgrade_database g migrations (at_step k (without_buckets ids) []) =
        (if ids = [] \<or> exempt_role (mg_role g) \<and> (\<forall>i\<in>set ids. mg_hashtext g i \<noteq> - (2 ^ 31))
         then Some (at_step 5 (with_buckets (mg_hashtext g) ids)
                (grant_configured_role (mg_app_role g) (mg_roles g)))
         else None)
    \<and> revert_database (rev (drop k migrations)) (at_step 5 (with_buckets (mg_hashtext g) ids) grantees)
        = Some (at_step k (without_buckets ids) [])"
proof -
  have k: "k \<le> 4" using assms(1) by simp
  have empty: "k = 0 \<Longrightarrow> without_buckets ids = []" "k = 0 \<Longrightarrow> with_buckets (mg_hashtext g) ids = []"
    using assms(2) by (simp_all add: without_buckets_def with_buckets_def)
  have "migrations = take 4 migrations @ [CreateWorkerPartitionLease]" by (simp add: migrations_def)
  then have "upgrade_database g migrations (at_step k (without_buckets ids) []) =
      upgrade_database g [CreateWorkerPartitionLease] (at_step 4 (without_buckets ids) [])"
    using upgrade_append upgrade_to_4 [OF k empty(1)] by (metis bind.bind_lunit)
  moreover have "map fst (with_buckets (mg_hashtext g) ids) = ids" by (simp add: with_buckets_def comp_def)
  ultimately show ?thesis
    using upgrade_last [OF assms(4,3)] revert_from_5 [OF k empty(2), of grantees] migrated_some [of k] by simp
qed

section \<open>The function for the workers\<close>

text \<open>
  The body runs as the owner of the function (\<open>SECURITY DEFINER\<close>), with the setting of the caller: it
  lists the workspaces that the policy shows the owner.
\<close>

definition workspace_cell :: "leaf \<Rightarrow> workspace_row \<Rightarrow> string \<Rightarrow> string" where
  "workspace_cell L w = (\<lambda>column. [])(''id'' := uuid_str L (w_id w))"

definition list_as_definer ::
  "leaf \<Rightarrow> db_role \<Rightarrow> string \<Rightarrow> string option \<Rightarrow> table \<Rightarrow> int \<Rightarrow> int \<Rightarrow> int \<Rightarrow> db \<Rightarrow> db_error + (uuid \<times> int) list" where
  "list_as_definer L definer owner setting x bucket_min bucket_max max_rows d =
     list_workspace_ids_for_partition_lease bucket_min bucket_max max_rows
       (d\<lparr>workspaces := filter (\<lambda>w. row_admitted definer owner setting x (workspace_cell L w)) (workspaces d)\<rparr>)"

text \<open>The owner, superusers and the granted roles may call the function.\<close>

definition may_execute :: "db_role \<Rightarrow> string \<Rightarrow> string list \<Rightarrow> bool" where
  "may_execute caller definer granted \<longleftrightarrow>
     rl_superuser caller \<or> rl_name caller = definer \<or> rl_name caller \<in> set granted"

text \<open>
  On the migrated database, where no tenant is set, the function returns the workspaces of the window
  when its owner is exempt from row level security, and none at all when it is not, so that then no
  worker ever acquires a workspace.
\<close>

theorem workers_see_workspaces:
  assumes "migrated 5 = Some (applied, c)" "table_named ''workspace'' c = Some x"
    and "setting = None \<or> setting = Some []" "\<forall>w\<in>set (workspaces d). uuid_str L (w_id w) \<noteq> []"
  shows "list_as_definer L definer owner setting x bucket_min bucket_max max_rows d =
    (if exempt_role definer then list_workspace_ids_for_partition_lease bucket_min bucket_max max_rows d
     else if max_rows < 0 then Err InvalidLimit else Ok [])"
proof -
  have "guarded x" using migrated_tables(2) [OF assms(1)] assms(2) by simp
  moreover have "tb_name x = ''workspace''" using assms(2) by (auto simp: table_named_def find_Some_iff)
  ultimately have "row_admitted definer owner setting x (workspace_cell L w) \<longleftrightarrow> exempt_role definer"
    if "w \<in> set (workspaces d)" for w
    using guarded_admits [of x definer owner setting "workspace_cell L w"] assms(3) bspec [OF assms(4) that]
    by (auto simp: tenant_column_def workspace_cell_def)
  then have "filter (\<lambda>w. row_admitted definer owner setting x (workspace_cell L w)) (workspaces d)
      = (if exempt_role definer then workspaces d else [])"
    by (simp add: filter_id_conv filter_empty_conv)
  then show ?thesis by (simp add: list_as_definer_def list_workspace_ids_for_partition_lease_def)
qed

section \<open>The role of the tests\<close>

text \<open>The roles of a cluster and what they were granted, on a database with a catalog.\<close>

record cluster =
  cl_roles :: "db_role list"
  cl_schema_usage :: "string list"
  cl_table_grants :: "(string \<times> string) list"
  cl_function_grants :: "string list"

definition dandori_app :: db_role where
  "dandori_app = \<lparr>rl_name = ''dandori_app'', rl_login = True, rl_superuser = False, rl_createdb = False,
     rl_createrole = False, rl_bypassrls = False\<rparr>"

text \<open>Granting on all tables names the tables there are; the function must exist.\<close>

definition create_app_role :: "catalog \<Rightarrow> cluster \<Rightarrow> cluster option" where
  "create_app_role c cl =
     (let cl1 = if list_ex (\<lambda>r. rl_name r = ''dandori_app'') (cl_roles cl) then cl
                else cl\<lparr>cl_roles := cl_roles cl @ [dandori_app]\<rparr>;
          cl2 = cl1\<lparr>cl_schema_usage := cl_schema_usage cl1 @ [''dandori_app'']\<rparr>;
          cl3 = cl2\<lparr>cl_table_grants :=
                  cl_table_grants cl2 @ map (\<lambda>x. (''dandori_app'', tb_name x)) (cat_tables c)\<rparr>
      in if ''list_workspace_ids_for_partition_lease'' \<in> set (cat_functions c)
         then Some (cl3\<lparr>cl_function_grants := cl_function_grants cl3 @ [''dandori_app'']\<rparr>) else None)"

text \<open>
  The role of the tests on a fresh cluster is granted every table, and is shown exactly the rows of the
  workspace it set: the tests run under row level security.  A role of that name that is already
  there keeps its attributes.
\<close>

lemma test_role_guarded:
  assumes "migrated 5 = Some (applied, c)" "\<not> list_ex (\<lambda>r. rl_name r = ''dandori_app'') (cl_roles cl)"
  obtains cl' where "create_app_role c cl = Some cl'"
    "[r\<leftarrow>cl_roles cl'. rl_name r = ''dandori_app''] = [dandori_app]" "\<not> exempt_role dandori_app"
    "\<forall>x\<in>set (cat_tables c). (''dandori_app'', tb_name x) \<in> set (cl_table_grants cl')"
    "may_execute dandori_app owner (cl_function_grants cl')"
    "\<forall>x\<in>set (cat_tables c). tb_name x \<noteq> ''worker_partition_lease'' \<longrightarrow>
       row_admitted dandori_app owner setting x cell \<longleftrightarrow> setting = Some (cell (tenant_column (tb_name x)))"
proof -
  let ?cl = "cl\<lparr>cl_roles := cl_roles cl @ [dandori_app],
    cl_schema_usage := cl_schema_usage cl @ [''dandori_app''],
    cl_table_grants := cl_table_grants cl @ map (\<lambda>x. (''dandori_app'', tb_name x)) (cat_tables c),
    cl_function_grants := cl_function_grants cl @ [''dandori_app'']\<rparr>"
  note migrated = migrated_tables(1,3) [OF assms(1)]
  have role: "\<not> exempt_role dandori_app" "rl_name dandori_app = ''dandori_app''"
    by (simp_all add: exempt_role_def dandori_app_def)
  have "create_app_role c cl = Some ?cl" using assms(2) migrated(2) by (simp add: create_app_role_def)
  moreover have "[r\<leftarrow>cl_roles ?cl. rl_name r = ''dandori_app''] = [dandori_app]"
    using assms(2) role(2) by (simp add: list_ex_iff filter_empty_conv)
  moreover have "may_execute dandori_app owner (cl_function_grants ?cl)" using role(2) by (simp add: may_execute_def)
  moreover have "\<forall>x\<in>set (cat_tables c). tb_name x \<noteq> ''worker_partition_lease'' \<longrightarrow>
      row_admitted dandori_app owner setting x cell \<longleftrightarrow> setting = Some (cell (tenant_column (tb_name x)))"
    using migrated(1) guarded_admits role(1) by (auto simp: list_all_iff)
  ultimately show ?thesis using that [of ?cl] role(1) by simp
qed

text \<open>
  After the migrations alone the role may call the function only if the migration was configured with
  its name and it existed then.
\<close>

lemma configured_role_calls:
  "rl_name r \<noteq> definer \<Longrightarrow> \<not> rl_superuser r \<Longrightarrow>
     may_execute r definer (grant_configured_role configured roles)
     \<longleftrightarrow> configured = Some (rl_name r) \<and> rl_name r \<noteq> [] \<and> (\<exists>x\<in>set roles. rl_name x = rl_name r)"
  by (auto simp: may_execute_def grant_configured_role_def list_ex_iff split: option.splits)

section \<open>The migrated database in small\<close>

definition postgres :: db_role where
  "postgres = \<lparr>rl_name = ''postgres'', rl_login = True, rl_superuser = True, rl_createdb = True,
     rl_createrole = True, rl_bypassrls = True\<rparr>"

definition demo_hashtext :: "string \<Rightarrow> int" where
  "demo_hashtext i = - int (1000 + length i)"

lemma migrated_5_catalog:
  obtains applied c where "migrated 5 = Some (applied, c)"
  using migrated_all by auto

lemma bits_uuid_nonempty: "uuid_str bits_leaf 1 \<noteq> []"
  by code_simp

theorem tenant_rows_exactly_witness:
  "\<exists>applied c x. migrated 5 = Some (applied, c) \<and> x \<in> set (cat_tables c) \<and> tb_name x = ''workspace''
     \<and> \<not> row_admitted dandori_app ''dandori_app'' None x ((\<lambda>column. [])(''id'' := uuid_str bits_leaf 1))"
proof -
  obtain applied c where c: "migrated 5 = Some (applied, c)" by (rule migrated_5_catalog)
  obtain x where "table_named ''workspace'' c = Some x" using migrated_tables(2) [OF c] by auto
  then have x: "x \<in> set (cat_tables c)" "tb_name x = ''workspace''" by (auto simp: table_named_def find_Some_iff)
  then have "tb_name x \<noteq> ''worker_partition_lease''"
    "((\<lambda>column. [])(''id'' := uuid_str bits_leaf 1)) (tenant_column (tb_name x)) = uuid_str bits_leaf 1"
    by (simp_all add: tenant_column_def)
  with tenant_rows_exactly [OF bits_leaf_ok bits_uuid_nonempty c x(1),
      where cell = "(\<lambda>column. [])(''id'' := uuid_str bits_leaf 1)" and r = dandori_app and owner = "''dandori_app''"] c x
  show ?thesis by (auto simp: exempt_role_def dandori_app_def)
qed

theorem partition_migration_exact_witness:
  "\<exists>applied c. migrated 4 = Some (applied, c)
     \<and> create_worker_partition_lease demo_hashtext dandori_app ''dandori_app'' None [''a''] c = None
     \<and> map_option fst (create_worker_partition_lease demo_hashtext postgres ''dandori_app'' None [''a''] c)
         = Some [(''a'', Some 1001)]"
proof -
  obtain applied c where c: "migrated 4 = Some (applied, c)" using migrated_some [of 4] by auto
  have ids: "[] \<notin> set [''a'']" by simp
  note run = partition_migration_exact [OF c _ ids, of None, OF disjI1 [OF refl], of demo_hashtext]
  have "map_option fst (map_option (\<lambda>st. ([(''a'', Some 1001)], snd st)) (migrated 5)) = Some [(''a'', Some 1001)]"
    using migrated_all by auto
  then show ?thesis
    using c run [of dandori_app "''dandori_app''"] run [of postgres "''dandori_app''"]
    by (simp add: exempt_role_def dandori_app_def postgres_def demo_hashtext_def)
qed

text \<open>From step 2 with one workspace: the superuser upgrades, the owner of the tables does not.\<close>

theorem migrations_upgrade_and_revert_witness:
  "let g = \<lparr>mg_role = postgres, mg_owner = ''dandori_app'', mg_setting = None, mg_hashtext = demo_hashtext,
             mg_app_role = Some ''dandori_app'', mg_roles = [dandori_app]\<rparr>;
       d = at_step 2 [(''a'', None)] []
   in upgrade_database g migrations d = Some (at_step 5 [(''a'', Some 1001)] [''dandori_app''])
      \<and> upgrade_database (g\<lparr>mg_role := dandori_app\<rparr>) migrations d = None
      \<and> revert_database (rev (drop 2 migrations)) (at_step 5 [(''a'', Some 1001)] [''dandori_app'']) = Some d"
proof -
  let ?g = "\<lparr>mg_role = postgres, mg_owner = ''dandori_app'', mg_setting = None, mg_hashtext = demo_hashtext,
    mg_app_role = Some ''dandori_app'', mg_roles = [dandori_app]\<rparr>"
  have granted: "grant_configured_role (Some ''dandori_app'') [dandori_app] = [''dandori_app'']"
    by (simp add: grant_configured_role_def dandori_app_def)
  have exempt: "exempt_role postgres" "\<not> exempt_role dandori_app"
    by (simp_all add: exempt_role_def postgres_def dandori_app_def)
  have hash: "demo_hashtext ''a'' = - 1001" by (simp add: demo_hashtext_def)
  have rows: "without_buckets [''a''] = [(''a'', None)]" "with_buckets demo_hashtext [''a''] = [(''a'', Some 1001)]"
    by (simp_all add: without_buckets_def with_buckets_def demo_hashtext_def)
  show ?thesis
    using migrations_upgrade_and_revert [of 2 "[''a'']" ?g "[''dandori_app'']"]
      migrations_upgrade_and_revert [of 2 "[''a'']" "?g\<lparr>mg_role := dandori_app\<rparr>" "[]"]
    unfolding Let_def
    by (simp add: rows granted exempt hash)
qed

theorem workers_see_workspaces_witness:
  "\<exists>applied c x. migrated 5 = Some (applied, c) \<and> table_named ''workspace'' c = Some x
     \<and> list_as_definer bits_leaf dandori_app ''dandori_app'' None x 0 1023 64 demo_db = Ok []
     \<and> list_as_definer bits_leaf postgres ''dandori_app'' None x 0 1023 64 demo_db = Ok [(1, 1)]"
proof -
  obtain applied c where c: "migrated 5 = Some (applied, c)" by (rule migrated_5_catalog)
  obtain x where x: "table_named ''workspace'' c = Some x" using migrated_tables(2) [OF c] by auto
  have ids: "\<forall>w\<in>set (workspaces demo_db). uuid_str bits_leaf (w_id w) \<noteq> []"
    using bits_uuid_nonempty by (simp add: demo_db_def)
  have "list_workspace_ids_for_partition_lease 0 1023 64 demo_db = Ok [(1, 1)]"
    by (simp add: list_workspace_ids_for_partition_lease_def demo_db_def)
  then show ?thesis
    using c x workers_see_workspaces [OF c x, of None demo_db bits_leaf dandori_app "''dandori_app''" 0 1023 64]
      workers_see_workspaces [OF c x, of None demo_db bits_leaf postgres "''dandori_app''" 0 1023 64] ids
    by (simp add: exempt_role_def dandori_app_def postgres_def)
qed

end
