(* ===== verification/Spec2Isabelle.thy ===== *)
theory Spec2Isabelle
  imports Specs Transport Worker_Liveness Worker_Main Outbox_Refinement Deps_Check Migrations Observability
    End_To_End Retries Entry_Points Test_Support Row_Security
begin

text \<open>
  Dandori is a multi-tenant issue tracker.  A request arrives over REST (\<open>bin/dandori-api\<close>) or as a tool
  call over MCP (\<open>bin/dandori-mcp\<close>) with a bearer token; \<open>dandori-auth\<close> turns the token into a tenant and
  an actor; \<open>dandori-app-services\<close> checks the policy, validates, builds the command and its event, and
  calls \<open>dandori-store\<close>, which in one PostgreSQL transaction under row level security reserves the
  idempotency key, inserts the issue, its activity and an outbox row, and records the response for
  replays.  The outbox worker (\<open>bin/dandori-worker\<close>, \<open>app-services/src/worker\<close>) acquires tenants by
  partition leases, leases batches of outbox rows, publishes them over HTTP behind a circuit breaker,
  settles each row and sweeps old ones.  Small crates check specifications (graph, workflow,
  orchestrator, sync) and a guard (\<open>bin/dandori-deps-check\<close>) checks the architecture of the workspace.

  The theories, from the bottom, with what they model and prove:

  \<^item> \<open>Prelude\<close>: \<open>Result\<close> with \<open>?\<close> (\<open>and_then\<close>), \<open>str\<close> as UTF-8 bytes (a \<open>string\<close> whose characters are bytes)
    with \<open>trim\<close>, \<open>split\<close>, ASCII case, signed integers with their wrap-around, SQL tables as lists of rows.
    \<open>Json\<close>: JSON values, serde's derived forms, the parameter \<open>leaf\<close>.  \<open>Parse_Int\<close>: \<open>str::parse\<close> at the
    integer types, decided by the grammar \<open>numeral_of\<close>.
  \<^item> \<open>Domain\<close>, \<open>Commands\<close>: \<open>dandori-domain\<close>.  Identifiers, errors, keys, tenant context; commands with
    validation on every branch, events with their wire form and its round trip.
  \<^item> \<open>Policy\<close>, \<open>Specs\<close>: \<open>dandori-policy\<close> behind the contract \<open>policy_engine\<close>, and the four checkers,
    each equivalent to a declarative specification.
  \<^item> \<open>Schema\<close>: rows, constraints and row level security of \<open>migration_sql.rs\<close> and \<open>entities.rs\<close>.
    \<open>Migrations\<close>: the migrations over a catalog, \<open>up\<close> and \<open>down\<close>.  \<open>Row_Security\<close>: roles against the
    policies of the migrated catalog, which show exactly the rows of the tenant that is set; the migrations
    over a database with workspaces: the backfill, \<open>SET NOT NULL\<close> and the grants of the last one, which
    succeeds on a populated database for an exempt role only, and the way back; the \<open>SECURITY DEFINER\<close>
    function, whose owner must be exempt; the role of the integration tests.
  \<^item> \<open>Pg\<close>: sessions, transactions and faults; the locale \<open>store_operation\<close> is the contract of every
    operation: what an atomic specification says, or a connection fault with nothing or everything.
  \<^item> \<open>Issue_Store\<close>, \<open>Issue_Correct\<close>, \<open>Issue_Theorems\<close>: \<open>repositories/issue.rs\<close>, its specification, the
    interpretation of the contract, admission, atomicity, replay, conflict.  \<open>Outbox_Store\<close>,
    \<open>Outbox_Correct\<close>, \<open>Outbox_Theorems\<close>: the same for \<open>repositories/outbox.rs\<close>: batches, fencing, failures,
    sweeps.  \<open>Tenant_Store\<close>: workspaces and projects.  \<open>Partition_Store\<close>: partition leases.  \<open>Demo\<close> holds the
    small database the theorems are applied to.
  \<^item> \<open>Store_System\<close>, \<open>Store_Invariants\<close>, \<open>Store_Guarantees\<close>, \<open>Tenant_Isolation\<close>: histories of calls of all
    clients; invariants through the locale \<open>store_invariant\<close>; final rows, no lost event, the
    audit trail (one activity per issue, traced back to the call that created it), isolation through
    \<open>tenant_operation\<close>.  \<open>Outbox_Refinement\<close>: the outbox refines an abstract ledger of events, on which
    each call has one effect, a function of its arguments.
  \<^item> \<open>App_Service\<close>, \<open>Adapters\<close>, \<open>Auth\<close>, \<open>Transport\<close>: \<open>dandori-contract\<close>, \<open>service.rs\<close>, \<open>adapters.rs\<close>,
    \<open>dandori-auth\<close>, the two transports: which answer every request gets, safe retries, which tokens and
    algorithms are accepted, the refresh of keys, agreement of REST and MCP.
  \<^item> \<open>Worker_Registry\<close>, \<open>Worker_Publish\<close>, \<open>Worker_Service\<close>, \<open>Worker_Theorems\<close>, \<open>Worker_Liveness\<close>: the handler
    table, the HTTP publisher with its breaker, the tenant cycle and the run; a run is a history of store
    calls, its report is true, it can always be completed.  \<open>Worker_Main\<close>: the process: settings that fail
    closed and lie in their bounds, which bound the delay of every retry; the loop, the release of
    partitions.
  \<^item> \<open>Delivery_Trace\<close>, \<open>Timely_Run\<close>, \<open>Busy_Run\<close>, \<open>Healthy_Run\<close>, \<open>Retries\<close>, \<open>End_To_End\<close>: what a run
    does on the network next to the database, as a trace of requests and answers.  A row becomes delivered
    only after its event was sent and answered with success, and a settlement after the lease abandons its
    batch.  A run is timely when the connection answers, messages are settled within the lease and
    nothing fresh is swept.  A busy run has calls of other clients and workers between its ticks; they may do
    anything but lease, settle or sweep the outbox of the tenants the run has acquired, and the issues they
    create are announced later than the run began.  Whether the endpoint accepts, refuses or cannot be
    reached, as long as the text made of its answer fits the column of 4000 characters (a longer one is
    never recorded: \<open>oversized_answer_abandons_batch\<close>), every complete timely run settles what was due and
    within reach of a batch (fewer open events of the tenant in front than the batch has places), so the
    attempts of an event end with its delivery or its dead letter; in a healthy environment (answers of
    success, a closed breaker) it delivers what was due, so the event of a REST creation reaches the
    endpoint with the data of its request.
  \<^item> \<open>Entry_Points\<close>: start-up of the REST and MCP servers and of the migrator, the loading of the keys and their
    reloads from the configured source, the line loop of the MCP server: when a server starts, whom it lets
    in while its keys are reloaded, that each line has its one answer, that a restart keeps the schema.
    \<open>Test_Support\<close>: the seeded database, the factories and the publishers of the integration tests.
  \<^item> \<open>Deps_Check\<close>: the guard; its walk ends and its verdict is exactly the layering of the dependencies and
    of the \<open>use\<close> items as written, both stated apart from the tables of the code; imports that macros emit
    pass.  \<open>Observability\<close>: correlation identifiers, installation of the tracing subscriber.

  Correspondence.  A Rust struct is a record, an enum a datatype, a function a definition of its name
  (\<open>Type_function\<close> where the name is shared); \<open>Result\<close> is a sum with the error left.  A store operation is
  a function on \<open>session\<close>: the committed and the working database, the setting \<open>app.workspace_id\<close>, and the
  schedule of round trips, each answered, lost before the server, or lost on the way back; past its end
  every trip is answered, so an empty schedule is a fault-free connection.  Operations of different
  clients are serialized: the statements that decide a race hold row locks until the end of their
  transaction; rows that others hold locked appear as the argument of \<open>SKIP LOCKED\<close>.  What the code
  draws (UUIDs, clocks, jitter) is an argument.  The worker runs tenants and publications concurrently
  through \<open>buffer_unordered\<close>: a tenant cycle is a machine that advances by ticks, the work between two
  suspension points with what it draws; a schedule is a list of ticks of tenants, a tick that the
  combinators do not allow changes nothing, and \<open>None\<close> means that the schedule ended before the run.
  \<open>buffer_unordered\<close> is not part of the sources: \<open>may_tick\<close> and \<open>begin_tick\<close> are its documented behaviour.
  Reports are added in the order of the tenants, which sums do not depend on.

  Parameters, with their laws as named hypotheses: \<open>leaf\<close> (text and JSON forms of UUIDs and timestamps,
  \<open>leaf_ok\<close>: what is written is read back), \<open>hashing\<close> (SHA-256 and the rendering of JSON, \<open>hashing_ok\<close>: a
  digest is 64 hexadecimal digits), \<open>jose\<close> (\<open>jsonwebtoken\<close>), \<open>wire\<close> (parsing and printing of JSON text), \<open>texts\<close>
  (renderings of other crates), \<open>outside\<close> (what environment, files, network and database answer when a
  process starts), \<open>file_system\<close> and the Rust parser of the guard.  Each theorem with
  hypotheses has a witness on a concrete instance.

  Bounds.  Recursion is structural or has a measure; the walk of the guard is a partial function, proved
  to end for well-founded directory trees.  No fuel is used.  Signed counters are integers with their
  32-bit wrap-around written out, as a release build computes it; unsigned counters are machine words.
  \<open>usize\<close> is taken as 64 bits wide.  Times are whole microseconds without bound, the precision of
  \<open>timestamptz\<close>, where chrono counts nanoseconds within a range.

  Assumptions on PostgreSQL: the roles of the services are neither superusers nor exempt from row level
  security, while the owner of the \<open>SECURITY DEFINER\<close> function of the partition leases is; \<open>RETURNING\<close>
  yields the rows in the order of the update; a text with a NUL byte is refused; \<open>jsonb\<close> keeps the values
  of the documents the program writes.

  Not modelled: log lines and metrics, which have no effect on state; the routing of axum, the HTTP client's
  connection handling, which belong to other crates; the container and the connection pools of the
  test harness; newtype wrappers and re-exports, which have no behaviour; a signal that arrives while a
  cycle of the worker runs.  Environment variables that
  are not Unicode count as unset in \<open>dandori-auth\<close>, as in the code, and are an error in the worker.
\<close>

end
